(* ===== verification/Prelude.thy ===== *)
theory Prelude
  imports Main "HOL-Library.Word"
begin

text \<open>
  Shared vocabulary of the development: the Go values the driver computes with and the
  facts about them that several components use.

  \<^item> \<open>byte\<close> and \<open>u16\<close> are Go's \<^verbatim>\<open>uint8\<close> and \<^verbatim>\<open>uint16\<close>; arithmetic on them
    wraps. \<open>int8\<close> values are kept as \<open>byte\<close> and read with \<^const>\<open>sint\<close>.
  \<^item> \<open>go_error\<close> are the \<^verbatim>\<open>error\<close> values the code distinguishes; \<open>go_panic\<close> are
    the run-time panics it can raise; \<open>go_result\<close> is the outcome of a fallible call.
  \<^item> \<open>buf_ReadFull\<close>, \<open>buf_Read\<close> are \<^verbatim>\<open>io.ReadFull\<close> and \<^verbatim>\<open>Read\<close> on a
    \<^verbatim>\<open>bytes.Buffer\<close>, whose unread part is a list of bytes.
  \<^item> \<open>be16\<close> and \<open>Uint16\<close> are the big-endian encoding of \<^verbatim>\<open>encoding/binary\<close>.
\<close>

unbundle bit_operations_syntax

type_synonym byte = "8 word"
type_synonym u16 = "16 word"

named_theorems go_defs "definitions of the standard library fragment"

datatype go_error =
    EOF
  | ErrUnexpectedEOF
  | ErrClosedPipe
  | ErrTimeout
  | ErrOther string

datatype go_panic =
    IndexOutOfRange
  | SliceBounds
  | TypeAssertion
  | PanicMsg string

datatype 'a go_result =
    Ok 'a
  | Err go_error
  | Panic go_panic

primrec gbind :: "'a go_result \<Rightarrow> ('a \<Rightarrow> 'b go_result) \<Rightarrow> 'b go_result" where
  "gbind (Ok x) f = f x"
| "gbind (Err e) f = Err e"
| "gbind (Panic p) f = Panic p"

lemma gbind_Ok_iff: "gbind r f = Ok y \<longleftrightarrow> (\<exists>x. r = Ok x \<and> f x = Ok y)"
  by (cases r) auto

lemma gbind_Panic_iff:
  "gbind r f = Panic p \<longleftrightarrow> r = Panic p \<or> (\<exists>x. r = Ok x \<and> f x = Panic p)"
  by (cases r) auto

lemma gbind_assoc: "gbind (gbind r f) g = gbind r (\<lambda>x. gbind (f x) g)"
  by (cases r) auto

fun gmap :: "('a \<Rightarrow> 'b go_result) \<Rightarrow> 'a list \<Rightarrow> 'b list go_result" where
  "gmap f [] = Ok []"
| "gmap f (x # xs) = gbind (f x) (\<lambda>y. gbind (gmap f xs) (\<lambda>ys. Ok (y # ys)))"

lemma gmap_Ok: "(\<And>x. x \<in> set xs \<Longrightarrow> f x = Ok (g x)) \<Longrightarrow> gmap f xs = Ok (map g xs)"
  by (induction xs) auto

lemma gmap_Panic_hd: "f x = Panic p \<Longrightarrow> gmap f (x # xs) = Panic p"
  by simp

lemma gmap_OkD: "gmap f xs = Ok ys \<Longrightarrow> length ys = length xs"
  by (induction xs arbitrary: ys) (auto simp: gbind_Ok_iff)

lemma gbind_cong [fundef_cong]:
  "r = r' \<Longrightarrow> (\<And>x. r' = Ok x \<Longrightarrow> f x = f' x) \<Longrightarrow> gbind r f = gbind r' f'"
  by (cases r') auto


section \<open>Lists\<close>

lemma split_last2:
  assumes "2 \<le> length xs"
  shows "xs = take (length xs - 2) xs @ [xs ! (length xs - 2), xs ! (length xs - 1)]"
proof -
  obtain k where k: "length xs = Suc (Suc k)"
    using assms by (metis add_2_eq_Suc le_Suc_ex)
  have "drop k xs = xs ! k # drop (Suc k) xs"
    using k by (simp add: Cons_nth_drop_Suc)
  moreover have "drop (Suc k) xs = [xs ! Suc k]"
    using k by (simp add: Cons_nth_drop_Suc [symmetric])
  ultimately show ?thesis
    using k append_take_drop_id [of k xs] by simp
qed


section \<open>Big-endian words\<close>

lemma unat_byte_less [simp]: "unat (b :: byte) < 256"
  using unsigned_less [of b, where ?'a = nat] by simp

lemma unat_ucast_byte [simp]: "unat (ucast (b :: byte) :: u16) = unat b"
proof -
  have "unat b < 2 ^ LENGTH(16)"
    using less_trans [OF unat_byte_less [of b]] by simp
  then show ?thesis
    by (simp add: unsigned_ucast_eq take_bit_nat_eq_self_iff)
qed

definition be16 :: "u16 \<Rightarrow> byte list" where
  "be16 w = [ucast (drop_bit 8 w), ucast w]"

definition Uint16 :: "byte \<Rightarrow> byte \<Rightarrow> u16" where
  "Uint16 hi lo = push_bit 8 (ucast hi) OR ucast lo"

lemma length_be16 [simp]: "length (be16 w) = 2"
  by (simp add: be16_def)

lemma Uint16_be16 [simp]: "Uint16 (ucast (drop_bit 8 w)) (ucast w) = w"
proof (rule bit_word_eqI)
  fix n
  assume "n < LENGTH(16)"
  then show "bit (Uint16 (ucast (drop_bit 8 w)) (ucast w)) n = bit w n"
    by (cases "n < 8") (auto simp: Uint16_def bit_simps)
qed

lemma be16_Uint16 [simp]: "be16 (Uint16 hi lo) = [hi, lo]"
proof -
  have "ucast (drop_bit 8 (Uint16 hi lo)) = hi"
    by (rule bit_word_eqI) (auto simp: Uint16_def bit_simps dest: bit_imp_le_length)
  moreover have "ucast (Uint16 hi lo) = lo"
    by (rule bit_word_eqI) (auto simp: Uint16_def bit_simps)
  ultimately show ?thesis
    by (simp add: be16_def)
qed

lemma Uint16_inject [simp]: "Uint16 a b = Uint16 c d \<longleftrightarrow> a = c \<and> b = d"
  by (metis be16_Uint16 list.inject)

lemma be16_inject [simp]: "be16 v = be16 w \<longleftrightarrow> v = w"
  by (metis Uint16_be16 be16_def list.inject)


section \<open>Reading from a byte buffer\<close>

definition buf_ReadFull :: "nat \<Rightarrow> byte list \<Rightarrow> (byte list \<times> byte list) go_result" where
  "buf_ReadFull n bs =
     (if n = 0 then Ok ([], bs)
      else if bs = [] then Err EOF
      else if length bs < n then Err ErrUnexpectedEOF
      else Ok (take n bs, drop n bs))"

text \<open>
  \<^verbatim>\<open>Buffer.Read\<close> into a slice of length \<open>n > 0\<close> copies what there is, at most \<open>n\<close> bytes;
  on an empty buffer it returns \<^verbatim>\<open>0, io.EOF\<close>, which both callers of the driver accept
  as the empty read: the count and the bytes are the same either way.
\<close>

definition buf_Read :: "nat \<Rightarrow> byte list \<Rightarrow> byte list \<times> byte list" where
  "buf_Read n bs = (take n bs, drop n bs)"

definition read_u8 :: "byte list \<Rightarrow> (byte \<times> byte list) go_result" where
  "read_u8 bs = gbind (buf_ReadFull 1 bs) (\<lambda>(xs, rest). Ok (xs ! 0, rest))"

definition read_u16 :: "byte list \<Rightarrow> (u16 \<times> byte list) go_result" where
  "read_u16 bs = gbind (buf_ReadFull 2 bs) (\<lambda>(xs, rest). Ok (Uint16 (xs ! 0) (xs ! 1), rest))"

lemma buf_ReadFull_append [simp]:
  "length xs = n \<Longrightarrow> buf_ReadFull n (xs @ rest) = Ok (xs, rest)"
  by (auto simp: buf_ReadFull_def)

lemma buf_ReadFull_no_panic [simp]: "buf_ReadFull n bs \<noteq> Panic p"
  by (auto simp: buf_ReadFull_def)

lemma buf_ReadFull_OkD:
  "buf_ReadFull n bs = Ok (xs, rest) \<Longrightarrow> bs = xs @ rest \<and> length xs = n"
  by (auto simp: buf_ReadFull_def split: if_splits)

lemma read_u8_Cons [simp]: "read_u8 (b # bs) = Ok (b, bs)"
  by (simp add: read_u8_def buf_ReadFull_def)

lemma read_u8_Nil [simp]: "read_u8 [] = Err EOF"
  by (simp add: read_u8_def buf_ReadFull_def)

lemma read_u8_no_panic [simp]: "read_u8 bs \<noteq> Panic p"
  by (cases bs) auto

lemma read_u16_Cons2 [simp]: "read_u16 (a # b # bs) = Ok (Uint16 a b, bs)"
  by (simp add: read_u16_def buf_ReadFull_def numeral_2_eq_2)

lemma read_u16_be16 [simp]: "read_u16 (be16 w @ bs) = Ok (w, bs)"
  by (simp add: be16_def)

lemma read_u16_no_panic [simp]: "read_u16 bs \<noteq> Panic p"
  by (auto simp: read_u16_def gbind_Panic_iff)

end
