(* ===== verification/Crc16.thy ===== *)
theory Crc16
  imports Prelude
begin

text \<open>
  The frame checksum, \<^verbatim>\<open>smartbus/crc16.go\<close>: a table-driven CRC-16 with polynomial
  \<^verbatim>\<open>0x1021\<close>, initial value 0, most significant bit first. The reference definition
  \<open>crc_ref\<close> shifts one bit at a time; the table-driven routine is shown equal to it. The
  reference form is linear and bijective in the register, which gives the detection
  properties the frame layer relies on (interface \<open>checksum\<close> below).
\<close>

section \<open>The table-driven routine\<close>

definition crc16tab :: "u16 list" where
  "crc16tab =
    [0x0000, 0x1021, 0x2042, 0x3063, 0x4084, 0x50a5, 0x60c6, 0x70e7,
     0x8108, 0x9129, 0xa14a, 0xb16b, 0xc18c, 0xd1ad, 0xe1ce, 0xf1ef,
     0x1231, 0x0210, 0x3273, 0x2252, 0x52b5, 0x4294, 0x72f7, 0x62d6,
     0x9339, 0x8318, 0xb37b, 0xa35a, 0xd3bd, 0xc39c, 0xf3ff, 0xe3de,
     0x2462, 0x3443, 0x0420, 0x1401, 0x64e6, 0x74c7, 0x44a4, 0x5485,
     0xa56a, 0xb54b, 0x8528, 0x9509, 0xe5ee, 0xf5cf, 0xc5ac, 0xd58d,
     0x3653, 0x2672, 0x1611, 0x0630, 0x76d7, 0x66f6, 0x5695, 0x46b4,
     0xb75b, 0xa77a, 0x9719, 0x8738, 0xf7df, 0xe7fe, 0xd79d, 0xc7bc,
     0x48c4, 0x58e5, 0x6886, 0x78a7, 0x0840, 0x1861, 0x2802, 0x3823,
     0xc9cc, 0xd9ed, 0xe98e, 0xf9af, 0x8948, 0x9969, 0xa90a, 0xb92b,
     0x5af5, 0x4ad4, 0x7ab7, 0x6a96, 0x1a71, 0x0a50, 0x3a33, 0x2a12,
     0xdbfd, 0xcbdc, 0xfbbf, 0xeb9e, 0x9b79, 0x8b58, 0xbb3b, 0xab1a,
     0x6ca6, 0x7c87, 0x4ce4, 0x5cc5, 0x2c22, 0x3c03, 0x0c60, 0x1c41,
     0xedae, 0xfd8f, 0xcdec, 0xddcd, 0xad2a, 0xbd0b, 0x8d68, 0x9d49,
     0x7e97, 0x6eb6, 0x5ed5, 0x4ef4, 0x3e13, 0x2e32, 0x1e51, 0x0e70,
     0xff9f, 0xefbe, 0xdfdd, 0xcffc, 0xbf1b, 0xaf3a, 0x9f59, 0x8f78,
     0x9188, 0x81a9, 0xb1ca, 0xa1eb, 0xd10c, 0xc12d, 0xf14e, 0xe16f,
     0x1080, 0x00a1, 0x30c2, 0x20e3, 0x5004, 0x4025, 0x7046, 0x6067,
     0x83b9, 0x9398, 0xa3fb, 0xb3da, 0xc33d, 0xd31c, 0xe37f, 0xf35e,
     0x02b1, 0x1290, 0x22f3, 0x32d2, 0x4235, 0x5214, 0x6277, 0x7256,
     0xb5ea, 0xa5cb, 0x95a8, 0x8589, 0xf56e, 0xe54f, 0xd52c, 0xc50d,
     0x34e2, 0x24c3, 0x14a0, 0x0481, 0x7466, 0x6447, 0x5424, 0x4405,
     0xa7db, 0xb7fa, 0x8799, 0x97b8, 0xe75f, 0xf77e, 0xc71d, 0xd73c,
     0x26d3, 0x36f2, 0x0691, 0x16b0, 0x6657, 0x7676, 0x4615, 0x5634,
     0xd94c, 0xc96d, 0xf90e, 0xe92f, 0x99c8, 0x89e9, 0xb98a, 0xa9ab,
     0x5844, 0x4865, 0x7806, 0x6827, 0x18c0, 0x08e1, 0x3882, 0x28a3,
     0xcb7d, 0xdb5c, 0xeb3f, 0xfb1e, 0x8bf9, 0x9bd8, 0xabbb, 0xbb9a,
     0x4a75, 0x5a54, 0x6a37, 0x7a16, 0x0af1, 0x1ad0, 0x2ab3, 0x3a92,
     0xfd2e, 0xed0f, 0xdd6c, 0xcd4d, 0xbdaa, 0xad8b, 0x9de8, 0x8dc9,
     0x7c26, 0x6c07, 0x5c64, 0x4c45, 0x3ca2, 0x2c83, 0x1ce0, 0x0cc1,
     0xef1f, 0xff3e, 0xcf5d, 0xdf7c, 0xaf9b, 0xbfba, 0x8fd9, 0x9ff8,
     0x6e17, 0x7e36, 0x4e55, 0x5e74, 0x2e93, 0x3eb2, 0x0ed1, 0x1ef0]"

text \<open>
  The table index is a \<^verbatim>\<open>uint16\<close>; an index outside the table panics. \<^verbatim>\<open>prev << 8\<close>
  on a \<^verbatim>\<open>uint16\<close> drops the high byte.
\<close>

definition crc16tab_at :: "u16 \<Rightarrow> u16 go_result" where
  "crc16tab_at i =
     (if unat i < length crc16tab then Ok (crc16tab ! unat i) else Panic IndexOutOfRange)"

definition update_crc16 :: "byte \<Rightarrow> u16 \<Rightarrow> u16 go_result" where
  "update_crc16 b prev =
     gbind (crc16tab_at (drop_bit 8 prev XOR ucast b))
       (\<lambda>t. Ok ((push_bit 8 prev XOR t) AND 0xffff))"

fun crc16_loop :: "u16 \<Rightarrow> byte list \<Rightarrow> u16 go_result" where
  "crc16_loop crc [] = Ok crc"
| "crc16_loop crc (b # bs) = gbind (update_crc16 b crc) (\<lambda>crc'. crc16_loop crc' bs)"

definition crc16 :: "byte list \<Rightarrow> u16 go_result" where
  "crc16 bs = crc16_loop 0 bs"


section \<open>Bit-serial reference\<close>

text \<open>One shift of the register: the bit shifted out selects the polynomial.\<close>

definition crc_bit :: "u16 \<Rightarrow> u16" where
  "crc_bit c = (if bit c 15 then push_bit 1 c XOR 0x1021 else push_bit 1 c)"

fun crc_steps :: "nat \<Rightarrow> u16 \<Rightarrow> u16" where
  "crc_steps 0 c = c"
| "crc_steps (Suc n) c = crc_steps n (crc_bit c)"

definition crc_byte :: "byte \<Rightarrow> u16 \<Rightarrow> u16" where
  "crc_byte b c = crc_steps 8 (c XOR push_bit 8 (ucast b))"

definition crc_from :: "u16 \<Rightarrow> byte list \<Rightarrow> u16" where
  "crc_from c bs = fold crc_byte bs c"

definition crc_ref :: "byte list \<Rightarrow> u16" where
  "crc_ref bs = crc_from 0 bs"

lemma crc_from_simps [simp]:
  "crc_from c [] = c"
  "crc_from c (b # bs) = crc_from (crc_byte b c) bs"
  "crc_from c (xs @ ys) = crc_from (crc_from c xs) ys"
  by (simp_all add: crc_from_def)

text \<open>The register update is linear over exclusive-or and loses no information.\<close>

lemma crc_bit_xor: "crc_bit (x XOR y) = crc_bit x XOR crc_bit y"
  by (auto simp: crc_bit_def bit_simps push_bit_xor xor.assoc xor.left_commute xor.commute)

lemma crc_bit_0 [simp]: "crc_bit 0 = 0"
  by (simp add: crc_bit_def)

lemma crc_bit_eq_0 [simp]: "crc_bit x = 0 \<longleftrightarrow> x = 0"
proof
  assume z: "crc_bit x = 0"
  have top: "\<not> bit x 15"
  proof
    assume "bit x 15"
    with z have "bit (push_bit 1 x XOR 0x1021) 0 = bit (0 :: u16) 0"
      by (simp add: crc_bit_def)
    then show False
      by (simp add: bit_0 even_xor_iff)
  qed
  show "x = 0"
  proof (rule bit_word_eqI)
    fix n
    assume n: "n < LENGTH(16)"
    show "bit x n = bit (0 :: u16) n"
    proof (cases "n = 15")
      case True
      with top show ?thesis by simp
    next
      case False
      with n have "bit (push_bit 1 x) (Suc n) \<longleftrightarrow> bit x n"
        unfolding bit_push_bit_iff by simp
      moreover from z top have "push_bit 1 x = 0"
        by (simp add: crc_bit_def)
      ultimately show ?thesis by simp
    qed
  qed
qed simp

lemma crc_steps_xor: "crc_steps n (x XOR y) = crc_steps n x XOR crc_steps n y"
  by (induction n arbitrary: x y) (simp_all add: crc_bit_xor)

lemma crc_steps_0 [simp]: "crc_steps n 0 = 0"
  by (induction n) simp_all

lemma crc_steps_eq_0 [simp]: "crc_steps n x = 0 \<longleftrightarrow> x = 0"
  by (induction n arbitrary: x) simp_all

lemma xor_right_cancel [simp]: "x XOR c = y XOR c \<longleftrightarrow> x = y" for x y c :: u16
  by (auto simp: bit_eq_iff bit_simps)

lemma xor_eq_0_iff: "x XOR y = 0 \<longleftrightarrow> x = y" for x y :: u16
  by (auto simp: bit_eq_iff bit_simps)

lemma crc_steps_inject [simp]: "crc_steps n x = crc_steps n y \<longleftrightarrow> x = y"
  by (metis crc_steps_eq_0 crc_steps_xor xor_eq_0_iff)

lemma crc_steps_add: "crc_steps (m + n) x = crc_steps n (crc_steps m x)"
  by (induction m arbitrary: x) simp_all

lemma crc_byte_inject_reg [simp]: "crc_byte b x = crc_byte b y \<longleftrightarrow> x = y"
  by (simp add: crc_byte_def)

lemma crc_from_inject_reg [simp]: "crc_from x bs = crc_from y bs \<longleftrightarrow> x = y"
  by (induction bs arbitrary: x y) simp_all


subsection \<open>The low byte of the register is only shifted\<close>

lemma crc_steps_low: "n + k \<le> 16 \<Longrightarrow> crc_steps k (take_bit n x) = push_bit k (take_bit n x)"
proof (induction k arbitrary: n x)
  case 0
  then show ?case by simp
next
  case (Suc k)
  then have "\<not> bit (take_bit n x) 15" by (simp add: bit_simps)
  then have "crc_bit (take_bit n x) = push_bit 1 (take_bit n x)" by (simp add: crc_bit_def)
  also have "\<dots> = take_bit (Suc n) (push_bit 1 x)"
    by (simp add: push_bit_take_bit)
  finally show ?case
    using Suc.IH [of "Suc n" "push_bit 1 x"] Suc.prems
    by (simp add: push_bit_take_bit)
qed

lemma crc_steps_ucast: "crc_steps 8 (ucast (b :: byte)) = push_bit 8 (ucast b)"
proof -
  have "ucast b = take_bit 8 (ucast b :: u16)"
    by (rule bit_eqI) (auto simp: bit_simps dest: bit_imp_le_length)
  then show ?thesis
    using crc_steps_low [of 8 8 "ucast b"] by simp
qed

lemma Uint16_xor: "Uint16 hi lo = push_bit 8 (ucast hi) XOR ucast lo"
  by (rule bit_eqI) (auto simp: Uint16_def bit_simps dest: bit_imp_le_length)

text \<open>Two bytes together are one word added to the register before sixteen shifts.\<close>

lemma crc_byte_byte: "crc_byte b (crc_byte a c) = crc_steps 16 (c XOR Uint16 a b)"
proof -
  have "crc_byte b (crc_byte a c)
      = crc_steps 8 (crc_steps 8 (c XOR push_bit 8 (ucast a)) XOR crc_steps 8 (ucast b))"
    by (simp add: crc_byte_def crc_steps_ucast)
  also have "\<dots> = crc_steps 8 (crc_steps 8 (c XOR (push_bit 8 (ucast a) XOR ucast b)))"
    by (simp add: crc_steps_xor xor.assoc)
  also have "\<dots> = crc_steps 16 (c XOR Uint16 a b)"
    using crc_steps_add [of 8 8] by (simp add: Uint16_xor)
  finally show ?thesis .
qed


section \<open>The table is the reference\<close>

lemma crc_steps_8:
  "crc_steps 8 c = crc_bit (crc_bit (crc_bit (crc_bit (crc_bit (crc_bit (crc_bit (crc_bit c)))))))"
  by (simp add: eval_nat_numeral)

definition crc_entry :: "nat \<Rightarrow> u16" where
  "crc_entry i = crc_steps 8 (push_bit 8 (word_of_nat i))"

lemma crc16tab_entries: "crc16tab = map crc_entry [0..<256]"
proof -
  have upt: "[0..<256] = 0 # 1 # [2..<256::nat]"
    by (simp add: upt_conv_Cons numeral_2_eq_2)
  have "map crc_entry [0..<256] = crc16tab"
    unfolding upt
    by (simp add: crc_entry_def crc_steps_8 crc_bit_def crc16tab_def)
  then show ?thesis by simp
qed

lemma crc16tab_at_entry: "unat i < 256 \<Longrightarrow> crc16tab_at i = Ok (crc_steps 8 (push_bit 8 i))"
  by (simp add: crc16tab_at_def crc16tab_entries crc_entry_def)

lemma crc_index_bound: "unat (drop_bit 8 prev XOR ucast (b :: byte) :: u16) < 256"
proof -
  let ?i = "drop_bit 8 prev XOR ucast b :: u16"
  have "?i = ucast (ucast ?i :: byte)"
    by (rule bit_eqI) (auto simp: bit_simps dest: bit_imp_le_length)
  then have "unat ?i = unat (ucast ?i :: byte)"
    by (metis unat_ucast_byte)
  then show ?thesis
    using unat_byte_less [of "ucast ?i"] by simp
qed

lemma and_ffff [simp]: "w AND 0xffff = w" for w :: u16
proof -
  have "(0xffff :: u16) = - 1" by simp
  then show ?thesis by (simp only: and.right_neutral)
qed

lemma update_crc16_ref: "update_crc16 b prev = Ok (crc_byte b prev)"
proof -
  let ?i = "drop_bit 8 prev XOR ucast b :: u16"
  have split: "prev XOR push_bit 8 (ucast b) = push_bit 8 ?i XOR take_bit 8 prev"
    by (rule bit_eqI) (auto simp: bit_simps)
  have low: "crc_steps 8 (take_bit 8 prev) = push_bit 8 prev"
  proof -
    have "push_bit 8 (take_bit 8 prev) = push_bit 8 prev"
      by (rule bit_eqI) (auto simp: bit_simps)
    then show ?thesis using crc_steps_low [of 8 8 prev] by simp
  qed
  have "update_crc16 b prev = Ok (push_bit 8 prev XOR crc_steps 8 (push_bit 8 ?i))"
    by (simp add: update_crc16_def crc16tab_at_entry crc_index_bound)
  then show ?thesis
    by (simp add: crc_byte_def split crc_steps_xor low xor.commute)
qed

lemma crc16_loop_ref: "crc16_loop c bs = Ok (crc_from c bs)"
  by (induction bs arbitrary: c) (simp_all add: update_crc16_ref)

lemma crc16_ref [simp]: "crc16 bs = Ok (crc_ref bs)"
  by (simp add: crc16_def crc_ref_def crc16_loop_ref)


section \<open>What the frame layer relies on\<close>

locale checksum =
  fixes sum :: "byte list \<Rightarrow> u16"
  assumes residue: "sum (m @ [h, l]) = 0 \<longleftrightarrow> Uint16 h l = sum m"
    and byte_differs: "sum (xs @ a # ys) = sum (xs @ b # ys) \<longleftrightarrow> a = b"
    and pair_differs: "sum (xs @ a # b # ys) = sum (xs @ c # d # ys) \<longleftrightarrow> a = c \<and> b = d"
begin

lemma sealed [simp]: "sum (m @ be16 (sum m)) = 0"
  by (metis be16_def Uint16_be16 residue)

lemma trailer_iff:
  assumes "2 \<le> length f"
  shows "Uint16 (f ! (length f - 2)) (f ! (length f - 1)) = sum (take (length f - 2) f)
     \<longleftrightarrow> sum f = 0"
proof -
  show ?thesis
    using residue [of "take (length f - 2) f"] split_last2 [OF assms] by metis
qed

lemma damaged_byte: "sum (xs @ a # ys) = 0 \<Longrightarrow> b \<noteq> a \<Longrightarrow> sum (xs @ b # ys) \<noteq> 0"
  using byte_differs [of xs b ys a] by simp

lemma damaged_pair:
  "sum (xs @ a # b # ys) = 0 \<Longrightarrow> (c, d) \<noteq> (a, b) \<Longrightarrow> sum (xs @ c # d # ys) \<noteq> 0"
  using pair_differs [of xs c d ys a b] by auto

end

lemma crc_byte_inject_byte [simp]: "crc_byte a c = crc_byte b c \<longleftrightarrow> a = b"
proof -
  have "a = b" if eq: "push_bit 8 (ucast a :: u16) = push_bit 8 (ucast b)"
  proof -
    have "Uint16 a 0 = Uint16 b 0" using eq by (simp add: Uint16_def)
    then show ?thesis by simp
  qed
  then show ?thesis
    by (auto simp: crc_byte_def xor.commute [of c])
qed

interpretation crc: checksum crc_ref
proof unfold_locales
  fix m h l
  show "crc_ref (m @ [h, l]) = 0 \<longleftrightarrow> Uint16 h l = crc_ref m"
    by (auto simp: crc_ref_def crc_byte_byte xor_eq_0_iff)
next
  fix xs a ys b
  show "crc_ref (xs @ a # ys) = crc_ref (xs @ b # ys) \<longleftrightarrow> a = b"
    by (simp add: crc_ref_def)
next
  fix xs a b ys c d
  show "crc_ref (xs @ a # b # ys) = crc_ref (xs @ c # d # ys) \<longleftrightarrow> a = c \<and> b = d"
    by (auto simp: crc_ref_def crc_byte_byte xor.commute [of "crc_from 0 xs"])
qed


section \<open>Properties\<close>

text \<open>
  (C6) The table-driven \<^verbatim>\<open>crc16\<close> never indexes outside its table and returns, for every
  byte string, the value of the bit-serial CRC-16 with polynomial 0x1021 and initial value 0.
\<close>

theorem crc16_table_correct: "crc16 bs = Ok (crc_ref bs)"
  by (simp add: crc16_def crc_ref_def crc16_loop_ref)

text \<open>
  (C37) A byte string followed by its own big-endian CRC has CRC 0, and replacing any two
  adjacent bytes of it (the CRC bytes included) by different ones makes the CRC non-zero:
  every error burst of at most sixteen bits inside two neighbouring bytes is detected.
\<close>

theorem crc16_detects_burst:
  assumes "crc16 m = Ok c" and "m @ be16 c = xs @ a # b # ys" and "(a', b') \<noteq> (a, b)"
  shows "crc16 (m @ be16 c) = Ok 0 \<and> crc16 (xs @ a' # b' # ys) \<noteq> Ok 0"
proof -
  from assms(1) have c: "c = crc_ref m" by simp
  then have zero: "crc_ref (xs @ a # b # ys) = 0"
    using assms(2) crc.sealed [of m] by simp
  with assms(2,3) c show ?thesis
    using crc.damaged_pair [OF zero assms(3)] by simp
qed

lemma crc_steps_16: "crc_steps 16 c = crc_steps 8 (crc_steps 8 c)"
  using crc_steps_add [of 8 8] by simp

theorem crc16_detects_burst_witness:
  "crc16 ([0, 0] @ be16 0) = Ok 0 \<and> crc16 ([0] @ 1 # 2 # [0]) \<noteq> Ok 0"
  by (rule crc16_detects_burst [of "[0, 0]" 0 "[0]" 0 0 "[0]" 1 2])
     (simp_all add: crc_ref_def crc_byte_def be16_def)

end
