(* ===== verification/MessageFormat.thy ===== *)
theory MessageFormat
  imports Prelude "HOL-Library.AList"
begin

text \<open>
  The reflection-driven field codec, \<^verbatim>\<open>smartbus/messageformat.go\<close>. A struct, as
  \<^verbatim>\<open>reflect\<close> shows it to \<^verbatim>\<open>ParseMessage\<close> and \<^verbatim>\<open>WriteMessage\<close>, is the list of its fields;
  a field is its \<^verbatim>\<open>sbus\<close> tag and its current value, whose constructor is the field's Go
  type. \<open>ParseMessage\<close> starts from the zero values of a fresh struct. A converter is the pair
  of functions the tag selects in \<^verbatim>\<open>converterMap\<close>. Reading returns the value and the bytes
  left in the buffer.

  The laws a converter obeys are stated as locales: \<open>converter_law\<close> (what was written is
  read back when nothing follows) and \<open>delimited_converter\<close> (also when more bytes follow).
\<close>

section \<open>Field values\<close>

datatype field_value =
    VUint8 byte                  \<comment> \<open>\<^verbatim>\<open>uint8\<close>\<close>
  | VUint16 u16                  \<comment> \<open>\<^verbatim>\<open>uint16\<close>\<close>
  | VByteArray "byte list"       \<comment> \<open>\<^verbatim>\<open>[n]uint8\<close>\<close>
  | VBool bool                   \<comment> \<open>\<^verbatim>\<open>bool\<close>\<close>
  | VInt int                     \<comment> \<open>\<^verbatim>\<open>int\<close>\<close>
  | VString string               \<comment> \<open>\<^verbatim>\<open>string\<close>\<close>
  | VBools "bool list"           \<comment> \<open>\<^verbatim>\<open>[]bool\<close>\<close>
  | VUint8s "byte list"          \<comment> \<open>\<^verbatim>\<open>[]uint8\<close>\<close>
  | VInt8s "byte list"           \<comment> \<open>\<^verbatim>\<open>[]int8\<close>, each element as its byte\<close>
  | VArray "field_value list"    \<comment> \<open>\<^verbatim>\<open>[n]string\<close>\<close>

type_synonym field = "string \<times> field_value"
type_synonym field_read = "byte list \<Rightarrow> field_value \<Rightarrow> (field_value \<times> byte list) go_result"
type_synonym field_write = "field_value \<Rightarrow> byte list go_result"

record converter =
  conv_read :: field_read
  conv_write :: field_write


section \<open>Channel status bits\<close>

definition status_bit :: "byte list \<Rightarrow> nat \<Rightarrow> bool go_result" where
  "status_bit bs i =
     (if i div 8 < length bs then Ok (drop_bit (i mod 8) (bs ! (i div 8)) AND 1 = 1)
      else Panic IndexOutOfRange)"

text \<open>The byte count \<^verbatim>\<open>(n+7)/8\<close> is computed in \<^verbatim>\<open>uint8\<close>, where the addition wraps.\<close>

definition ReadChannelStatusField :: field_read where
  "ReadChannelStatusField bs v =
     (case read_u8 bs of
        Err e \<Rightarrow> if e = EOF then Ok (VBools [], bs) else Err e
      | Panic p \<Rightarrow> Panic p
      | Ok (n, rest) \<Rightarrow>
          if 0 < n then
            gbind (buf_ReadFull (unat ((n + 7) div 8)) rest) (\<lambda>(st, rest').
              gbind (gmap (status_bit st) [0..<unat n]) (\<lambda>status. Ok (VBools status, rest')))
          else Ok (VBools [], rest))"

definition status_bytes :: "bool list \<Rightarrow> byte list" where
  "status_bytes status =
     fold (\<lambda>(i, v) bs. if v then bs[i div 8 := bs ! (i div 8) OR push_bit (i mod 8) 1] else bs)
       (enumerate 0 status) (replicate ((length status + 7) div 8) 0)"

definition WriteChannelStatusField :: field_write where
  "WriteChannelStatusField v =
     (case v of
        VBools status \<Rightarrow>
          if status = [] then Ok []
          else Ok (word_of_nat (length status) # status_bytes status)
      | _ \<Rightarrow> Panic TypeAssertion)"


section \<open>Byte lists\<close>

definition ReadStatusBytesField :: field_read where
  "ReadStatusBytesField bs v =
     gbind (read_u8 bs) (\<lambda>(n, rest).
       if 0 < n then
         gbind (buf_ReadFull (unat n) rest) (\<lambda>(status, rest'). Ok (VUint8s status, rest'))
       else Ok (VUint8s [], rest))"

definition WriteStatusBytesField :: field_write where
  "WriteStatusBytesField v =
     (case v of
        VUint8s status \<Rightarrow> Ok (word_of_nat (length status) # status)
      | _ \<Rightarrow> Panic TypeAssertion)"

definition ReadRemarkField :: field_read where
  "ReadRemarkField bs v =
     (case buf_Read 64 bs of (buf, rest) \<Rightarrow>
        if length buf = 64 then Err (ErrOther ''remark field too long'')
        else Ok (VUint8s buf, rest))"

definition WriteRemarkField :: field_write where
  "WriteRemarkField v =
     (case v of
        VUint8s buf \<Rightarrow>
          if 64 \<le> length buf then Err (ErrOther ''remark field too long'') else Ok buf
      | _ \<Rightarrow> Panic TypeAssertion)"

definition ReadTemperatureListField :: field_read where
  "ReadTemperatureListField bs v =
     (case buf_Read 8 bs of (buf, rest) \<Rightarrow> Ok (VInt8s buf, rest))"

definition WriteTemperatureListField :: field_write where
  "WriteTemperatureListField v =
     (case v of
        VInt8s temps \<Rightarrow>
          if 8 < length temps then Err (ErrOther ''temperature list field too long'')
          else Ok temps
      | _ \<Rightarrow> Panic TypeAssertion)"


section \<open>Converters built from converters\<close>

text \<open>
  In the reader the error of \<open>fromRaw\<close> is bound to a second variable of the same name, so
  the function returns the outer, nil error: a byte that \<open>fromRaw\<close> rejects leaves the
  field as it was and the read succeeds. \<open>toRaw\<close> may also panic, in a type assertion.
\<close>

definition uint8converter ::
    "(byte \<Rightarrow> field_value go_result) \<Rightarrow> (field_value \<Rightarrow> byte go_result) \<Rightarrow> converter" where
  "uint8converter fromRaw toRaw =
     \<lparr>conv_read = (\<lambda>bs v.
        gbind (read_u8 bs) (\<lambda>(b, rest).
          case fromRaw b of
            Ok r \<Rightarrow> Ok (r, rest)
          | Err e \<Rightarrow> Ok (v, rest)
          | Panic p \<Rightarrow> Panic p)),
      conv_write = (\<lambda>v. gbind (toRaw v) (\<lambda>r. Ok [r]))\<rparr>"

text \<open>A Go map is an association list with distinct keys, updated by \<^const>\<open>AList.update\<close>.\<close>

definition revMap :: "(byte \<times> field_value) list \<Rightarrow> (field_value \<times> byte) list" where
  "revMap m = fold (\<lambda>(k, v). AList.update v k) m []"

definition uint8MapConverter :: "(byte \<times> field_value) list \<Rightarrow> converter" where
  "uint8MapConverter m = uint8converter
     (\<lambda>k. case map_of m k of
            Some v \<Rightarrow> Ok v
          | None \<Rightarrow> Err (ErrOther ''cannot map uint8 value''))
     (\<lambda>v. case map_of (revMap m) v of
            Some k \<Rightarrow> Ok k
          | None \<Rightarrow> Err (ErrOther ''cannot reverse map value to uint8''))"

definition uint8NameListConverter :: "string list \<Rightarrow> converter" where
  "uint8NameListConverter names = uint8MapConverter
     (fold (\<lambda>(i, v). AList.update (word_of_nat i) (VString v)) (enumerate 0 names) [])"

fun array_read :: "field_read \<Rightarrow> byte list \<Rightarrow> field_value list \<Rightarrow>
    (field_value list \<times> byte list) go_result" where
  "array_read rd bs [] = Ok ([], bs)"
| "array_read rd bs (v # vs) =
     gbind (rd bs v) (\<lambda>(v', bs').
       gbind (array_read rd bs' vs) (\<lambda>(vs', bs''). Ok (v' # vs', bs'')))"

fun array_write :: "field_write \<Rightarrow> field_value list \<Rightarrow> byte list go_result" where
  "array_write wr [] = Ok []"
| "array_write wr (v # vs) =
     gbind (wr v) (\<lambda>bs. gbind (array_write wr vs) (\<lambda>bs'. Ok (bs @ bs')))"

definition arrayConverter :: "converter \<Rightarrow> converter" where
  "arrayConverter item =
     \<lparr>conv_read = (\<lambda>bs v. case v of
          VArray vs \<Rightarrow>
            gbind (array_read (conv_read item) bs vs) (\<lambda>(vs', rest). Ok (VArray vs', rest))
        | _ \<Rightarrow> Panic TypeAssertion),
      conv_write = (\<lambda>v. case v of
          VArray vs \<Rightarrow> array_write (conv_write item) vs
        | _ \<Rightarrow> Panic TypeAssertion)\<rparr>"


section \<open>The converter table\<close>

definition flagConverter :: converter where
  "flagConverter = uint8MapConverter [(0x00, VBool False), (0x01, VBool True)]"

definition successConverter :: converter where
  "successConverter = uint8MapConverter [(0xf8, VBool True), (0xf5, VBool False)]"

definition panelButtonModeNames :: "string list" where
  "panelButtonModeNames =
     [''Invalid'', ''SingleOnOff'', ''SingleOn'', ''SingleOff'', ''CombinationOn'',
      ''CombinationOff'', ''PressOnReleaseOff'', ''CombinationOnOff'',
      ''SeparateLeftRightPressOnReleaseOff'', ''SeparateLeftRightCombinationOnOff'',
      ''LeftOffRightOn'']"

definition sensorTempConverter :: converter where
  "sensorTempConverter = uint8converter
     (\<lambda>k. Ok (VInt (int (unat k) - 20)))
     (\<lambda>v. case v of
            VInt t \<Rightarrow>
              if t + 20 < 0 \<or> 255 < t + 20 then Err (ErrOther ''temperature value out of range'')
              else Ok (word_of_int (t + 20))
          | _ \<Rightarrow> Panic TypeAssertion)"

definition converterMap :: "(string \<times> converter) list" where
  "converterMap =
     [(''flag'', flagConverter),
      (''success'', successConverter),
      (''channelStatus'',
         \<lparr>conv_read = ReadChannelStatusField, conv_write = WriteChannelStatusField\<rparr>),
      (''statusBytes'',
         \<lparr>conv_read = ReadStatusBytesField, conv_write = WriteStatusBytesField\<rparr>),
      (''panelButtonModes'', arrayConverter (uint8NameListConverter panelButtonModeNames)),
      (''remark'', \<lparr>conv_read = ReadRemarkField, conv_write = WriteRemarkField\<rparr>),
      (''templist'',
         \<lparr>conv_read = ReadTemperatureListField, conv_write = WriteTemperatureListField\<rparr>),
      (''sensorTemp'', sensorTempConverter)]"

definition ReadTaggedField ::
    "byte list \<Rightarrow> field_value \<Rightarrow> string \<Rightarrow> (field_value \<times> byte list) go_result" where
  "ReadTaggedField bs v tag =
     (case map_of converterMap tag of
        None \<Rightarrow> Err (ErrOther ''no converter for tag'')
      | Some c \<Rightarrow> conv_read c bs v)"

definition WriteTaggedField :: "field_value \<Rightarrow> string \<Rightarrow> byte list go_result" where
  "WriteTaggedField v tag =
     (case map_of converterMap tag of
        None \<Rightarrow> Err (ErrOther ''no converter for tag'')
      | Some c \<Rightarrow> conv_write c v)"


section \<open>Whole structs\<close>

text \<open>
  \<^verbatim>\<open>binary.Read\<close> and \<^verbatim>\<open>binary.Write\<close> on an untagged field, for the fixed-size types the
  message structs use untagged (\<^verbatim>\<open>uint8\<close>, \<^verbatim>\<open>uint16\<close>, \<^verbatim>\<open>[n]uint8\<close>).
\<close>

fun binary_Read :: field_read where
  "binary_Read bs (VUint8 _) = gbind (read_u8 bs) (\<lambda>(b, rest). Ok (VUint8 b, rest))"
| "binary_Read bs (VUint16 _) = gbind (read_u16 bs) (\<lambda>(w, rest). Ok (VUint16 w, rest))"
| "binary_Read bs (VByteArray old) =
     gbind (buf_ReadFull (length old) bs) (\<lambda>(xs, rest). Ok (VByteArray xs, rest))"
| "binary_Read bs _ = Err (ErrOther ''binary.Read: invalid type'')"

fun binary_Write :: field_write where
  "binary_Write (VUint8 b) = Ok [b]"
| "binary_Write (VUint16 w) = Ok (be16 w)"
| "binary_Write (VByteArray xs) = Ok xs"
| "binary_Write _ = Err (ErrOther ''binary.Write: invalid type'')"

text \<open>The argument of \<^verbatim>\<open>ParseMessage\<close> and \<^verbatim>\<open>WriteMessage\<close>: a struct behind a pointer, or not.\<close>

datatype iface = Ptr "field list" | NonPtr

definition read_field ::
    "byte list \<Rightarrow> field_value \<Rightarrow> string \<Rightarrow> (field_value \<times> byte list) go_result" where
  "read_field bs v tag = (if tag = '''' then binary_Read bs v else ReadTaggedField bs v tag)"

definition write_field :: "field_value \<Rightarrow> string \<Rightarrow> byte list go_result" where
  "write_field v tag = (if tag = '''' then binary_Write v else WriteTaggedField v tag)"

fun parse_fields :: "byte list \<Rightarrow> field list \<Rightarrow> (field_value list \<times> byte list) go_result" where
  "parse_fields bs [] = Ok ([], bs)"
| "parse_fields bs ((tag, v) # fs) =
     gbind (read_field bs v tag) (\<lambda>(v', bs').
       gbind (parse_fields bs' fs) (\<lambda>(vs, rest). Ok (v' # vs, rest)))"

definition ParseMessage :: "byte list \<Rightarrow> iface \<Rightarrow> (field_value list \<times> byte list) go_result" where
  "ParseMessage bs message =
     (case message of
        NonPtr \<Rightarrow> Err (ErrOther ''message pointer expected'')
      | Ptr fs \<Rightarrow> parse_fields bs fs)"

fun write_fields :: "field list \<Rightarrow> byte list go_result" where
  "write_fields [] = Ok []"
| "write_fields ((tag, v) # fs) =
     gbind (write_field v tag) (\<lambda>bs.
       gbind (write_fields fs) (\<lambda>bs'. Ok (bs @ bs')))"

definition WriteMessage :: "iface \<Rightarrow> byte list go_result" where
  "WriteMessage message =
     (case message of
        NonPtr \<Rightarrow> Err (ErrOther ''message pointer expected'')
      | Ptr fs \<Rightarrow> write_fields fs)"


section \<open>Laws of converters\<close>

locale converter_law =
  fixes c :: converter
    and valid :: "field_value \<Rightarrow> bool"
    and cur :: "field_value \<Rightarrow> bool"
  assumes write_total: "valid v \<Longrightarrow> \<exists>bs. conv_write c v = Ok bs"
    and read_write: "valid v \<Longrightarrow> cur z \<Longrightarrow> conv_write c v = Ok bs \<Longrightarrow> conv_read c bs z = Ok (v, [])"

locale delimited_converter =
  fixes c :: converter
    and valid :: "field_value \<Rightarrow> bool"
    and cur :: "field_value \<Rightarrow> bool"
  assumes write_total: "valid v \<Longrightarrow> \<exists>bs. conv_write c v = Ok bs"
    and read_write_rest:
      "valid v \<Longrightarrow> cur z \<Longrightarrow> conv_write c v = Ok bs \<Longrightarrow> conv_read c (bs @ rest) z = Ok (v, rest)"

sublocale delimited_converter \<subseteq> law: converter_law
proof unfold_locales
  fix v z bs
  assume "valid v" and "cur z" and "conv_write c v = Ok bs"
  then show "conv_read c bs z = Ok (v, [])"
    using read_write_rest [of v z bs "[]"] by simp
qed (rule write_total)

context delimited_converter
begin

lemma array_write_read:
  assumes "list_all valid vs" and "list_all cur zs" and "length zs = length vs"
  shows "\<exists>bs. array_write (conv_write c) vs = Ok bs \<and>
    (\<forall>rest. array_read (conv_read c) (bs @ rest) zs = Ok (vs, rest))"
  using assms
proof (induction vs arbitrary: zs)
  case Nil
  then show ?case by simp
next
  case (Cons v vs)
  then obtain z zs' where zs: "zs = z # zs'" and "cur z" "list_all cur zs'" "length zs' = length vs"
    by (cases zs) auto
  with Cons obtain bs' where bs': "array_write (conv_write c) vs = Ok bs'"
    and rd': "\<And>rest. array_read (conv_read c) (bs' @ rest) zs' = Ok (vs, rest)"
    by auto
  from Cons.prems obtain bs where bs: "conv_write c v = Ok bs"
    using write_total by auto
  have "conv_read c (bs @ bs' @ rest) z = Ok (v, bs' @ rest)" for rest
    using Cons.prems \<open>cur z\<close> bs by (auto intro: read_write_rest)
  with bs bs' rd' zs show ?case by auto
qed

end

text \<open>A converter on one byte is delimited as soon as its two functions are inverse on its domain.\<close>

locale uint8_codec =
  fixes fromRaw :: "byte \<Rightarrow> field_value go_result"
    and toRaw :: "field_value \<Rightarrow> byte go_result"
    and valid :: "field_value \<Rightarrow> bool"
  assumes inverse: "valid v \<Longrightarrow> \<exists>b. toRaw v = Ok b \<and> fromRaw b = Ok v"

sublocale uint8_codec \<subseteq> delimited_converter "uint8converter fromRaw toRaw" valid "\<lambda>_. True"
proof unfold_locales
  fix v
  assume "valid v"
  then show "\<exists>bs. conv_write (uint8converter fromRaw toRaw) v = Ok bs"
    using inverse by (fastforce simp: uint8converter_def)
next
  fix v z bs rest
  assume "valid v" and "conv_write (uint8converter fromRaw toRaw) v = Ok bs"
  then show "conv_read (uint8converter fromRaw toRaw) (bs @ rest) z = Ok (v, rest)"
    using inverse [of v] by (auto simp: uint8converter_def gbind_Ok_iff)
qed

context uint8_codec
begin

lemma delimited: "delimited_converter (uint8converter fromRaw toRaw) valid (\<lambda>_. True)"
  by unfold_locales

end

text \<open>A byte that \<open>fromRaw\<close> rejects is read without an error and leaves the field unchanged.\<close>

lemma uint8converter_read_unmapped:
  "fromRaw b = Err e \<Longrightarrow> conv_read (uint8converter fromRaw toRaw) (b # rest) v = Ok (v, rest)"
  by (simp add: uint8converter_def)

lemma map_of_revMap:
  assumes "distinct (map fst m)" and "distinct (map snd m)"
  shows "map_of (revMap m) v = Some k \<longleftrightarrow> map_of m k = Some v"
proof -
  have "map_of (fold (\<lambda>(k, v). AList.update v k) m acc) v = Some k \<longleftrightarrow>
      (k, v) \<in> set m \<or> (v \<notin> snd ` set m \<and> map_of acc v = Some k)" for acc
    using assms
  proof (induction m arbitrary: acc)
    case Nil
    then show ?case by simp
  next
    case (Cons p m)
    then show ?case
      by (cases p) (auto simp: update_conv' intro: rev_image_eqI)
  qed
  from this [of "[]"] show ?thesis
    using assms by (simp add: revMap_def)
qed

lemma uint8_codec_map:
  assumes "distinct (map fst m)" and "distinct (map snd m)"
  shows "uint8_codec
     (\<lambda>k. case map_of m k of Some v \<Rightarrow> Ok v | None \<Rightarrow> Err (ErrOther ''cannot map uint8 value''))
     (\<lambda>v. case map_of (revMap m) v of
        Some k \<Rightarrow> Ok k
      | None \<Rightarrow> Err (ErrOther ''cannot reverse map value to uint8''))
     (\<lambda>v. v \<in> snd ` set m)"
proof
  fix v
  assume "v \<in> snd ` set m"
  then obtain k where "map_of m k = Some v"
    using assms(1) by auto
  moreover from this have "map_of (revMap m) v = Some k"
    using map_of_revMap [OF assms] by simp
  ultimately show "\<exists>b. (case map_of (revMap m) v of Some k \<Rightarrow> Ok k
      | None \<Rightarrow> Err (ErrOther ''cannot reverse map value to uint8'')) = Ok b \<and>
    (case map_of m b of Some v \<Rightarrow> Ok v
      | None \<Rightarrow> Err (ErrOther ''cannot map uint8 value'')) = Ok v"
    by simp
qed


section \<open>The converters of the table obey the laws\<close>

abbreviation any_value :: "field_value \<Rightarrow> bool" where
  "any_value \<equiv> \<lambda>_. True"

definition is_bool_value :: "field_value \<Rightarrow> bool" where
  "is_bool_value v = (case v of VBool _ \<Rightarrow> True | _ \<Rightarrow> False)"

lemma delimited_uint8MapConverter:
  assumes "distinct (map fst m)" and "distinct (map snd m)" and "\<And>v. valid v \<Longrightarrow> v \<in> snd ` set m"
  shows "delimited_converter (uint8MapConverter m) valid any_value"
proof -
  have "delimited_converter (uint8MapConverter m) (\<lambda>v. v \<in> snd ` set m) any_value"
    unfolding uint8MapConverter_def
    by (rule uint8_codec.delimited [OF uint8_codec_map [OF assms(1,2)]])
  with assms(3) show ?thesis
    by (simp add: delimited_converter_def)
qed

interpretation flag: delimited_converter flagConverter is_bool_value any_value
  unfolding flagConverter_def
  by (rule delimited_uint8MapConverter)
     (auto simp: is_bool_value_def split: field_value.splits)

interpretation success: delimited_converter successConverter is_bool_value any_value
  unfolding successConverter_def
  by (rule delimited_uint8MapConverter)
     (auto simp: is_bool_value_def split: field_value.splits)

definition is_mode_value :: "field_value \<Rightarrow> bool" where
  "is_mode_value v = (case v of VString n \<Rightarrow> n \<in> set panelButtonModeNames | _ \<Rightarrow> False)"

interpretation mode: delimited_converter "uint8NameListConverter panelButtonModeNames"
  is_mode_value any_value
  unfolding uint8NameListConverter_def
  by (rule delimited_uint8MapConverter)
     (auto simp: is_mode_value_def panelButtonModeNames_def split: field_value.splits)

definition is_modes_value :: "field_value \<Rightarrow> bool" where
  "is_modes_value v =
     (case v of VArray vs \<Rightarrow> length vs = 16 \<and> list_all is_mode_value vs | _ \<Rightarrow> False)"

definition is_array16 :: "field_value \<Rightarrow> bool" where
  "is_array16 v = (case v of VArray vs \<Rightarrow> length vs = 16 | _ \<Rightarrow> False)"

interpretation modes: delimited_converter "arrayConverter (uint8NameListConverter panelButtonModeNames)"
  is_modes_value is_array16
proof unfold_locales
  fix v
  assume "is_modes_value v"
  then obtain vs where "v = VArray vs" "list_all is_mode_value vs"
    by (auto simp: is_modes_value_def split: field_value.splits)
  then show "\<exists>bs. conv_write (arrayConverter (uint8NameListConverter panelButtonModeNames)) v = Ok bs"
    using mode.array_write_read [of vs vs] by (auto simp: arrayConverter_def list_all_iff)
next
  fix v z bs rest
  assume "is_modes_value v" and "is_array16 z"
    and wr: "conv_write (arrayConverter (uint8NameListConverter panelButtonModeNames)) v = Ok bs"
  then obtain vs zs where "v = VArray vs" "z = VArray zs" "length zs = length vs"
      "list_all is_mode_value vs"
    by (auto simp: is_modes_value_def is_array16_def split: field_value.splits)
  then show "conv_read (arrayConverter (uint8NameListConverter panelButtonModeNames)) (bs @ rest) z
      = Ok (v, rest)"
    using mode.array_write_read [of vs zs] wr by (auto simp: arrayConverter_def list_all_iff)
qed

definition is_sensorTemp_value :: "field_value \<Rightarrow> bool" where
  "is_sensorTemp_value v = (case v of VInt t \<Rightarrow> - 20 \<le> t \<and> t \<le> 235 | _ \<Rightarrow> False)"

lemma int_unat_word_of_int_byte:
  "0 \<le> k \<Longrightarrow> k \<le> 255 \<Longrightarrow> int (unat (word_of_int k :: byte)) = k"
  by (simp add: unsigned_of_int take_bit_int_eq_self_iff)

interpretation sensorTemp: delimited_converter sensorTempConverter is_sensorTemp_value any_value
proof -
  have "uint8_codec (\<lambda>k. Ok (VInt (int (unat k) - 20)))
     (\<lambda>v. case v of
            VInt t \<Rightarrow>
              if t + 20 < 0 \<or> 255 < t + 20 then Err (ErrOther ''temperature value out of range'')
              else Ok (word_of_int (t + 20))
          | _ \<Rightarrow> Panic TypeAssertion) is_sensorTemp_value"
  proof
    fix v
    assume "is_sensorTemp_value v"
    then obtain t where v: "v = VInt t" and t: "- 20 \<le> t" "t \<le> 235"
      by (auto simp: is_sensorTemp_value_def split: field_value.splits)
    then have "int (unat (word_of_int (t + 20) :: byte)) = t + 20"
      using int_unat_word_of_int_byte [of "t + 20"] by simp
    then show "\<exists>b :: byte. (case v of
            VInt t \<Rightarrow>
              if t + 20 < 0 \<or> 255 < t + 20 then Err (ErrOther ''temperature value out of range'')
              else Ok (word_of_int (t + 20))
          | _ \<Rightarrow> Panic TypeAssertion) = Ok b \<and> Ok (VInt (int (unat b) - 20)) = Ok v"
      using v t by auto
  qed
  then show "delimited_converter sensorTempConverter is_sensorTemp_value any_value"
    unfolding sensorTempConverter_def by (rule uint8_codec.delimited)
qed

definition is_statusBytes_value :: "field_value \<Rightarrow> bool" where
  "is_statusBytes_value v = (case v of VUint8s xs \<Rightarrow> length xs \<le> 255 | _ \<Rightarrow> False)"

lemma unat_word_of_nat_byte: "n \<le> 255 \<Longrightarrow> unat (word_of_nat n :: byte) = n"
  by (simp add: unsigned_of_nat take_bit_nat_eq_self_iff)

lemma word_of_nat_byte_eq_0: "n \<le> 255 \<Longrightarrow> (word_of_nat n :: byte) = 0 \<longleftrightarrow> n = 0"
  using unsigned_eq_0_iff [of "word_of_nat n :: byte", where ?'a = nat] unat_word_of_nat_byte [of n]
  by simp

interpretation statusBytes: delimited_converter
  "\<lparr>conv_read = ReadStatusBytesField, conv_write = WriteStatusBytesField\<rparr>"
  is_statusBytes_value any_value
proof unfold_locales
  fix v
  assume "is_statusBytes_value v"
  then show "\<exists>bs. conv_write
      \<lparr>conv_read = ReadStatusBytesField, conv_write = WriteStatusBytesField\<rparr> v = Ok bs"
    by (auto simp: is_statusBytes_value_def WriteStatusBytesField_def split: field_value.splits)
next
  fix v z bs rest
  assume "is_statusBytes_value v" and
    "conv_write \<lparr>conv_read = ReadStatusBytesField, conv_write = WriteStatusBytesField\<rparr> v = Ok bs"
  then show "conv_read \<lparr>conv_read = ReadStatusBytesField, conv_write = WriteStatusBytesField\<rparr>
      (bs @ rest) z = Ok (v, rest)"
    by (auto simp: is_statusBytes_value_def WriteStatusBytesField_def ReadStatusBytesField_def
        unat_word_of_nat_byte word_of_nat_byte_eq_0 word_neq_0_conv [symmetric]
        split: field_value.splits)
qed

definition is_remark_value :: "field_value \<Rightarrow> bool" where
  "is_remark_value v = (case v of VUint8s xs \<Rightarrow> length xs < 64 | _ \<Rightarrow> False)"

interpretation remark: converter_law
  "\<lparr>conv_read = ReadRemarkField, conv_write = WriteRemarkField\<rparr>" is_remark_value any_value
  by unfold_locales
     (auto simp: is_remark_value_def WriteRemarkField_def ReadRemarkField_def buf_Read_def
       split: field_value.splits)

definition is_templist_value :: "field_value \<Rightarrow> bool" where
  "is_templist_value v = (case v of VInt8s xs \<Rightarrow> length xs \<le> 8 | _ \<Rightarrow> False)"

interpretation templist: converter_law
  "\<lparr>conv_read = ReadTemperatureListField, conv_write = WriteTemperatureListField\<rparr>"
  is_templist_value any_value
  by unfold_locales
     (auto simp: is_templist_value_def WriteTemperatureListField_def ReadTemperatureListField_def
       buf_Read_def split: field_value.splits)


subsection \<open>Channel status\<close>

text \<open>Bit \<open>j\<close> of a byte string, least significant bit of each byte first.\<close>

definition bit_at :: "byte list \<Rightarrow> nat \<Rightarrow> bool" where
  "bit_at bs j = bit (bs ! (j div 8)) (j mod 8)"

lemma status_bit_eq: "j < 8 * length bs \<Longrightarrow> status_bit bs j = Ok (bit_at bs j)"
proof -
  assume "j < 8 * length bs"
  then have "j div 8 < length bs" by auto
  moreover have "drop_bit n w AND 1 = 1 \<longleftrightarrow> bit w n" for n and w :: byte
    by (simp add: bit_iff_odd_drop_bit and_one_eq mod_2_eq_odd)
  ultimately show ?thesis
    by (simp add: status_bit_def bit_at_def)
qed

lemma bit_at_set:
  assumes "i < 8 * length bs" and "j < 8 * length bs"
  shows "bit_at (bs[i div 8 := bs ! (i div 8) OR push_bit (i mod 8) 1]) j
     \<longleftrightarrow> bit_at bs j \<or> i = j"
proof (cases "i div 8 = j div 8")
  case True
  have "bit (push_bit (i mod 8) 1 :: byte) (j mod 8) \<longleftrightarrow> i mod 8 = j mod 8"
    unfolding bit_push_bit_iff by (auto simp: bit_1_iff)
  moreover have "i mod 8 = j mod 8 \<longleftrightarrow> i = j"
    using True by (metis div_mod_decomp)
  moreover have "j div 8 < length bs"
    using assms(2) by auto
  ultimately show ?thesis
    using True by (simp add: bit_at_def bit_or_iff)
next
  case False
  then show ?thesis by (auto simp: bit_at_def)
qed

lemma status_fold:
  assumes "k + length status \<le> 8 * length bs"
  defines "bs' \<equiv> fold (\<lambda>(i, v) bs. if v then bs[i div 8 := bs ! (i div 8) OR push_bit (i mod 8) 1]
      else bs) (enumerate k status) bs"
  shows "length bs' = length bs \<and> (\<forall>j < 8 * length bs. bit_at bs' j \<longleftrightarrow>
     bit_at bs j \<or> k \<le> j \<and> j < k + length status \<and> status ! (j - k))"
  unfolding bs'_def using assms(1)
proof (induction status arbitrary: k bs)
  case Nil
  then show ?case by auto
next
  case (Cons v status)
  let ?bs1 = "if v then bs[k div 8 := bs ! (k div 8) OR push_bit (k mod 8) 1] else bs"
  have one: "bit_at ?bs1 j \<longleftrightarrow> bit_at bs j \<or> v \<and> k = j" if "j < 8 * length bs" for j
    using that Cons.prems bit_at_set [of k bs j] by (cases v) simp_all
  have shift: "(k \<le> j \<and> j < k + length (v # status) \<and> (v # status) ! (j - k)) \<longleftrightarrow>
      v \<and> k = j \<or> Suc k \<le> j \<and> j < Suc k + length status \<and> status ! (j - Suc k)" for j
    by (cases "j = k") (auto simp: nth_Cons' le_eq_less_or_eq)
  have len: "length ?bs1 = length bs" by simp
  have prem: "Suc k + length status \<le> 8 * length ?bs1"
    using Cons.prems by simp
  show ?case
    using Cons.IH [OF prem] one shift by (simp add: len del: length_list_update)
qed

lemma length_status_bytes [simp]: "length (status_bytes status) = (length status + 7) div 8"
  using status_fold [of 0 status "replicate ((length status + 7) div 8) 0"]
  by (simp add: status_bytes_def)

lemma status_bytes_bit: "j < length status \<Longrightarrow> bit_at (status_bytes status) j \<longleftrightarrow> status ! j"
proof -
  assume j: "j < length status"
  have "\<not> bit_at (replicate ((length status + 7) div 8) 0) j"
    using j by (simp add: bit_at_def)
  then show ?thesis
    using j status_fold [of 0 status "replicate ((length status + 7) div 8) 0"]
    by (simp add: status_bytes_def)
qed

lemma status_bytes_read: "gmap (status_bit (status_bytes status)) [0..<length status] = Ok status"
proof -
  have "gmap (status_bit (status_bytes status)) [0..<length status]
      = Ok (map (bit_at (status_bytes status)) [0..<length status])"
    by (rule gmap_Ok) (auto intro!: status_bit_eq)
  also have "map (bit_at (status_bytes status)) [0..<length status] = status"
    by (rule nth_equalityI) (auto simp: status_bytes_bit)
  finally show ?thesis .
qed

definition is_channelStatus_value :: "field_value \<Rightarrow> bool" where
  "is_channelStatus_value v = (case v of VBools xs \<Rightarrow> length xs \<le> 248 | _ \<Rightarrow> False)"

text \<open>The byte count is right as long as adding 7 to the count does not wrap.\<close>

lemma status_count_bytes: "n \<le> 248 \<Longrightarrow> unat ((word_of_nat n + 7 :: byte) div 8) = (n + 7) div 8"
proof -
  assume n: "n \<le> 248"
  have "unat (word_of_nat n + 7 :: byte) = n + 7"
    using unat_word_of_nat_byte [of "n + 7"] n by simp
  then show ?thesis by (simp add: unat_div)
qed

interpretation channelStatus: converter_law
  "\<lparr>conv_read = ReadChannelStatusField, conv_write = WriteChannelStatusField\<rparr>"
  is_channelStatus_value any_value
proof unfold_locales
  fix v
  assume "is_channelStatus_value v"
  then show "\<exists>bs. conv_write
      \<lparr>conv_read = ReadChannelStatusField, conv_write = WriteChannelStatusField\<rparr> v = Ok bs"
    by (auto simp: is_channelStatus_value_def WriteChannelStatusField_def split: field_value.splits)
next
  fix v z bs
  assume "is_channelStatus_value v" and
    wr: "conv_write \<lparr>conv_read = ReadChannelStatusField, conv_write = WriteChannelStatusField\<rparr> v = Ok bs"
  then obtain st where v: "v = VBools st" and len: "length st \<le> 248"
    by (auto simp: is_channelStatus_value_def split: field_value.splits)
  show "conv_read \<lparr>conv_read = ReadChannelStatusField, conv_write = WriteChannelStatusField\<rparr> bs z
      = Ok (v, [])"
  proof (cases "st = []")
    case True
    with wr v show ?thesis
      by (simp add: WriteChannelStatusField_def ReadChannelStatusField_def)
  next
    case False
    let ?n = "word_of_nat (length st) :: byte"
    have n: "0 < ?n" "unat ?n = length st"
      using False len by (simp_all add: unat_word_of_nat_byte word_of_nat_byte_eq_0
          word_neq_0_conv [symmetric])
    from False wr v have bs: "bs = ?n # status_bytes st"
      by (simp add: WriteChannelStatusField_def)
    have "buf_ReadFull ((length st + 7) div 8) (status_bytes st) = Ok (status_bytes st, [])"
      using buf_ReadFull_append [of "status_bytes st" "(length st + 7) div 8" "[]"] by simp
    then show ?thesis
      using n len by (simp add: bs v ReadChannelStatusField_def status_count_bytes status_bytes_read)
  qed
qed


section \<open>Round trip of whole structs\<close>

text \<open>
  \<open>delimited_field\<close>: the encoding of the field marks its own end, so the field may stand
  anywhere in a struct. \<open>trailing_field\<close>: the field may stand last.
\<close>

definition delimited_field :: "field \<Rightarrow> bool" where
  "delimited_field f =
     (case f of (tag, v) \<Rightarrow>
        if tag = '''' then
          (case v of VUint8 _ \<Rightarrow> True | VUint16 _ \<Rightarrow> True | VByteArray _ \<Rightarrow> True | _ \<Rightarrow> False)
        else if tag = ''flag'' \<or> tag = ''success'' then is_bool_value v
        else if tag = ''statusBytes'' then is_statusBytes_value v
        else if tag = ''panelButtonModes'' then is_modes_value v
        else if tag = ''sensorTemp'' then is_sensorTemp_value v
        else False)"

definition trailing_field :: "field \<Rightarrow> bool" where
  "trailing_field f =
     (delimited_field f \<or>
      (case f of (tag, v) \<Rightarrow>
        tag = ''channelStatus'' \<and> is_channelStatus_value v \<or>
        tag = ''remark'' \<and> is_remark_value v \<or>
        tag = ''templist'' \<and> is_templist_value v))"

fun struct_ok :: "field list \<Rightarrow> bool" where
  "struct_ok [] = True"
| "struct_ok [f] = trailing_field f"
| "struct_ok (f # fs) = (delimited_field f \<and> struct_ok fs)"

text \<open>\<open>same_slot z f\<close>: the field \<open>z\<close> of a fresh struct has the tag and Go type of \<open>f\<close>.\<close>

fun same_slot :: "field \<Rightarrow> field \<Rightarrow> bool" where
  "same_slot (t, z) (t', v) =
     (t = t' \<and>
      (t = '''' \<longrightarrow> (case (z, v) of
          (VUint8 _, VUint8 _) \<Rightarrow> True
        | (VUint16 _, VUint16 _) \<Rightarrow> True
        | (VByteArray xs, VByteArray ys) \<Rightarrow> length xs = length ys
        | _ \<Rightarrow> False)) \<and>
      (t = ''panelButtonModes'' \<longrightarrow> is_array16 z))"

lemma converterMap_lookup [simp]:
  "map_of converterMap ''flag'' = Some flagConverter"
  "map_of converterMap ''success'' = Some successConverter"
  "map_of converterMap ''channelStatus'' =
     Some \<lparr>conv_read = ReadChannelStatusField, conv_write = WriteChannelStatusField\<rparr>"
  "map_of converterMap ''statusBytes'' =
     Some \<lparr>conv_read = ReadStatusBytesField, conv_write = WriteStatusBytesField\<rparr>"
  "map_of converterMap ''panelButtonModes'' =
     Some (arrayConverter (uint8NameListConverter panelButtonModeNames))"
  "map_of converterMap ''remark'' =
     Some \<lparr>conv_read = ReadRemarkField, conv_write = WriteRemarkField\<rparr>"
  "map_of converterMap ''templist'' =
     Some \<lparr>conv_read = ReadTemperatureListField, conv_write = WriteTemperatureListField\<rparr>"
  "map_of converterMap ''sensorTemp'' = Some sensorTempConverter"
  by (simp_all add: converterMap_def)

lemma tagged_delimited:
  assumes "map_of converterMap tag = Some c" and "tag \<noteq> ''''"
    and "delimited_converter c valid cur" and "valid v" and "cur z"
  shows "\<exists>bs. write_field v tag = Ok bs \<and> (\<forall>rest. read_field (bs @ rest) z tag = Ok (v, rest))"
  using assms delimited_converter.write_total [OF assms(3,4)]
    delimited_converter.read_write_rest [OF assms(3,4,5)]
  by (auto simp: write_field_def read_field_def WriteTaggedField_def ReadTaggedField_def)

lemma tagged_trailing:
  assumes "map_of converterMap tag = Some c" and "tag \<noteq> ''''"
    and "converter_law c valid cur" and "valid v" and "cur z"
  shows "\<exists>bs. write_field v tag = Ok bs \<and> read_field bs z tag = Ok (v, [])"
  using assms converter_law.write_total [OF assms(3,4)] converter_law.read_write [OF assms(3,4,5)]
  by (auto simp: write_field_def read_field_def WriteTaggedField_def ReadTaggedField_def)

lemma untagged_delimited:
  assumes "delimited_field ('''', v)" and "same_slot ('''', z) ('''', v)"
  shows "\<exists>bs. write_field v '''' = Ok bs \<and> (\<forall>rest. read_field (bs @ rest) z '''' = Ok (v, rest))"
  using assms
  by (cases v; cases z) (auto simp: delimited_field_def write_field_def read_field_def)

lemma delimited_field_round_trip:
  assumes "delimited_field (tag, v)" and "same_slot (tag, z) (tag, v)"
  shows "\<exists>bs. write_field v tag = Ok bs \<and> (\<forall>rest. read_field (bs @ rest) z tag = Ok (v, rest))"
proof -
  from assms(1) consider "tag = ''''" | "tag = ''flag''" "is_bool_value v"
    | "tag = ''success''" "is_bool_value v" | "tag = ''statusBytes''" "is_statusBytes_value v"
    | "tag = ''panelButtonModes''" "is_modes_value v" | "tag = ''sensorTemp''" "is_sensorTemp_value v"
    by (auto simp: delimited_field_def split: if_splits)
  then show ?thesis
  proof cases
    case 1
    with assms show ?thesis using untagged_delimited by simp
  next
    case 2
    then show ?thesis
      using tagged_delimited [OF _ _ flag.delimited_converter_axioms] by simp
  next
    case 3
    then show ?thesis
      using tagged_delimited [OF _ _ success.delimited_converter_axioms] by simp
  next
    case 4
    then show ?thesis
      using tagged_delimited [OF _ _ statusBytes.delimited_converter_axioms] by simp
  next
    case 5
    with assms(2) show ?thesis
      using tagged_delimited [OF _ _ modes.delimited_converter_axioms] by simp
  next
    case 6
    then show ?thesis
      using tagged_delimited [OF _ _ sensorTemp.delimited_converter_axioms] by simp
  qed
qed

lemma trailing_field_round_trip:
  assumes "trailing_field (tag, v)" and "same_slot (tag, z) (tag, v)"
  shows "\<exists>bs. write_field v tag = Ok bs \<and> read_field bs z tag = Ok (v, [])"
proof -
  from assms(1) consider "delimited_field (tag, v)"
    | "tag = ''channelStatus''" "is_channelStatus_value v"
    | "tag = ''remark''" "is_remark_value v" | "tag = ''templist''" "is_templist_value v"
    by (auto simp: trailing_field_def)
  then show ?thesis
  proof cases
    case 1
    with assms(2) show ?thesis
      using delimited_field_round_trip by (metis append_Nil2)
  next
    case 2
    then show ?thesis
      using tagged_trailing [OF _ _ channelStatus.converter_law_axioms] by simp
  next
    case 3
    then show ?thesis
      using tagged_trailing [OF _ _ remark.converter_law_axioms] by simp
  next
    case 4
    then show ?thesis
      using tagged_trailing [OF _ _ templist.converter_law_axioms] by simp
  qed
qed

lemma fields_round_trip:
  assumes "struct_ok fs" and "list_all2 same_slot zs fs"
  shows "\<exists>bs. write_fields fs = Ok bs \<and> parse_fields bs zs = Ok (map snd fs, [])"
  using assms
proof (induction fs arbitrary: zs rule: struct_ok.induct)
  case 1
  then show ?case by simp
next
  case (2 f)
  obtain tag v where f: "f = (tag, v)" by force
  with "2.prems" obtain z where zs: "zs = [(tag, z)]" and slot: "same_slot (tag, z) (tag, v)"
    by (cases zs) auto
  with "2.prems" f show ?case
    using trailing_field_round_trip [of tag v z] by auto
next
  case (3 f g fs)
  obtain tag v where f: "f = (tag, v)" by force
  with "3.prems" obtain z zs' where zs: "zs = (tag, z) # zs'"
    and slot: "same_slot (tag, z) (tag, v)" and zs': "list_all2 same_slot zs' (g # fs)"
    by (cases zs) auto
  from "3.prems" zs' obtain bs' where bs': "write_fields (g # fs) = Ok bs'"
    "parse_fields bs' zs' = Ok (map snd (g # fs), [])"
    using "3.IH" by fastforce
  from "3.prems" f slot obtain bs where bs: "write_field v tag = Ok bs"
    "\<And>rest. read_field (bs @ rest) z tag = Ok (v, rest)"
    using delimited_field_round_trip [of tag v z] by auto
  from bs bs' show ?case
    by (simp add: f zs del: write_fields.simps(2))
       (simp add: bs bs')
qed

lemma WriteMessage_ParseMessage:
  assumes "struct_ok fs" and "list_all2 same_slot zs fs"
  shows "\<exists>bs. WriteMessage (Ptr fs) = Ok bs \<and> ParseMessage bs (Ptr zs) = Ok (map snd fs, [])"
  using fields_round_trip [OF assms] by (simp add: WriteMessage_def ParseMessage_def)


section \<open>Properties\<close>

text \<open>
  Every struct whose fields hold values of the documented ranges, the fields of variable
  length standing last, is written by \<^verbatim>\<open>WriteMessage\<close> without error, and \<^verbatim>\<open>ParseMessage\<close>, run
  on those bytes over a fresh struct of the same type, returns exactly the field values and
  leaves no byte unread.
\<close>

theorem struct_round_trip:
  assumes "struct_ok fs" and "list_all2 same_slot zs fs"
  shows "\<exists>bs. WriteMessage (Ptr fs) = Ok bs \<and> ParseMessage bs (Ptr zs) = Ok (map snd fs, [])"
  by (rule WriteMessage_ParseMessage [OF assms])

theorem struct_round_trip_witness:
  "\<exists>bs. WriteMessage (Ptr [('''', VUint16 513), (''channelStatus'', VBools [True, False])]) = Ok bs \<and>
     ParseMessage bs (Ptr [('''', VUint16 0), (''channelStatus'', VBools [])])
       = Ok (map snd [('''', VUint16 513), (''channelStatus'', VBools [True, False])], [])"
  by (rule struct_round_trip)
     (simp_all add: delimited_field_def trailing_field_def is_channelStatus_value_def)

text \<open>
  A byte that a map converter does not know (a flag other than 0 and 1, a success byte
  other than 0xf8 and 0xf5) is not reported: the read succeeds, consumes the byte and leaves
  the field with the value it had.
\<close>

theorem unmapped_byte_accepted:
  assumes "b \<notin> fst ` set m"
  shows "conv_read (uint8MapConverter m) (b # rest) v = Ok (v, rest)"
proof -
  from assms have "map_of m b = None" by (simp add: map_of_eq_None_iff)
  then show ?thesis
    unfolding uint8MapConverter_def
    by (intro uint8converter_read_unmapped) simp
qed

theorem unmapped_byte_accepted_witness:
  "conv_read (uint8MapConverter [(0x00, VBool False), (0x01, VBool True)]) (2 # []) (VBool False)
     = Ok (VBool False, [])"
  by (rule unmapped_byte_accepted) simp

end
