(* ===== verification/FieldSafety.thy ===== *)
theory FieldSafety
  imports MessageFormat
begin

text \<open>
  When the field readers of \<^verbatim>\<open>smartbus/messageformat.go\<close> panic (only the channel status reader
  does, and exactly when its count wraps), and that every reader returns a value of the Go type
  of its field.
\<close>

section \<open>Panics of the readers\<close>

text \<open>
  With a count of 249 or more the byte count wraps to 0, no status byte is read, and the
  first status bit is taken from an empty slice.
\<close>

lemma status_count_wraps:
  assumes "249 \<le> n"
  shows "unat ((n + 7 :: byte) div 8) = 0"
proof -
  have n: "249 \<le> unat n" using assms by (simp add: word_le_nat_alt)
  then have eq: "unat n + 7 = 256 + (unat n - 249)" by linarith
  have lt: "unat n - 249 < 7" using n unat_byte_less [of n] by linarith
  have "unat (n + 7) = (unat n + 7) mod 256"
    by (simp add: unat_word_ariths)
  also have "\<dots> = unat n - 249"
    unfolding eq using lt by simp
  finally show ?thesis
    using lt by (simp add: unat_div)
qed

lemma channel_status_panic_large:
  assumes "249 \<le> n"
  shows "ReadChannelStatusField (n # rest) v = Panic IndexOutOfRange"
proof -
  have "249 \<le> unat n" using assms by (simp add: word_le_nat_alt)
  then have pos: "0 < unat n" by linarith
  then have upt: "[0..<unat n] = 0 # [Suc 0..<unat n]" by (rule upt_conv_Cons)
  have n: "0 < n" using pos by (simp add: word_less_nat_alt)
  have "gmap (status_bit []) [0..<unat n] = Panic IndexOutOfRange"
    unfolding upt by (simp add: status_bit_def)
  with n show ?thesis
    using status_count_wraps [OF assms]
    by (simp add: ReadChannelStatusField_def buf_ReadFull_def)
qed

lemma channel_status_no_panic_small:
  assumes "n \<le> 248"
  shows "ReadChannelStatusField (n # rest) v \<noteq> Panic p"
proof
  assume *: "ReadChannelStatusField (n # rest) v = Panic p"
  have n: "unat n \<le> 248" using assms by (simp add: word_le_nat_alt)
  have cnt: "unat ((n + 7) div 8) = (unat n + 7) div 8"
    using status_count_bytes [OF n] by simp
  from * obtain st rest' where st: "buf_ReadFull ((unat n + 7) div 8) rest = Ok (st, rest')"
    and pan: "gmap (status_bit st) [0..<unat n] = Panic p"
    by (auto simp: ReadChannelStatusField_def cnt gbind_Panic_iff split: if_splits)
  have "gmap (status_bit st) [0..<unat n] = Ok (map (bit_at st) [0..<unat n])"
    using buf_ReadFull_OkD [OF st] by (intro gmap_Ok status_bit_eq) auto
  with pan show False by simp
qed

lemma channel_status_Panic_iff:
  "(\<exists>p. ReadChannelStatusField bs v = Panic p) \<longleftrightarrow> bs \<noteq> [] \<and> 249 \<le> hd bs"
proof (cases bs)
  case Nil
  then show ?thesis by (simp add: ReadChannelStatusField_def)
next
  case (Cons n rest)
  have "249 \<le> unat n \<or> unat n \<le> 248"
    by linarith
  then have "249 \<le> n \<or> n \<le> 248"
    by (simp add: word_le_nat_alt)
  then show ?thesis
    using Cons channel_status_panic_large [of n rest v] channel_status_no_panic_small [of n rest v]
    by auto
qed

lemma uint8converter_no_panic:
  "(\<And>b p. fromRaw b \<noteq> Panic p) \<Longrightarrow> conv_read (uint8converter fromRaw toRaw) bs v \<noteq> Panic p"
  by (auto simp: uint8converter_def gbind_Panic_iff split: go_result.splits prod.splits)

lemma uint8MapConverter_no_panic: "conv_read (uint8MapConverter m) bs v \<noteq> Panic p"
  unfolding uint8MapConverter_def
  by (rule uint8converter_no_panic) (auto split: option.splits)

lemma array_read_no_panic:
  "(\<And>bs v p. rd bs v \<noteq> Panic p) \<Longrightarrow> array_read rd bs vs \<noteq> Panic p"
  by (induction rd bs vs rule: array_read.induct) (auto simp: gbind_Panic_iff split: prod.splits)

text \<open>A struct slot the readers can be applied to: an array field holds an array.\<close>

definition slot_ok :: "field \<Rightarrow> bool" where
  "slot_ok f = (case f of (tag, v) \<Rightarrow> tag = ''panelButtonModes'' \<longrightarrow> is_array16 v)"

lemma read_field_no_panic:
  assumes "slot_ok (tag, v)" and "tag \<noteq> ''channelStatus''"
  shows "read_field bs v tag \<noteq> Panic p"
proof (cases "tag = ''''")
  case True
  then show ?thesis
    by (cases v) (auto simp: read_field_def gbind_Panic_iff split: prod.splits)
next
  case tagged: False
  show ?thesis
  proof (cases "map_of converterMap tag")
    case None
    then show ?thesis using tagged by (simp add: read_field_def ReadTaggedField_def)
  next
    case (Some c)
    then consider "c = flagConverter" | "c = successConverter" | "tag = ''statusBytes''"
      | "tag = ''panelButtonModes''" | "tag = ''remark''" | "tag = ''templist''"
      | "tag = ''sensorTemp''"
      using assms(2) by (auto simp: converterMap_def split: if_splits)
    then show ?thesis
    proof cases
      case 1
      then show ?thesis using Some tagged
        by (simp add: read_field_def ReadTaggedField_def flagConverter_def uint8MapConverter_no_panic)
    next
      case 2
      then show ?thesis using Some tagged
        by (simp add: read_field_def ReadTaggedField_def successConverter_def uint8MapConverter_no_panic)
    next
      case 3
      then show ?thesis
        by (auto simp: read_field_def ReadTaggedField_def ReadStatusBytesField_def gbind_Panic_iff
            split: prod.splits if_splits)
    next
      case 4
      then obtain vs where "v = VArray vs"
        using assms(1) by (auto simp: slot_ok_def is_array16_def split: field_value.splits)
      with 4 show ?thesis
        by (auto simp: read_field_def ReadTaggedField_def arrayConverter_def gbind_Panic_iff
            uint8NameListConverter_def array_read_no_panic uint8MapConverter_no_panic
            split: prod.splits)
    next
      case 5
      then show ?thesis
        by (simp add: read_field_def ReadTaggedField_def ReadRemarkField_def split: prod.splits)
    next
      case 6
      then show ?thesis
        by (simp add: read_field_def ReadTaggedField_def ReadTemperatureListField_def
            split: prod.splits)
    next
      case 7
      then show ?thesis
        by (simp add: read_field_def ReadTaggedField_def sensorTempConverter_def
            uint8converter_no_panic)
    qed
  qed
qed

lemma gmap_status_PanicD: "gmap (status_bit bs) is = Panic p \<Longrightarrow> p = IndexOutOfRange"
  by (induction "is") (auto simp: gbind_Panic_iff status_bit_def split: if_splits)

lemma channel_status_PanicD: "ReadChannelStatusField bs v = Panic p \<Longrightarrow> p = IndexOutOfRange"
  by (auto simp: ReadChannelStatusField_def gbind_Panic_iff gmap_status_PanicD
      split: go_result.splits if_splits)

lemma read_field_PanicD:
  assumes "slot_ok (tag, v)" and "read_field bs v tag = Panic p"
  shows "tag = ''channelStatus'' \<and> p = IndexOutOfRange"
proof (cases "tag = ''channelStatus''")
  case True
  with assms(2) show ?thesis
    by (auto simp: read_field_def ReadTaggedField_def dest: channel_status_PanicD)
next
  case False
  with assms read_field_no_panic [of tag v bs p] show ?thesis by simp
qed

lemma parse_fields_PanicD:
  assumes "list_all slot_ok fs" and "parse_fields bs fs = Panic p"
  shows "''channelStatus'' \<in> fst ` set fs \<and> p = IndexOutOfRange"
  using assms
proof (induction bs fs rule: parse_fields.induct)
  case (1 bs)
  then show ?case by simp
next
  case (2 bs tag v fs)
  from "2.prems"(2) consider "read_field bs v tag = Panic p"
    | v' bs' where "read_field bs v tag = Ok (v', bs')" "parse_fields bs' fs = Panic p"
    by (auto simp: gbind_Panic_iff split: prod.splits)
  then show ?case
  proof cases
    case 1
    with "2.prems"(1) show ?thesis by (auto dest: read_field_PanicD)
  next
    case (2 v' bs')
    with "2.IH" "2.prems"(1) show ?thesis by auto
  qed
qed


section \<open>A reader keeps the type of its field\<close>

text \<open>
  \<open>slot_typed\<close>: the tag of a field fits its Go type. \<open>has_type z v\<close>: \<open>v\<close> is a value of
  the type of the field whose value was \<open>z\<close>.
\<close>

fun is_string :: "field_value \<Rightarrow> bool" where
  "is_string (VString _) = True"
| "is_string _ = False"

definition slot_typed :: "field \<Rightarrow> bool" where
  "slot_typed f =
     (case f of (tag, v) \<Rightarrow>
        (case v of
           VUint8 _ \<Rightarrow> tag = ''''
         | VUint16 _ \<Rightarrow> tag = ''''
         | VByteArray _ \<Rightarrow> tag = ''''
         | VBool _ \<Rightarrow> tag = ''flag'' \<or> tag = ''success''
         | VInt _ \<Rightarrow> tag = ''sensorTemp''
         | VString _ \<Rightarrow> False
         | VBools _ \<Rightarrow> tag = ''channelStatus''
         | VUint8s _ \<Rightarrow> tag = ''statusBytes'' \<or> tag = ''remark''
         | VInt8s _ \<Rightarrow> tag = ''templist''
         | VArray vs \<Rightarrow> tag = ''panelButtonModes'' \<and> list_all is_string vs))"

definition has_type :: "field_value \<Rightarrow> field_value \<Rightarrow> bool" where
  "has_type z v =
     (case z of
        VUint8 _ \<Rightarrow> (\<exists>x. v = VUint8 x)
      | VUint16 _ \<Rightarrow> (\<exists>x. v = VUint16 x)
      | VByteArray _ \<Rightarrow> (\<exists>x. v = VByteArray x)
      | VBool _ \<Rightarrow> (\<exists>x. v = VBool x)
      | VInt _ \<Rightarrow> (\<exists>x. v = VInt x)
      | VString _ \<Rightarrow> (\<exists>x. v = VString x)
      | VBools _ \<Rightarrow> (\<exists>x. v = VBools x)
      | VUint8s _ \<Rightarrow> (\<exists>x. v = VUint8s x)
      | VInt8s _ \<Rightarrow> (\<exists>x. v = VInt8s x)
      | VArray _ \<Rightarrow> (\<exists>xs. v = VArray xs \<and> list_all is_string xs))"

lemma map_read_value:
  assumes "conv_read (uint8MapConverter m) bs z = Ok (v, rest)"
  shows "v = z \<or> v \<in> snd ` set m"
proof -
  obtain b bs' where b: "read_u8 bs = Ok (b, bs')"
    using assms by (auto simp: uint8MapConverter_def uint8converter_def gbind_Ok_iff)
  show ?thesis
  proof (cases "map_of m b")
    case None
    with assms b show ?thesis by (simp add: uint8MapConverter_def uint8converter_def)
  next
    case (Some x)
    then have "x \<in> snd ` set m" by (auto dest!: map_of_SomeD intro: rev_image_eqI)
    with assms b Some show ?thesis by (simp add: uint8MapConverter_def uint8converter_def)
  qed
qed

lemma name_read_string:
  assumes "conv_read (uint8NameListConverter names) bs z = Ok (v, rest)" and "is_string z"
  shows "is_string v"
proof -
  have "snd ` set (fold (\<lambda>(i, v). AList.update (word_of_nat i) (VString v)) xs acc)
      \<subseteq> snd ` set acc \<union> range VString" for xs :: "(nat \<times> string) list" and acc :: "(byte \<times> field_value) list"
  proof (induction xs arbitrary: acc)
    case (Cons x xs)
    have "snd ` set (AList.update k (VString w) al) \<subseteq> snd ` set al \<union> range VString"
      for k :: byte and w al
      by (induction al) auto
    note upd = this
    obtain i w where x: "x = (i, w)" by force
    show ?case
      using Cons.IH [of "AList.update (word_of_nat i) (VString w) acc"]
        upd [of "word_of_nat i" w acc]
      unfolding x by (simp, blast)
  qed simp
  from map_read_value [OF assms(1) [unfolded uint8NameListConverter_def]] this [of "enumerate 0 names" "[]"]
  show ?thesis using assms(2) by auto
qed

lemma array_read_strings:
  assumes "array_read (conv_read (uint8NameListConverter names)) bs zs = Ok (vs, rest)"
    and "list_all is_string zs"
  shows "list_all is_string vs"
  using assms
proof (induction zs arbitrary: bs vs rest)
  case Nil
  then show ?case by simp
next
  case (Cons z zs)
  then show ?case
    by (auto simp: gbind_Ok_iff split: prod.splits dest: name_read_string)
qed

lemma read_field_type:
  assumes "slot_typed (tag, z)" and "read_field bs z tag = Ok (v, rest)"
  shows "has_type z v"
proof (cases z)
  case (VBool b)
  with assms have "v = z \<or> v \<in> {VBool True, VBool False}"
    by (auto simp: slot_typed_def read_field_def ReadTaggedField_def flagConverter_def
        successConverter_def dest!: map_read_value)
  with VBool show ?thesis by (auto simp: has_type_def)
next
  case (VArray zs)
  with assms show ?thesis
    by (auto simp: slot_typed_def has_type_def read_field_def ReadTaggedField_def arrayConverter_def
        gbind_Ok_iff dest: array_read_strings)
next
  case (VInt t)
  with assms show ?thesis
    by (auto simp: slot_typed_def has_type_def read_field_def ReadTaggedField_def
        sensorTempConverter_def uint8converter_def gbind_Ok_iff)
next
  case (VBools st)
  with assms show ?thesis
    by (auto simp: slot_typed_def has_type_def read_field_def ReadTaggedField_def
        ReadChannelStatusField_def gbind_Ok_iff split: go_result.splits if_splits)
next
  case (VUint8s st)
  with assms show ?thesis
    by (auto simp: slot_typed_def has_type_def read_field_def ReadTaggedField_def
        ReadStatusBytesField_def ReadRemarkField_def gbind_Ok_iff split: prod.splits if_splits)
next
  case (VInt8s st)
  with assms show ?thesis
    by (auto simp: slot_typed_def has_type_def read_field_def ReadTaggedField_def
        ReadTemperatureListField_def split: prod.splits)
qed (use assms in \<open>auto simp: slot_typed_def has_type_def read_field_def gbind_Ok_iff\<close>)

lemma parse_fields_type:
  assumes "list_all slot_typed fs" and "parse_fields bs fs = Ok (vs, rest)"
  shows "list_all2 has_type (map snd fs) vs"
  using assms
proof (induction fs arbitrary: bs vs rest)
  case Nil
  then show ?case by simp
next
  case (Cons f fs)
  obtain tag z where f: "f = (tag, z)" by force
  with Cons.prems obtain v bs' vs' where "read_field bs z tag = Ok (v, bs')"
    "parse_fields bs' fs = Ok (vs', rest)" "vs = v # vs'"
    by (auto simp: gbind_Ok_iff)
  with Cons f show ?case
    by (auto dest: read_field_type)
qed


section \<open>Properties\<close>

text \<open>
  Reading a channel status field panics exactly when its count byte is 249 or more: the
  byte count is computed as \<^verbatim>\<open>(n+7)/8\<close> in eight bits and wraps to zero.
\<close>

theorem channel_status_panics_iff:
  "(\<exists>p. ReadChannelStatusField bs v = Panic p) \<longleftrightarrow> bs \<noteq> [] \<and> 249 \<le> hd bs"
  by (rule channel_status_Panic_iff)

end
