(* ===== verification/Messages.thy ===== *)
theory Messages
  imports FieldSafety
begin

text \<open>
  The message types, \<^verbatim>\<open>smartbus/messages.go\<close>, and their registration,
  \<^verbatim>\<open>smartbus/messageformat.go\<close>. \<open>message\<close> has one constructor per struct, its arguments the
  struct's fields in order; \<open>struct_fields\<close> and \<open>set_fields\<close> are the view of a struct that
  \<^verbatim>\<open>reflect\<close> gives the codec. \<open>recognizedMessages\<close> is the table the \<^verbatim>\<open>init\<close> function
  fills: opcode to parser.
\<close>

section \<open>Message structs\<close>

definition LIGHT_LEVEL_OFF :: byte where "LIGHT_LEVEL_OFF = 0"
definition LIGHT_LEVEL_ON :: byte where "LIGHT_LEVEL_ON = 100"
definition PANEL_BUTTON_COUNT :: nat where "PANEL_BUTTON_COUNT = 16"

definition QUERY_MODULES_DEV_DIMMER :: byte where "QUERY_MODULES_DEV_DIMMER = 0x01"
definition QUERY_MODULES_DEV_RELAY :: byte where "QUERY_MODULES_DEV_RELAY = 0x02"
definition QUERY_MODULES_DEV_HVAC :: byte where "QUERY_MODULES_DEV_HVAC = 0x03"
definition QUERY_MODULES_DEV_SENSORS :: byte where "QUERY_MODULES_DEV_SENSORS = 0x04"
definition QUERY_MODULES_DEV_Z_AUDIO :: byte where "QUERY_MODULES_DEV_Z_AUDIO = 0x05"

definition BUTTON_COMMAND_INVALID :: byte where "BUTTON_COMMAND_INVALID = 0x00"
definition BUTTON_COMMAND_SINGLE_CHANNEL_LIGHTING_CONTROL :: byte where
  "BUTTON_COMMAND_SINGLE_CHANNEL_LIGHTING_CONTROL = 0x59"

lemmas message_consts =
  LIGHT_LEVEL_OFF_def LIGHT_LEVEL_ON_def PANEL_BUTTON_COUNT_def
  QUERY_MODULES_DEV_DIMMER_def QUERY_MODULES_DEV_RELAY_def QUERY_MODULES_DEV_HVAC_def
  QUERY_MODULES_DEV_SENSORS_def QUERY_MODULES_DEV_Z_AUDIO_def
  BUTTON_COMMAND_INVALID_def BUTTON_COMMAND_SINGLE_CHANNEL_LIGHTING_CONTROL_def

datatype message =
    SingleChannelControlCommand (ChannelNo: byte) (Level: byte) (Duration: u16)
  | SingleChannelControlResponse (ChannelNo: byte) (Success: bool) (Level: byte)
      (ChannelStatus: "bool list")
  | SceneControl (ZoneNo: byte) (SceneNo: byte)
  | SceneControlResponse (ZoneNo: byte) (SceneNo: byte) (ChannelStatus: "bool list")
  | ZoneBeastBroadcast (ZoneStatus: "byte list") (ChannelStatus: "bool list")
  | QueryModules
  | QueryModulesResponse (ControlledDeviceSubnetID: byte) (ControlledDeviceID: byte)
      (DeviceCategory: byte) (ChannelNo: byte) (HVACSubnetID: byte) (HVACDeviceID: byte)
  | PanelControlResponse (PanelType: byte) (PanelValue: byte)
  | QueryChannelStatuses (StatusIndex: byte)
  | QueryChannelStatusesResponse (ChannelStatusBytes: "byte list")
  | QueryPanelButtonAssignment (ButtonNo: byte) (FunctionNo: byte)
  | QueryPanelButtonAssignmentResponse (ButtonNo: byte) (FunctionNo: byte) (Command: byte)
      (CommandSubnetID: byte) (CommandDeviceID: byte) (ChannelNo: byte) (Level: byte)
      (Duration: u16)
  | AssignPanelButton (ButtonNo: byte) (FunctionNo: byte) (Command: byte)
      (CommandSubnetID: byte) (CommandDeviceID: byte) (ChannelNo: byte) (Level: byte)
      (Duration: u16) (Unknown: byte)
  | AssignPanelButtonResponse (ButtonNo: byte) (FunctionNo: byte)
  | SetPanelButtonModes (Modes: "string list")
  | SetPanelButtonModesResponse (Success: bool)
  | ReadMACAddress
  | ReadMACAddressResponse (MAC: "byte list") (Remark: "byte list")
  | ReadTemperatureValues (UseCelsius: bool)
  | ReadTemperatureValuesResponse (UseCelsius: bool) (Temperatures: "byte list")
  | ReadSensorStatus
  | ReadSensorStatusResponse (Success: bool) (Temperature: int) (Illuminance: u16)
      (Movement: bool) (DryContact1: bool) (DryContact2: bool) (Reserved1: byte) (Reserved2: byte)
  | SensorStatusBroadcast (Temperature: int) (Illuminance: u16)
      (Movement: bool) (DryContact1: bool) (DryContact2: bool) (Reserved1: byte) (Reserved2: byte)

fun Opcode :: "message \<Rightarrow> u16" where
  "Opcode (SingleChannelControlCommand _ _ _) = 0x0031"
| "Opcode (SingleChannelControlResponse _ _ _ _) = 0x0032"
| "Opcode (SceneControl _ _) = 0x0002"
| "Opcode (SceneControlResponse _ _ _) = 0x0003"
| "Opcode (ZoneBeastBroadcast _ _) = 0xefff"
| "Opcode QueryModules = 0x286"
| "Opcode (QueryModulesResponse _ _ _ _ _ _) = 0x287"
| "Opcode (PanelControlResponse _ _) = 0xe3d9"
| "Opcode (QueryChannelStatuses _) = 0x0033"
| "Opcode (QueryChannelStatusesResponse _) = 0x0034"
| "Opcode (QueryPanelButtonAssignment _ _) = 0xe000"
| "Opcode (QueryPanelButtonAssignmentResponse _ _ _ _ _ _ _ _) = 0xe001"
| "Opcode (AssignPanelButton _ _ _ _ _ _ _ _ _) = 0xe002"
| "Opcode (AssignPanelButtonResponse _ _) = 0xe003"
| "Opcode (SetPanelButtonModes _) = 0xe00a"
| "Opcode (SetPanelButtonModesResponse _) = 0xe00b"
| "Opcode ReadMACAddress = 0xf003"
| "Opcode (ReadMACAddressResponse _ _) = 0xf004"
| "Opcode (ReadTemperatureValues _) = 0xe3e7"
| "Opcode (ReadTemperatureValuesResponse _ _) = 0xe3e8"
| "Opcode ReadSensorStatus = 0x1645"
| "Opcode (ReadSensorStatusResponse _ _ _ _ _ _ _ _) = 0x1646"
| "Opcode (SensorStatusBroadcast _ _ _ _ _ _ _) = 0x1647"


section \<open>The reflection view\<close>

fun struct_fields :: "message \<Rightarrow> field list" where
  "struct_fields (SingleChannelControlCommand c l d) =
     [('''', VUint8 c), ('''', VUint8 l), ('''', VUint16 d)]"
| "struct_fields (SingleChannelControlResponse c s l st) =
     [('''', VUint8 c), (''success'', VBool s), ('''', VUint8 l), (''channelStatus'', VBools st)]"
| "struct_fields (SceneControl z s) = [('''', VUint8 z), ('''', VUint8 s)]"
| "struct_fields (SceneControlResponse z s st) =
     [('''', VUint8 z), ('''', VUint8 s), (''channelStatus'', VBools st)]"
| "struct_fields (ZoneBeastBroadcast zs st) =
     [(''statusBytes'', VUint8s zs), (''channelStatus'', VBools st)]"
| "struct_fields QueryModules = []"
| "struct_fields (QueryModulesResponse s d cat ch hs hv) =
     [('''', VUint8 s), ('''', VUint8 d), ('''', VUint8 cat), ('''', VUint8 ch),
      ('''', VUint8 hs), ('''', VUint8 hv)]"
| "struct_fields (PanelControlResponse t v) = [('''', VUint8 t), ('''', VUint8 v)]"
| "struct_fields (QueryChannelStatuses i) = [('''', VUint8 i)]"
| "struct_fields (QueryChannelStatusesResponse st) = [(''statusBytes'', VUint8s st)]"
| "struct_fields (QueryPanelButtonAssignment b f) = [('''', VUint8 b), ('''', VUint8 f)]"
| "struct_fields (QueryPanelButtonAssignmentResponse b f c s d ch l du) =
     [('''', VUint8 b), ('''', VUint8 f), ('''', VUint8 c), ('''', VUint8 s), ('''', VUint8 d),
      ('''', VUint8 ch), ('''', VUint8 l), ('''', VUint16 du)]"
| "struct_fields (AssignPanelButton b f c s d ch l du u) =
     [('''', VUint8 b), ('''', VUint8 f), ('''', VUint8 c), ('''', VUint8 s), ('''', VUint8 d),
      ('''', VUint8 ch), ('''', VUint8 l), ('''', VUint16 du), ('''', VUint8 u)]"
| "struct_fields (AssignPanelButtonResponse b f) = [('''', VUint8 b), ('''', VUint8 f)]"
| "struct_fields (SetPanelButtonModes ms) = [(''panelButtonModes'', VArray (map VString ms))]"
| "struct_fields (SetPanelButtonModesResponse s) = [(''success'', VBool s)]"
| "struct_fields ReadMACAddress = []"
| "struct_fields (ReadMACAddressResponse mac r) = [('''', VByteArray mac), (''remark'', VUint8s r)]"
| "struct_fields (ReadTemperatureValues c) = [(''flag'', VBool c)]"
| "struct_fields (ReadTemperatureValuesResponse c ts) = [(''flag'', VBool c), (''templist'', VInt8s ts)]"
| "struct_fields ReadSensorStatus = []"
| "struct_fields (ReadSensorStatusResponse s t i m d1 d2 r1 r2) =
     [(''success'', VBool s), (''sensorTemp'', VInt t), ('''', VUint16 i), (''flag'', VBool m),
      (''flag'', VBool d1), (''flag'', VBool d2), ('''', VUint8 r1), ('''', VUint8 r2)]"
| "struct_fields (SensorStatusBroadcast t i m d1 d2 r1 r2) =
     [(''sensorTemp'', VInt t), ('''', VUint16 i), (''flag'', VBool m),
      (''flag'', VBool d1), (''flag'', VBool d2), ('''', VUint8 r1), ('''', VUint8 r2)]"

fun the_string :: "field_value \<Rightarrow> string option" where
  "the_string (VString s) = Some s"
| "the_string _ = None"

text \<open>
  \<open>set_fields m vs\<close> is the struct of the type of \<open>m\<close> with its fields set to \<open>vs\<close>;
  \<open>None\<close> where a value has not the field's type, which \<^verbatim>\<open>Value.Set\<close> answers with a panic.
\<close>

definition set_fields :: "message \<Rightarrow> field_value list \<Rightarrow> message option" where
  "set_fields m vs =
     (case m of
        SingleChannelControlCommand _ _ _ \<Rightarrow>
          (case vs of [VUint8 c, VUint8 l, VUint16 d] \<Rightarrow>
             Some (SingleChannelControlCommand c l d)
           | _ \<Rightarrow> None)
      | SingleChannelControlResponse _ _ _ _ \<Rightarrow>
          (case vs of [VUint8 c, VBool s, VUint8 l, VBools st] \<Rightarrow>
             Some (SingleChannelControlResponse c s l st)
           | _ \<Rightarrow> None)
      | SceneControl _ _ \<Rightarrow>
          (case vs of [VUint8 z, VUint8 s] \<Rightarrow>
             Some (SceneControl z s)
           | _ \<Rightarrow> None)
      | SceneControlResponse _ _ _ \<Rightarrow>
          (case vs of [VUint8 z, VUint8 s, VBools st] \<Rightarrow>
             Some (SceneControlResponse z s st)
           | _ \<Rightarrow> None)
      | ZoneBeastBroadcast _ _ \<Rightarrow>
          (case vs of [VUint8s zs, VBools st] \<Rightarrow>
             Some (ZoneBeastBroadcast zs st)
           | _ \<Rightarrow> None)
      | QueryModules \<Rightarrow>
          (case vs of [] \<Rightarrow>
             Some QueryModules
           | _ \<Rightarrow> None)
      | QueryModulesResponse _ _ _ _ _ _ \<Rightarrow>
          (case vs of [VUint8 s, VUint8 d, VUint8 cat, VUint8 ch, VUint8 hs, VUint8 hv] \<Rightarrow>
             Some (QueryModulesResponse s d cat ch hs hv)
           | _ \<Rightarrow> None)
      | PanelControlResponse _ _ \<Rightarrow>
          (case vs of [VUint8 t, VUint8 v] \<Rightarrow>
             Some (PanelControlResponse t v)
           | _ \<Rightarrow> None)
      | QueryChannelStatuses _ \<Rightarrow>
          (case vs of [VUint8 i] \<Rightarrow>
             Some (QueryChannelStatuses i)
           | _ \<Rightarrow> None)
      | QueryChannelStatusesResponse _ \<Rightarrow>
          (case vs of [VUint8s st] \<Rightarrow>
             Some (QueryChannelStatusesResponse st)
           | _ \<Rightarrow> None)
      | QueryPanelButtonAssignment _ _ \<Rightarrow>
          (case vs of [VUint8 b, VUint8 f] \<Rightarrow>
             Some (QueryPanelButtonAssignment b f)
           | _ \<Rightarrow> None)
      | QueryPanelButtonAssignmentResponse _ _ _ _ _ _ _ _ \<Rightarrow>
          (case vs of [VUint8 b, VUint8 f, VUint8 c, VUint8 s, VUint8 d, VUint8 ch, VUint8 l, VUint16 du] \<Rightarrow>
             Some (QueryPanelButtonAssignmentResponse b f c s d ch l du)
           | _ \<Rightarrow> None)
      | AssignPanelButton _ _ _ _ _ _ _ _ _ \<Rightarrow>
          (case vs of [VUint8 b, VUint8 f, VUint8 c, VUint8 s, VUint8 d, VUint8 ch, VUint8 l, VUint16 du, VUint8 u] \<Rightarrow>
             Some (AssignPanelButton b f c s d ch l du u)
           | _ \<Rightarrow> None)
      | AssignPanelButtonResponse _ _ \<Rightarrow>
          (case vs of [VUint8 b, VUint8 f] \<Rightarrow>
             Some (AssignPanelButtonResponse b f)
           | _ \<Rightarrow> None)
      | SetPanelButtonModes _ \<Rightarrow>
          (case vs of [VArray vs] \<Rightarrow>
             map_option SetPanelButtonModes (those (map the_string vs))
           | _ \<Rightarrow> None)
      | SetPanelButtonModesResponse _ \<Rightarrow>
          (case vs of [VBool s] \<Rightarrow>
             Some (SetPanelButtonModesResponse s)
           | _ \<Rightarrow> None)
      | ReadMACAddress \<Rightarrow>
          (case vs of [] \<Rightarrow>
             Some ReadMACAddress
           | _ \<Rightarrow> None)
      | ReadMACAddressResponse _ _ \<Rightarrow>
          (case vs of [VByteArray mac, VUint8s r] \<Rightarrow>
             Some (ReadMACAddressResponse mac r)
           | _ \<Rightarrow> None)
      | ReadTemperatureValues _ \<Rightarrow>
          (case vs of [VBool c] \<Rightarrow>
             Some (ReadTemperatureValues c)
           | _ \<Rightarrow> None)
      | ReadTemperatureValuesResponse _ _ \<Rightarrow>
          (case vs of [VBool c, VInt8s ts] \<Rightarrow>
             Some (ReadTemperatureValuesResponse c ts)
           | _ \<Rightarrow> None)
      | ReadSensorStatus \<Rightarrow>
          (case vs of [] \<Rightarrow>
             Some ReadSensorStatus
           | _ \<Rightarrow> None)
      | ReadSensorStatusResponse _ _ _ _ _ _ _ _ \<Rightarrow>
          (case vs of [VBool s, VInt t, VUint16 i, VBool m, VBool d1, VBool d2, VUint8 r1, VUint8 r2] \<Rightarrow>
             Some (ReadSensorStatusResponse s t i m d1 d2 r1 r2)
           | _ \<Rightarrow> None)
      | SensorStatusBroadcast _ _ _ _ _ _ _ \<Rightarrow>
          (case vs of [VInt t, VUint16 i, VBool m, VBool d1, VBool d2, VUint8 r1, VUint8 r2] \<Rightarrow>
             Some (SensorStatusBroadcast t i m d1 d2 r1 r2)
           | _ \<Rightarrow> None))"


section \<open>QueryModulesResponse and its raw form\<close>

record QueryModulesResponseRaw =
  Raw_ControlledDeviceSubnetID :: byte
  Raw_ControlledDeviceID :: byte
  Raw_DeviceCategory :: byte
  Param1 :: byte
  Param2 :: byte
  Param3 :: byte
  Param4 :: byte

definition raw_fields :: "QueryModulesResponseRaw \<Rightarrow> field list" where
  "raw_fields r =
     [('''', VUint8 (Raw_ControlledDeviceSubnetID r)), ('''', VUint8 (Raw_ControlledDeviceID r)),
      ('''', VUint8 (Raw_DeviceCategory r)), ('''', VUint8 (Param1 r)), ('''', VUint8 (Param2 r)),
      ('''', VUint8 (Param3 r)), ('''', VUint8 (Param4 r))]"

definition raw_zero :: QueryModulesResponseRaw where
  "raw_zero = \<lparr>Raw_ControlledDeviceSubnetID = 0, Raw_ControlledDeviceID = 0,
     Raw_DeviceCategory = 0, Param1 = 0, Param2 = 0, Param3 = 0, Param4 = 0\<rparr>"

definition raw_set_fields :: "field_value list \<Rightarrow> QueryModulesResponseRaw option" where
  "raw_set_fields vs =
     (case vs of
        [VUint8 s, VUint8 d, VUint8 cat, VUint8 p1, VUint8 p2, VUint8 p3, VUint8 p4] \<Rightarrow>
          Some \<lparr>Raw_ControlledDeviceSubnetID = s, Raw_ControlledDeviceID = d,
            Raw_DeviceCategory = cat, Param1 = p1, Param2 = p2, Param3 = p3, Param4 = p4\<rparr>
      | _ \<Rightarrow> None)"

text \<open>The receiver of \<^verbatim>\<open>FromRaw\<close> is a fresh struct, so the fields it does not set stay 0.\<close>

definition FromRaw :: "QueryModulesResponseRaw go_result \<Rightarrow> message go_result" where
  "FromRaw parseRaw =
     gbind parseRaw (\<lambda>raw.
       let s = Raw_ControlledDeviceSubnetID raw; d = Raw_ControlledDeviceID raw;
           cat = Raw_DeviceCategory raw
       in if cat = QUERY_MODULES_DEV_DIMMER \<or> cat = QUERY_MODULES_DEV_RELAY then
            Ok (QueryModulesResponse s d cat (Param1 raw) 0 0)
          else if cat = QUERY_MODULES_DEV_HVAC then
            Ok (QueryModulesResponse s d cat 0 (Param1 raw) (Param2 raw))
          else if cat = QUERY_MODULES_DEV_SENSORS \<or> cat = QUERY_MODULES_DEV_Z_AUDIO then
            Ok (QueryModulesResponse s d cat 0 0 0)
          else Err (ErrOther ''bad flag QueryModulesResponse DeviceCategory field''))"

definition ToRaw :: "byte \<Rightarrow> byte \<Rightarrow> byte \<Rightarrow> byte \<Rightarrow> byte \<Rightarrow> byte \<Rightarrow> QueryModulesResponseRaw go_result" where
  "ToRaw s d cat ch hs hv =
     (let raw = raw_zero\<lparr>Raw_ControlledDeviceSubnetID := s, Raw_ControlledDeviceID := d,
            Raw_DeviceCategory := cat\<rparr>
      in if cat = QUERY_MODULES_DEV_DIMMER \<or> cat = QUERY_MODULES_DEV_RELAY then
           Ok (raw\<lparr>Param1 := ch, Param2 := 0x64\<rparr>)
         else if cat = QUERY_MODULES_DEV_HVAC then
           Ok (raw\<lparr>Param1 := hs, Param2 := hv\<rparr>)
         else Err (ErrOther ''bad device category''))"


section \<open>Parsers and their registration\<close>

text \<open>A packet parser holds the constructor of its message type: a fresh, zero struct.\<close>

datatype PacketParser = SimpleParser message | PreprocessedParser message

definition MakeSimplePacketParser :: "message \<Rightarrow> byte list \<Rightarrow> message go_result" where
  "MakeSimplePacketParser fresh bs =
     gbind (ParseMessage bs (Ptr (struct_fields fresh))) (\<lambda>(vs, rest).
       case set_fields fresh vs of Some msg \<Rightarrow> Ok msg | None \<Rightarrow> Panic TypeAssertion)"

definition MakePreprocessedPacketParser :: "message \<Rightarrow> byte list \<Rightarrow> message go_result" where
  "MakePreprocessedPacketParser fresh bs =
     FromRaw (gbind (ParseMessage bs (Ptr (raw_fields raw_zero))) (\<lambda>(vs, rest).
       case raw_set_fields vs of Some raw \<Rightarrow> Ok raw | None \<Rightarrow> Panic TypeAssertion))"

primrec run_parser :: "PacketParser \<Rightarrow> byte list \<Rightarrow> message go_result" where
  "run_parser (SimpleParser fresh) bs = MakeSimplePacketParser fresh bs"
| "run_parser (PreprocessedParser fresh) bs = MakePreprocessedPacketParser fresh bs"

text \<open>The only type with \<^verbatim>\<open>FromRaw\<close> and \<^verbatim>\<open>ToRaw\<close> methods is \<open>QueryModulesResponse\<close>.\<close>

definition is_PreprocessedMessage :: "message \<Rightarrow> bool" where
  "is_PreprocessedMessage m =
     (case m of QueryModulesResponse _ _ _ _ _ _ \<Rightarrow> True | _ \<Rightarrow> False)"

definition RegisterMessage ::
    "message \<Rightarrow> (u16 \<times> PacketParser) list \<Rightarrow> (u16 \<times> PacketParser) list" where
  "RegisterMessage fresh recognized =
     AList.update (Opcode fresh)
       (if is_PreprocessedMessage fresh then PreprocessedParser fresh else SimpleParser fresh)
       recognized"

definition init_messages :: "message list" where
  "init_messages =
     [SingleChannelControlCommand 0 0 0,
      SingleChannelControlResponse 0 False 0 [],
      SceneControl 0 0,
      SceneControlResponse 0 0 [],
      ZoneBeastBroadcast [] [],
      QueryModules,
      QueryModulesResponse 0 0 0 0 0 0,
      PanelControlResponse 0 0,
      QueryChannelStatuses 0,
      QueryChannelStatusesResponse [],
      QueryPanelButtonAssignment 0 0,
      QueryPanelButtonAssignmentResponse 0 0 0 0 0 0 0 0,
      AssignPanelButton 0 0 0 0 0 0 0 0 0,
      AssignPanelButtonResponse 0 0,
      SetPanelButtonModes (replicate 16 ''''),
      SetPanelButtonModesResponse False,
      ReadMACAddress,
      ReadMACAddressResponse (replicate 8 0) [],
      ReadTemperatureValues False,
      ReadTemperatureValuesResponse False [],
      ReadSensorStatus,
      ReadSensorStatusResponse False 0 0 False False False 0 0,
      SensorStatusBroadcast 0 0 False False False 0 0]"

definition recognizedMessages :: "(u16 \<times> PacketParser) list" where
  "recognizedMessages = fold RegisterMessage init_messages []"

text \<open>What \<^verbatim>\<open>WriteFrame\<close> writes for a message and what \<^verbatim>\<open>ParseFrame\<close> reads for an opcode.\<close>

definition write_payload :: "message \<Rightarrow> byte list go_result" where
  "write_payload msg =
     (case msg of
        QueryModulesResponse s d cat ch hs hv \<Rightarrow>
          gbind (ToRaw s d cat ch hs hv) (\<lambda>raw. WriteMessage (Ptr (raw_fields raw)))
      | _ \<Rightarrow> WriteMessage (Ptr (struct_fields msg)))"

definition read_payload :: "u16 \<Rightarrow> byte list \<Rightarrow> message go_result" where
  "read_payload opcode bs =
     (case map_of recognizedMessages opcode of
        None \<Rightarrow> Err (ErrOther ''opcode not recognized'')
      | Some parser \<Rightarrow> run_parser parser bs)"


section \<open>Registration\<close>

lemma distinct_opcodes: "distinct (map Opcode init_messages)"
  by (simp add: init_messages_def)

lemma fold_RegisterMessage:
  assumes "distinct (map Opcode ms)" and "m \<in> set ms"
  shows "map_of (fold RegisterMessage ms acc) (Opcode m) =
     Some (if is_PreprocessedMessage m then PreprocessedParser m else SimpleParser m)"
  using assms
proof (induction ms arbitrary: acc rule: rev_induct)
  case Nil
  then show ?case by simp
next
  case (snoc x ms)
  then show ?case
    by (auto simp: RegisterMessage_def update_conv' image_iff)
qed

lemma recognizedMessages_lookup:
  "m \<in> set init_messages \<Longrightarrow> map_of recognizedMessages (Opcode m) =
     Some (if is_PreprocessedMessage m then PreprocessedParser m else SimpleParser m)"
  unfolding recognizedMessages_def by (rule fold_RegisterMessage [OF distinct_opcodes])

text \<open>The fresh struct registered for the type of a message.\<close>

definition fresh_of :: "message \<Rightarrow> message" where
  "fresh_of m = the (List.find (\<lambda>z. Opcode z = Opcode m) init_messages)"

lemma fresh_of_simps [simp]:
  "fresh_of m \<in> set init_messages \<and> Opcode (fresh_of m) = Opcode m
    \<and> is_PreprocessedMessage (fresh_of m) = is_PreprocessedMessage m"
  by (cases m) (simp_all add: fresh_of_def init_messages_def is_PreprocessedMessage_def)


section \<open>Round trip of messages\<close>

text \<open>
  \<open>message_ok\<close>: the field values a message can carry on the bus. \<open>canonical\<close>: the
  encoding of \<open>QueryModulesResponse\<close> carries only the fields its device category uses.
\<close>

fun message_ok :: "message \<Rightarrow> bool" where
  "message_ok (SingleChannelControlResponse _ _ _ st) = (length st \<le> 248)"
| "message_ok (SceneControlResponse _ _ st) = (length st \<le> 248)"
| "message_ok (ZoneBeastBroadcast zs st) = (length zs \<le> 255 \<and> length st \<le> 248)"
| "message_ok (QueryModulesResponse _ _ cat _ _ _) =
     (cat = QUERY_MODULES_DEV_DIMMER \<or> cat = QUERY_MODULES_DEV_RELAY \<or> cat = QUERY_MODULES_DEV_HVAC)"
| "message_ok (QueryChannelStatusesResponse st) = (length st \<le> 255)"
| "message_ok (SetPanelButtonModes ms) =
     (length ms = 16 \<and> list_all (\<lambda>n. n \<in> set panelButtonModeNames) ms)"
| "message_ok (ReadMACAddressResponse mac r) = (length mac = 8 \<and> length r < 64)"
| "message_ok (ReadTemperatureValuesResponse _ ts) = (length ts \<le> 8)"
| "message_ok (ReadSensorStatusResponse _ t _ _ _ _ _ _) = (- 20 \<le> t \<and> t \<le> 235)"
| "message_ok (SensorStatusBroadcast t _ _ _ _ _ _) = (- 20 \<le> t \<and> t \<le> 235)"
| "message_ok _ = True"

fun canonical :: "message \<Rightarrow> message" where
  "canonical (QueryModulesResponse s d cat ch hs hv) =
     (if cat = QUERY_MODULES_DEV_HVAC then QueryModulesResponse s d cat 0 hs hv
      else QueryModulesResponse s d cat ch 0 0)"
| "canonical m = m"

lemmas field_valid_defs =
  delimited_field_def trailing_field_def is_bool_value_def is_statusBytes_value_def
  is_modes_value_def is_mode_value_def is_sensorTemp_value_def is_channelStatus_value_def
  is_remark_value_def is_templist_value_def is_array16_def

lemma those_the_string [simp]: "those (map (the_string \<circ> VString) ms) = Some ms"
  by (induction ms) auto

lemma struct_fields_ok:
  assumes "message_ok m" and "\<not> is_PreprocessedMessage m"
  shows "struct_ok (struct_fields m)"
  using assms
  by (cases m) (simp_all add: field_valid_defs is_PreprocessedMessage_def list_all_iff)

lemma fresh_of_slots:
  assumes "message_ok m"
  shows "list_all2 same_slot (struct_fields (fresh_of m)) (struct_fields m)"
  using assms by (cases m) (simp_all add: fresh_of_def init_messages_def is_array16_def)

lemma fresh_of_set_fields: "set_fields (fresh_of m) (map snd (struct_fields m)) = Some m"
  by (cases m) (simp_all add: fresh_of_def init_messages_def set_fields_def)

lemma simple_round_trip:
  assumes "message_ok m" and "\<not> is_PreprocessedMessage m"
  shows "\<exists>bs. write_payload m = Ok bs \<and> read_payload (Opcode m) bs = Ok m"
proof -
  obtain bs where bs: "WriteMessage (Ptr (struct_fields m)) = Ok bs"
    "ParseMessage bs (Ptr (struct_fields (fresh_of m))) = Ok (map snd (struct_fields m), [])"
    using WriteMessage_ParseMessage [OF struct_fields_ok [OF assms] fresh_of_slots [OF assms(1)]]
    by auto
  have "write_payload m = WriteMessage (Ptr (struct_fields m))"
    using assms(2) by (cases m) (simp_all add: write_payload_def is_PreprocessedMessage_def)
  moreover have "read_payload (Opcode m) bs = MakeSimplePacketParser (fresh_of m) bs"
    using recognizedMessages_lookup [of "fresh_of m"] assms(2) by (simp add: read_payload_def)
  ultimately show ?thesis
    using bs by (simp add: MakeSimplePacketParser_def fresh_of_set_fields)
qed

lemma preprocessed_round_trip:
  assumes "message_ok (QueryModulesResponse s d cat ch hs hv)"
  defines "m \<equiv> QueryModulesResponse s d cat ch hs hv"
  shows "\<exists>bs. write_payload m = Ok bs \<and> read_payload (Opcode m) bs = Ok (canonical m)"
proof -
  obtain raw where raw: "ToRaw s d cat ch hs hv = Ok raw" "FromRaw (Ok raw) = Ok (canonical m)"
    using assms by (auto simp: m_def ToRaw_def FromRaw_def message_consts)
  have "struct_ok (raw_fields raw)" and "list_all2 same_slot (raw_fields raw_zero) (raw_fields raw)"
    by (simp_all add: raw_fields_def field_valid_defs)
  then obtain bs where bs: "WriteMessage (Ptr (raw_fields raw)) = Ok bs"
    "ParseMessage bs (Ptr (raw_fields raw_zero)) = Ok (map snd (raw_fields raw), [])"
    using WriteMessage_ParseMessage by blast
  have "raw_set_fields (map snd (raw_fields raw)) = Some raw"
    by (simp add: raw_set_fields_def raw_fields_def)
  then have "MakePreprocessedPacketParser (fresh_of m) bs = Ok (canonical m)"
    using bs raw by (simp add: MakePreprocessedPacketParser_def)
  moreover have "read_payload (Opcode m) bs = MakePreprocessedPacketParser (fresh_of m) bs"
    using recognizedMessages_lookup [of "fresh_of m"] fresh_of_simps [of m]
    by (simp add: read_payload_def m_def is_PreprocessedMessage_def)
  ultimately show ?thesis
    using bs raw by (simp add: write_payload_def m_def)
qed

lemma payload_round_trip:
  assumes "message_ok m"
  shows "\<exists>bs. write_payload m = Ok bs \<and> read_payload (Opcode m) bs = Ok (canonical m)"
proof (cases "is_PreprocessedMessage m")
  case True
  then obtain s d cat ch hs hv where "m = QueryModulesResponse s d cat ch hs hv"
    by (auto simp: is_PreprocessedMessage_def split: message.splits)
  with assms show ?thesis using preprocessed_round_trip by simp
next
  case False
  then have "canonical m = m"
    by (cases m) (simp_all add: is_PreprocessedMessage_def)
  with simple_round_trip [OF assms False] show ?thesis by simp
qed

lemma Opcode_canonical [simp]: "Opcode (canonical m) = Opcode m"
  by (cases m) simp_all

section \<open>Length of the encoding\<close>

lemma write_payload_fixed:
  "write_payload (SingleChannelControlCommand c l d) = Ok (c # l # be16 d)"
  "write_payload QueryModules = Ok []"
  "write_payload ReadMACAddress = Ok []"
  "write_payload ReadSensorStatus = Ok []"
  "write_payload (QueryPanelButtonAssignment b f) = Ok [b, f]"
  by (simp_all add: write_payload_def WriteMessage_def write_field_def)


section \<open>No panic\<close>

lemma init_slots:
  "m \<in> set init_messages \<Longrightarrow>
     list_all slot_ok (struct_fields m) \<and> list_all slot_typed (struct_fields m)"
  by (auto simp: init_messages_def slot_ok_def slot_typed_def is_array16_def list_all_iff)

lemma those_is_string: "list_all is_string vs \<Longrightarrow> \<exists>ms. those (map the_string vs) = Some ms"
proof (induction vs)
  case (Cons v vs)
  then show ?case by (cases v) auto
qed simp

lemma set_fields_typed:
  assumes "list_all2 has_type (map snd (struct_fields m)) vs"
  shows "\<exists>m'. set_fields m vs = Some m'"
  using assms
  by (cases m) (auto simp: has_type_def list_all2_Cons1 set_fields_def dest: those_is_string)

lemma raw_set_fields_typed:
  assumes "list_all2 has_type (map snd (raw_fields raw_zero)) vs"
  shows "\<exists>raw. raw_set_fields vs = Some raw"
  using assms by (auto simp: has_type_def list_all2_Cons1 raw_fields_def raw_set_fields_def)

lemma FromRaw_PanicD: "FromRaw r = Panic p \<Longrightarrow> r = Panic p"
  by (auto simp: FromRaw_def gbind_Panic_iff Let_def split: if_splits)

lemma simple_parser_PanicD:
  assumes "m \<in> set init_messages" and "MakeSimplePacketParser m bs = Panic p"
  shows "''channelStatus'' \<in> fst ` set (struct_fields m) \<and> p = IndexOutOfRange"
proof -
  have "parse_fields bs (struct_fields m) = Panic p"
    using assms(2) set_fields_typed [OF parse_fields_type] init_slots [OF assms(1)]
    by (fastforce simp: MakeSimplePacketParser_def ParseMessage_def gbind_Panic_iff
        split: option.splits)
  then show ?thesis
    using init_slots [OF assms(1)] by (blast dest: parse_fields_PanicD)
qed

lemma preprocessed_parser_no_panic: "MakePreprocessedPacketParser m bs \<noteq> Panic p"
proof
  assume "MakePreprocessedPacketParser m bs = Panic p"
  moreover have raw: "list_all slot_ok (raw_fields raw_zero)" "list_all slot_typed (raw_fields raw_zero)"
    by (simp_all add: raw_fields_def slot_ok_def slot_typed_def)
  ultimately have "parse_fields bs (raw_fields raw_zero) = Panic p"
    using raw_set_fields_typed [OF parse_fields_type [OF raw(2)]]
    by (fastforce simp: MakePreprocessedPacketParser_def ParseMessage_def gbind_Panic_iff
        split: option.splits dest!: FromRaw_PanicD)
  then show False
    using parse_fields_PanicD [OF raw(1)] by (auto simp: raw_fields_def)
qed

lemma recognizedMessages_range:
  assumes "map_of recognizedMessages op = Some parser"
  shows "\<exists>m \<in> set init_messages. Opcode m = op \<and>
     parser = (if is_PreprocessedMessage m then PreprocessedParser m else SimpleParser m)"
proof -
  have "map_of (fold RegisterMessage ms acc) op = Some parser \<Longrightarrow>
      map_of acc op = Some parser \<or> (\<exists>m \<in> set ms. Opcode m = op \<and>
        parser = (if is_PreprocessedMessage m then PreprocessedParser m else SimpleParser m))" for ms acc
  proof (induction ms arbitrary: acc)
    case (Cons m ms)
    from Cons.IH [of "RegisterMessage m acc"] Cons.prems show ?case
      by (auto simp: RegisterMessage_def update_conv' split: if_splits)
  qed simp
  from this [of init_messages "[]"] show ?thesis
    using assms by (simp add: recognizedMessages_def)
qed

lemma read_payload_PanicD:
  assumes "read_payload op bs = Panic p"
  shows "op \<in> {0x0032, 0x0003, 0xefff} \<and> p = IndexOutOfRange"
proof -
  obtain parser where parser: "map_of recognizedMessages op = Some parser" "run_parser parser bs = Panic p"
    using assms by (auto simp: read_payload_def split: option.splits)
  then obtain m where m: "m \<in> set init_messages" "Opcode m = op" "MakeSimplePacketParser m bs = Panic p"
    using recognizedMessages_range preprocessed_parser_no_panic by (fastforce split: if_splits)
  then have "''channelStatus'' \<in> fst ` set (struct_fields m)" and "p = IndexOutOfRange"
    using simple_parser_PanicD by blast+
  with m(2) show ?thesis by (cases m) auto
qed


section \<open>Properties\<close>

text \<open>
  (C5) Every message whose fields are in the range the bus can carry is encoded without error,
  and the parser registered for its opcode decodes those bytes to the same message (for
  \<^verbatim>\<open>QueryModulesResponse\<close>, to the message with the fields its category does not use cleared).
\<close>

theorem message_round_trip:
  assumes "message_ok m"
  shows "\<exists>bs. write_payload m = Ok bs \<and> read_payload (Opcode m) bs = Ok (canonical m)"
  by (rule payload_round_trip [OF assms])

theorem message_round_trip_witness:
  "\<exists>bs. write_payload (SingleChannelControlResponse 7 True 100 [True, False]) = Ok bs \<and>
     read_payload (Opcode (SingleChannelControlResponse 7 True 100 [True, False])) bs
       = Ok (canonical (SingleChannelControlResponse 7 True 100 [True, False]))"
  by (rule message_round_trip) simp

text \<open>
  Each message type is registered under its own opcode: no registration of the
  \<^verbatim>\<open>init\<close> function overwrites another, so a frame with the opcode of a type is parsed as that type.
\<close>

theorem registration_complete:
  "map_of recognizedMessages (Opcode m) =
     Some (if is_PreprocessedMessage m then PreprocessedParser (fresh_of m)
           else SimpleParser (fresh_of m))"
  using recognizedMessages_lookup [of "fresh_of m"] by simp

text \<open>
  Parsing the payload of a frame, whatever the opcode and the bytes, returns a message
  or an error; a panic is possible only for the three types with a channel status field, and
  then it is an index out of range.
\<close>

theorem read_payload_panic_only_channelStatus:
  assumes "read_payload op bs = Panic p"
  shows "op \<in> {0x0032, 0x0003, 0xefff} \<and> p = IndexOutOfRange"
  by (rule read_payload_PanicD [OF assms])

theorem read_payload_panic_only_channelStatus_witness:
  "read_payload 0xefff [0, 250] = Panic IndexOutOfRange \<and>
     (0xefff :: u16) \<in> {0x0032, 0x0003, 0xefff} \<and> IndexOutOfRange = IndexOutOfRange"
proof -
  have "ReadChannelStatusField [250] (VBools []) = Panic IndexOutOfRange"
    by (rule channel_status_panic_large) simp
  then have "MakeSimplePacketParser (ZoneBeastBroadcast [] []) [0, 250] = Panic IndexOutOfRange"
    by (simp add: MakeSimplePacketParser_def ParseMessage_def read_field_def ReadTaggedField_def
        ReadStatusBytesField_def)
  moreover have "ZoneBeastBroadcast [] [] \<in> set init_messages"
    by (simp add: init_messages_def)
  ultimately have p: "read_payload 0xefff [0, 250] = Panic IndexOutOfRange"
    using recognizedMessages_lookup [of "ZoneBeastBroadcast [] []"]
    by (simp add: read_payload_def is_PreprocessedMessage_def)
  with read_payload_panic_only_channelStatus [OF p] show ?thesis by simp
qed

text \<open>
  A \<^verbatim>\<open>QueryModulesResponse\<close> of category \<^verbatim>\<open>SENSORS\<close> or \<^verbatim>\<open>Z_AUDIO\<close> is accepted from the bus but
  cannot be written: \<^verbatim>\<open>ToRaw\<close> refuses the two categories that \<^verbatim>\<open>FromRaw\<close> accepts.
\<close>

theorem sensors_category_not_writable:
  assumes "cat = QUERY_MODULES_DEV_SENSORS \<or> cat = QUERY_MODULES_DEV_Z_AUDIO"
  shows "read_payload 0x287 [s, d, cat, p1, p2, p3, p4] = Ok (QueryModulesResponse s d cat 0 0 0) \<and>
     write_payload (QueryModulesResponse s d cat 0 0 0) = Err (ErrOther ''bad device category'')"
proof -
  have "QueryModulesResponse 0 0 0 0 0 0 \<in> set init_messages"
    by (simp add: init_messages_def)
  then have "read_payload 0x287 bs = MakePreprocessedPacketParser (QueryModulesResponse 0 0 0 0 0 0) bs"
    for bs
    using recognizedMessages_lookup [of "QueryModulesResponse 0 0 0 0 0 0"]
    by (simp add: read_payload_def is_PreprocessedMessage_def)
  with assms show ?thesis
    by (auto simp: MakePreprocessedPacketParser_def ParseMessage_def raw_fields_def read_field_def
        raw_set_fields_def FromRaw_def write_payload_def ToRaw_def message_consts)
qed

theorem sensors_category_not_writable_witness:
  "read_payload 0x287 [1, 2, 4, 0, 0, 0, 0] = Ok (QueryModulesResponse 1 2 4 0 0 0) \<and>
     write_payload (QueryModulesResponse 1 2 4 0 0 0) = Err (ErrOther ''bad device category'')"
  by (rule sensors_category_not_writable) (simp add: message_consts)

end
