(* ===== verification/Frame.thy ===== *)
theory Frame
  imports Crc16 Messages
begin

text \<open>
  Frames on the wire, \<^verbatim>\<open>smartbus/frame.go\<close>: the writer builds a frame around an encoded
  message; the reader finds the two synchronisation bytes in the incoming stream, reads a frame
  by its length byte, checks the CRC and hands the frame on.

  The stream a reader sees is a list of \<open>rd_event\<close>s: what successive one-byte reads return, a
  byte or an error. The end of the list means that nothing more has arrived yet, so the reader
  waits. How reads are cut into larger \<^verbatim>\<open>Read\<close> calls does not matter: the code reads through
  \<^verbatim>\<open>binary.Read\<close> and \<^verbatim>\<open>io.ReadFull\<close> only. \<open>tmo\<close> is \<^verbatim>\<open>isTimeout\<close> of the stream: the errors
  its \<^verbatim>\<open>TimeoutChecker\<close> recognises, none for a stream that is no \<^verbatim>\<open>TimeoutChecker\<close>.

  The \<open>bool\<close> the reader threads through is whether it holds the stream's mutex. Locking a
  \<^verbatim>\<open>sync.Mutex\<close> that the same goroutine holds blocks for ever.
\<close>

section \<open>Messages with their header\<close>

definition MIN_FRAME_SIZE :: byte where "MIN_FRAME_SIZE = 11"
definition BROADCAST_SUBNET :: byte where "BROADCAST_SUBNET = 0xff"
definition BROADCAST_DEVICE :: byte where "BROADCAST_DEVICE = 0xff"

record MessageHeader =
  OrigSubnetID :: byte
  OrigDeviceID :: byte
  OrigDeviceType :: u16
  HeaderOpcode :: u16
  TargetSubnetID :: byte
  TargetDeviceID :: byte

record SmartbusMessage =
  Header :: MessageHeader
  Message :: message

definition header_bytes :: "MessageHeader \<Rightarrow> byte list" where
  "header_bytes h =
     [OrigSubnetID h, OrigDeviceID h] @ be16 (OrigDeviceType h) @ be16 (HeaderOpcode h) @
     [TargetSubnetID h, TargetDeviceID h]"

definition read_header :: "byte list \<Rightarrow> (MessageHeader \<times> byte list) go_result" where
  "read_header bs =
     gbind (buf_ReadFull 8 bs) (\<lambda>(xs, rest).
       Ok (\<lparr>OrigSubnetID = xs ! 0, OrigDeviceID = xs ! 1, OrigDeviceType = Uint16 (xs ! 2) (xs ! 3),
            HeaderOpcode = Uint16 (xs ! 4) (xs ! 5), TargetSubnetID = xs ! 6,
            TargetDeviceID = xs ! 7\<rparr>, rest))"


section \<open>Writing\<close>

definition WritePreBuiltFrame :: "byte list \<Rightarrow> byte list" where
  "WritePreBuiltFrame frame = [0xaa, 0xaa] @ frame"

text \<open>The length byte counts itself, the header, the payload and the two CRC bytes, modulo 256.\<close>

definition WriteFrameRaw :: "MessageHeader \<Rightarrow> byte list go_result \<Rightarrow> byte list go_result" where
  "WriteFrameRaw header writeMsg =
     gbind writeMsg (\<lambda>payload.
       let buf = be16 0xaaaa @ [0] @ header_bytes header @ payload;
           bs = buf[2 := word_of_nat (length buf)]
       in gbind (crc16 (drop 2 bs)) (\<lambda>crc. Ok (bs @ be16 crc)))"

definition WriteFrame :: "SmartbusMessage \<Rightarrow> byte list go_result" where
  "WriteFrame fullMsg =
     (let msg = Message fullMsg; header = (Header fullMsg)\<lparr>HeaderOpcode := Opcode msg\<rparr>
      in WriteFrameRaw header
           (case write_payload msg of
              Err e \<Rightarrow> Panic (PanicMsg ''WriteMessage() failed'')
            | r \<Rightarrow> r))"

datatype out_item = OutMessage SmartbusMessage | OutRaw "byte list" | OutUnsupported

fun write_item :: "out_item \<Rightarrow> byte list go_result" where
  "write_item (OutMessage m) = WriteFrame m"
| "write_item (OutRaw frame) = Ok (WritePreBuiltFrame frame)"
| "write_item OutUnsupported = Panic (PanicMsg ''unsupported message object type'')"

text \<open>
  \<^verbatim>\<open>WriteSmartbus\<close> on the items received from its channel: the byte strings given to the
  stream, one per \<^verbatim>\<open>Write\<close> call, and the panic that stopped it, if any.
\<close>

fun WriteSmartbus :: "out_item list \<Rightarrow> byte list list \<times> go_panic option" where
  "WriteSmartbus [] = ([], None)"
| "WriteSmartbus (m # ms) =
     (case write_item m of
        Ok bs \<Rightarrow> (case WriteSmartbus ms of (ws, p) \<Rightarrow> (bs # ws, p))
      | Err e \<Rightarrow> ([], None)
      | Panic p \<Rightarrow> ([], Some p))"


section \<open>Reading\<close>

datatype rd_event = RByte byte | RFault go_error

datatype sync_result = Synced | SyncError go_error | SyncWaiting | SyncDeadlock

fun ReadSync :: "(go_error \<Rightarrow> bool) \<Rightarrow> bool \<Rightarrow> rd_event list \<Rightarrow>
    sync_result \<times> bool \<times> rd_event list" where
  "ReadSync tmo locked [] = (SyncWaiting, locked, [])"
| "ReadSync tmo locked (RFault e # es) =
     (if tmo e then ReadSync tmo locked es else (SyncError e, locked, es))"
| "ReadSync tmo locked (RByte b # es) =
     (if b \<noteq> 0xaa then ReadSync tmo locked es
      else if locked then (SyncDeadlock, True, es)
      else
        (case es of
           [] \<Rightarrow> (SyncWaiting, True, [])
         | RFault e # es' \<Rightarrow>
             if tmo e then ReadSync tmo True es' else (SyncError e, False, es')
         | RByte b' # es' \<Rightarrow>
             if b' = 0xaa then (Synced, True, es') else ReadSync tmo False es'))"

datatype full_read = Full "byte list" "rd_event list" | Failed go_error "rd_event list" | Starved

fun stream_ReadFull :: "nat \<Rightarrow> bool \<Rightarrow> rd_event list \<Rightarrow> full_read" where
  "stream_ReadFull 0 got es = Full [] es"
| "stream_ReadFull (Suc n) got [] = Starved"
| "stream_ReadFull (Suc n) got (RFault e # es) =
     Failed (if e = EOF \<and> got then ErrUnexpectedEOF else e) es"
| "stream_ReadFull (Suc n) got (RByte b # es) =
     (case stream_ReadFull n True es of Full bs es' \<Rightarrow> Full (b # bs) es' | r \<Rightarrow> r)"

text \<open>The frame or none, whether to go on reading, and what is left of the stream.\<close>

datatype frame_read = FrameRead "byte list option" bool "rd_event list" | FrameWaiting

definition ReadSmartbusFrame :: "(go_error \<Rightarrow> bool) \<Rightarrow> rd_event list \<Rightarrow> frame_read go_result" where
  "ReadSmartbusFrame tmo es =
     (case stream_ReadFull 1 False es of
        Starved \<Rightarrow> Ok FrameWaiting
      | Failed e es1 \<Rightarrow> Ok (FrameRead None (tmo e) es1)
      | Full ls es1 \<Rightarrow>
          let l = ls ! 0 in
          if l < MIN_FRAME_SIZE then Ok (FrameRead None True es1)
          else
            (case stream_ReadFull (unat l - 1) False es1 of
               Starved \<Rightarrow> Ok FrameWaiting
             | Failed e es2 \<Rightarrow> Ok (FrameRead None (tmo e) es2)
             | Full body es2 \<Rightarrow>
                 let frame = l # body; n = length frame in
                 gbind (crc16 (take (n - 2) frame)) (\<lambda>crc.
                   if crc \<noteq> Uint16 (frame ! (n - 2)) (frame ! (n - 1))
                   then Ok (FrameRead None True es2)
                   else Ok (FrameRead (Some frame) True es2))))"

definition ParseFrame :: "byte list \<Rightarrow> SmartbusMessage go_result" where
  "ParseFrame frame =
     (if length frame < 3 then Panic SliceBounds
      else
        gbind (read_header (take (length frame - 3) (drop 1 frame))) (\<lambda>(header, buf).
          gbind (read_payload (HeaderOpcode header) buf) (\<lambda>msg.
            Ok \<lparr>Header = header, Message = msg\<rparr>)))"

datatype raw_end =
    EndSyncError go_error   \<comment> \<open>\<^verbatim>\<open>ReadSync\<close> failed\<close>
  | EndFrameError           \<comment> \<open>reading a frame failed\<close>
  | EndWaiting              \<comment> \<open>waiting for the stream\<close>
  | EndDeadlock             \<comment> \<open>locking a mutex the reader holds\<close>
  | EndPanic go_panic

record raw_run =
  run_frames :: "byte list list"   \<comment> \<open>frames given to the handler, in order\<close>
  run_end :: raw_end
  run_locked :: bool

lemma ReadSync_length:
  "ReadSync tmo locked es = (r, locked', es') \<Longrightarrow>
     length es' \<le> length es \<and> (r = Synced \<longrightarrow> length es' < length es)"
  by (induction tmo locked es arbitrary: r locked' es' rule: ReadSync.induct)
     (fastforce split: if_splits list.splits rd_event.splits)+

lemma stream_ReadFull_length:
  "stream_ReadFull n got es = Full bs es' \<Longrightarrow> length es' \<le> length es"
  "stream_ReadFull n got es = Failed e es' \<Longrightarrow> length es' \<le> length es"
  by (induction n got es arbitrary: bs es' rule: stream_ReadFull.induct)
     (fastforce split: full_read.splits)+

lemma ReadSmartbusFrame_length:
  "ReadSmartbusFrame tmo es = Ok (FrameRead f c es') \<Longrightarrow> length es' \<le> length es"
  by (auto simp: ReadSmartbusFrame_def Let_def
      split: full_read.splits if_splits dest!: stream_ReadFull_length)

function ReadSmartbusRaw :: "(go_error \<Rightarrow> bool) \<Rightarrow> bool \<Rightarrow> rd_event list \<Rightarrow> raw_run" where
  "ReadSmartbusRaw tmo locked es =
     (case ReadSync tmo locked es of
        (SyncError e, locked', es') \<Rightarrow> \<lparr>run_frames = [], run_end = EndSyncError e, run_locked = locked'\<rparr>
      | (SyncWaiting, locked', es') \<Rightarrow> \<lparr>run_frames = [], run_end = EndWaiting, run_locked = locked'\<rparr>
      | (SyncDeadlock, locked', es') \<Rightarrow> \<lparr>run_frames = [], run_end = EndDeadlock, run_locked = locked'\<rparr>
      | (Synced, locked', es') \<Rightarrow>
          (case ReadSmartbusFrame tmo es' of
             Panic p \<Rightarrow> \<lparr>run_frames = [], run_end = EndPanic p, run_locked = True\<rparr>
           | Err e \<Rightarrow> \<lparr>run_frames = [], run_end = EndFrameError, run_locked = False\<rparr>
           | Ok FrameWaiting \<Rightarrow> \<lparr>run_frames = [], run_end = EndWaiting, run_locked = True\<rparr>
           | Ok (FrameRead frame cont es'') \<Rightarrow>
               let rest = (if cont then ReadSmartbusRaw tmo False es''
                           else \<lparr>run_frames = [], run_end = EndFrameError, run_locked = False\<rparr>)
               in rest\<lparr>run_frames := (case frame of None \<Rightarrow> [] | Some f \<Rightarrow> [f]) @ run_frames rest\<rparr>))"
  by pat_completeness auto
termination
  by (relation "measure (\<lambda>(tmo, locked, es). length es)")
     (auto dest!: ReadSync_length [OF sym] ReadSmartbusFrame_length)

declare ReadSmartbusRaw.simps [simp del]

text \<open>What \<^verbatim>\<open>ReadSmartbus\<close> puts on its channels, and whether the message channel is closed.\<close>

record read_run =
  read_msgs :: "SmartbusMessage list"
  read_raw :: "byte list list"
  read_closed :: bool
  read_end :: raw_end
  read_locked :: bool

fun handle_frames :: "bool \<Rightarrow> byte list list \<Rightarrow>
    SmartbusMessage list \<times> byte list list \<times> go_panic option" where
  "handle_frames raw [] = ([], [], None)"
| "handle_frames raw (f # fs) =
     (let raws = (if raw then [f] else []) in
      case ParseFrame f of
        Panic p \<Rightarrow> ([], raws, Some p)
      | Err e \<Rightarrow> (case handle_frames raw fs of (ms, rs, p) \<Rightarrow> (ms, raws @ rs, p))
      | Ok m \<Rightarrow> (case handle_frames raw fs of (ms, rs, p) \<Rightarrow> (m # ms, raws @ rs, p)))"

definition ReadSmartbus :: "(go_error \<Rightarrow> bool) \<Rightarrow> bool \<Rightarrow> bool \<Rightarrow> rd_event list \<Rightarrow> read_run" where
  "ReadSmartbus tmo raw locked es =
     (let run = ReadSmartbusRaw tmo locked es in
      case handle_frames raw (run_frames run) of
        (ms, rs, Some p) \<Rightarrow> \<lparr>read_msgs = ms, read_raw = rs, read_closed = False, read_end = EndPanic p,
            read_locked = False\<rparr>
      | (ms, rs, None) \<Rightarrow> \<lparr>read_msgs = ms, read_raw = rs,
            read_closed = (case run_end run of EndSyncError _ \<Rightarrow> True | EndFrameError \<Rightarrow> True | _ \<Rightarrow> False),
            read_end = run_end run, read_locked = run_locked run\<rparr>)"

end
