(* ===== verification/FrameCorrect.thy ===== *)
theory FrameCorrect
  imports Frame
begin

text \<open>
  What the frame layer of \<^verbatim>\<open>smartbus/frame.go\<close> guarantees: frames written are read back,
  after any noise and in any number; a damaged frame is dropped and the next one is read; only
  frames of the right length and CRC are handed on; the mutex is held exactly while a frame is
  being read, as long as no read times out between the two synchronisation bytes.
\<close>

section \<open>Finding frames in the stream\<close>

text \<open>
  Noise: bytes the synchroniser skips without leaving a half-recognised start of frame, that
  is, every \<^verbatim>\<open>0xaa\<close> it examines as a first byte is followed by another byte.
\<close>

fun noise :: "byte list \<Rightarrow> bool" where
  "noise [] = True"
| "noise (b # bs) =
     (if b \<noteq> 0xaa then noise bs
      else (case bs of [] \<Rightarrow> False | b' # bs' \<Rightarrow> b' \<noteq> 0xaa \<and> noise bs'))"

lemma ReadSync_noise:
  "noise ns \<Longrightarrow> ReadSync tmo False (map RByte ns @ es) = ReadSync tmo False es"
  by (induction ns rule: noise.induct) (auto split: list.splits if_splits)

lemma noise_no_aa: "0xaa \<notin> set ns \<Longrightarrow> noise ns"
  by (induction ns) auto

lemma stream_ReadFull_bytes:
  "length bs = n \<Longrightarrow> stream_ReadFull n got (map RByte bs @ es) = Full bs es"
  by (induction bs arbitrary: n got) auto

lemma stream_ReadFull_FullD:
  "stream_ReadFull n got es = Full bs es' \<Longrightarrow> es = map RByte bs @ es' \<and> length bs = n"
  by (induction n got es arbitrary: bs es' rule: stream_ReadFull.induct)
     (auto split: full_read.splits)

text \<open>The shape of a frame as the reader takes it: its first byte is its length, at least 11.\<close>

definition wire_frame :: "byte list \<Rightarrow> bool" where
  "wire_frame f = (11 \<le> length f \<and> length f \<le> 255 \<and> f ! 0 = word_of_nat (length f))"

lemma wire_frame_split:
  assumes "wire_frame f"
  obtains l body where "f = l # body" "unat l = Suc (length body)" "MIN_FRAME_SIZE \<le> l"
proof -
  from assms obtain l body where f: "f = l # body" by (cases f) (auto simp: wire_frame_def)
  with assms have l: "l = word_of_nat (length f)" "11 \<le> length f" "length f \<le> 255"
    by (auto simp: wire_frame_def)
  then have "unat l = length f" by (simp only: unat_word_of_nat_byte)
  with f l(2) show thesis
    by (intro that [of l body]) (auto simp: MIN_FRAME_SIZE_def word_le_nat_alt)
qed

lemma ReadSmartbusFrame_wire:
  assumes "wire_frame f"
  shows "ReadSmartbusFrame tmo (map RByte f @ es) =
     Ok (FrameRead (if crc_ref f = 0 then Some f else None) True es)"
proof -
  obtain l body where f: "f = l # body" and l: "unat l = Suc (length body)" "MIN_FRAME_SIZE \<le> l"
    using wire_frame_split [OF assms] .
  have len: "2 \<le> length f" using assms by (simp add: wire_frame_def)
  have body: "stream_ReadFull (unat l - 1) False (map RByte body @ es) = Full body es"
    using l by (simp add: stream_ReadFull_bytes)
  have first: "stream_ReadFull 1 False (map RByte f @ es) = Full [l] (map RByte body @ es)"
    using stream_ReadFull_bytes [of "[l]" 1 False "map RByte body @ es"] f by simp
  have trailer: "crc_ref (take (length f - 2) f) \<noteq> Uint16 (f ! (length f - 2)) (f ! (length f - 1))
      \<longleftrightarrow> crc_ref f \<noteq> 0"
    using crc.trailer_iff [OF len] by auto
  have size: "\<not> l < MIN_FRAME_SIZE" using l(2) by simp
  have "ReadSmartbusFrame tmo (map RByte f @ es) =
      Ok (if crc_ref (take (length f - 2) f) \<noteq> Uint16 (f ! (length f - 2)) (f ! (length f - 1))
          then FrameRead None True es else FrameRead (Some f) True es)"
    unfolding ReadSmartbusFrame_def first using size body f by (simp add: Let_def)
  then show ?thesis unfolding trailer by simp
qed

text \<open>One round of the reader loop on noise followed by a frame.\<close>

lemma ReadSmartbusRaw_wire:
  assumes "noise ns" and "wire_frame f"
  shows "ReadSmartbusRaw tmo False (map RByte (ns @ [0xaa, 0xaa] @ f) @ es) =
     (let rest = ReadSmartbusRaw tmo False es in
      rest\<lparr>run_frames := (if crc_ref f = 0 then [f] else []) @ run_frames rest\<rparr>)"
  using ReadSync_noise [OF assms(1), of tmo "map RByte ([0xaa, 0xaa] @ f) @ es"]
  by (subst ReadSmartbusRaw.simps)
     (simp add: ReadSmartbusFrame_wire [OF assms(2)] Let_def)

lemma ReadSmartbusRaw_Nil [simp]:
  "ReadSmartbusRaw tmo locked [] = \<lparr>run_frames = [], run_end = EndWaiting, run_locked = locked\<rparr>"
  by (subst ReadSmartbusRaw.simps) simp

text \<open>A stream of frames, each after some noise.\<close>

fun packets :: "(byte list \<times> byte list) list \<Rightarrow> rd_event list" where
  "packets [] = []"
| "packets ((ns, f) # ps) = map RByte (ns @ [0xaa, 0xaa] @ f) @ packets ps"

lemma ReadSmartbusRaw_packets:
  assumes "\<And>ns f. (ns, f) \<in> set ps \<Longrightarrow> noise ns \<and> wire_frame f"
  shows "ReadSmartbusRaw tmo False (packets ps) =
     \<lparr>run_frames = filter (\<lambda>f. crc_ref f = 0) (map snd ps), run_end = EndWaiting,
      run_locked = False\<rparr>"
  using assms
proof (induction ps)
  case Nil
  then show ?case by simp
next
  case (Cons p ps)
  obtain ns f where p: "p = (ns, f)" by force
  with Cons.prems have "noise ns" "wire_frame f" by auto
  note wire = ReadSmartbusRaw_wire [OF this]
  have "ReadSmartbusRaw tmo False (packets ps) = \<lparr>run_frames =
      filter (\<lambda>f. crc_ref f = 0) (map snd ps), run_end = EndWaiting, run_locked = False\<rparr>"
    using Cons by auto
  then have "ReadSmartbusRaw tmo False (map RByte (ns @ [0xaa, 0xaa] @ f) @ packets ps) =
     \<lparr>run_frames = filter (\<lambda>f. crc_ref f = 0) (f # map snd ps), run_end = EndWaiting,
      run_locked = False\<rparr>"
    unfolding wire by simp
  then show ?case by (simp only: p packets.simps list.map snd_conv)
qed


section \<open>The frame written for a message\<close>

lemma length_header_bytes [simp]: "length (header_bytes h) = 8"
  by (simp add: header_bytes_def)

lemma read_header_bytes [simp]: "read_header (header_bytes h @ rest) = Ok (h, rest)"
proof -
  have "buf_ReadFull 8 (header_bytes h @ rest) = Ok (header_bytes h, rest)"
    by (rule buf_ReadFull_append) simp
  then show ?thesis
    by (simp add: read_header_def) (simp add: header_bytes_def be16_def)
qed

definition frame_body :: "MessageHeader \<Rightarrow> byte list \<Rightarrow> byte list" where
  "frame_body h payload = word_of_nat (11 + length payload) # header_bytes h @ payload"

definition frame_of :: "MessageHeader \<Rightarrow> byte list \<Rightarrow> byte list" where
  "frame_of h payload = frame_body h payload @ be16 (crc_ref (frame_body h payload))"

lemma WriteFrameRaw_frame:
  "WriteFrameRaw h (Ok payload) = Ok ([0xaa, 0xaa] @ frame_of h payload)"
proof -
  have sig: "be16 0xaaaa = [0xaa, 0xaa]" by (simp add: be16_def)
  have "([0xaa, 0xaa] @ [0] @ header_bytes h @ payload)[2 := word_of_nat (11 + length payload)]
      = [0xaa, 0xaa] @ frame_body h payload"
    by (simp add: frame_body_def numeral_2_eq_2)
  then show ?thesis
    by (simp add: WriteFrameRaw_def sig frame_of_def Let_def add.commute)
qed

lemma length_frame_of [simp]: "length (frame_of h payload) = 11 + length payload"
  by (simp add: frame_of_def frame_body_def)

lemma crc_frame_of [simp]: "crc_ref (frame_of h payload) = 0"
  by (simp add: frame_of_def)

lemma wire_frame_of: "length payload \<le> 244 \<Longrightarrow> wire_frame (frame_of h payload)"
  by (simp add: wire_frame_def) (simp add: frame_of_def frame_body_def)

lemma ParseFrame_frame_of:
  "ParseFrame (frame_of h payload) =
     gbind (read_payload (HeaderOpcode h) payload) (\<lambda>msg. Ok \<lparr>Header = h, Message = msg\<rparr>)"
proof -
  have "take (length (frame_of h payload) - 3) (drop 1 (frame_of h payload)) = header_bytes h @ payload"
    by (simp add: frame_of_def frame_body_def)
  then show ?thesis
    by (simp add: ParseFrame_def)
qed

text \<open>What a message looks like after the trip: its opcode filled in, unused fields cleared.\<close>

definition received :: "SmartbusMessage \<Rightarrow> SmartbusMessage" where
  "received sm =
     \<lparr>Header = (Header sm)\<lparr>HeaderOpcode := Opcode (Message sm)\<rparr>, Message = canonical (Message sm)\<rparr>"

definition fits_frame :: "message \<Rightarrow> bool" where
  "fits_frame m =
     (message_ok m \<and> (case write_payload m of Ok payload \<Rightarrow> length payload \<le> 244 | _ \<Rightarrow> False))"

lemma WriteFrame_wire:
  assumes "fits_frame (Message sm)"
  shows "\<exists>f. WriteFrame sm = Ok ([0xaa, 0xaa] @ f) \<and> wire_frame f \<and> crc_ref f = 0 \<and>
     ParseFrame f = Ok (received sm)"
proof -
  let ?m = "Message sm"
  let ?h = "(Header sm)\<lparr>HeaderOpcode := Opcode ?m\<rparr>"
  obtain payload where payload: "write_payload ?m = Ok payload" "length payload \<le> 244"
    and rd: "read_payload (Opcode ?m) payload = Ok (canonical ?m)"
    using assms payload_round_trip [of ?m] by (auto simp: fits_frame_def)
  then have "WriteFrame sm = Ok ([0xaa, 0xaa] @ frame_of ?h payload)"
    by (simp add: WriteFrame_def Let_def WriteFrameRaw_frame)
  moreover have "ParseFrame (frame_of ?h payload) = Ok (received sm)"
    using rd by (simp add: ParseFrame_frame_of received_def)
  ultimately show ?thesis
    using wire_frame_of [OF payload(2)] crc_frame_of by blast
qed

lemma handle_frames_Ok:
  assumes "list_all2 (\<lambda>f sm. ParseFrame f = Ok (received sm)) fs sms"
  shows "handle_frames raw fs = (map received sms, if raw then fs else [], None)"
  using assms by (induction fs sms rule: list_all2_induct) (auto simp: Let_def)



section \<open>What the reader hands on\<close>

lemma ReadSmartbusFrame_valid:
  assumes "ReadSmartbusFrame tmo es = Ok (FrameRead (Some f) cont es')"
  shows "es = map RByte f @ es' \<and> wire_frame f \<and> crc_ref f = 0 \<and> cont"
proof -
  obtain ls es1 where first: "stream_ReadFull 1 False es = Full ls es1"
    using assms by (auto simp: ReadSmartbusFrame_def split: full_read.splits)
  then obtain l where ls: "ls = [l]" and es: "es = RByte l # es1"
    using stream_ReadFull_FullD [OF first] by (cases ls) auto
  then have l: "MIN_FRAME_SIZE \<le> l"
    using assms first by (auto simp: ReadSmartbusFrame_def Let_def split: if_splits)
  then obtain body where body: "stream_ReadFull (unat l - 1) False es1 = Full body es'"
    and f: "f = l # body" and cont: "cont"
    using assms first ls
    by (auto simp: ReadSmartbusFrame_def Let_def split: full_read.splits if_splits)
  have len: "11 \<le> unat l" using l by (simp add: MIN_FRAME_SIZE_def word_le_nat_alt)
  with stream_ReadFull_FullD [OF body] f
  have "length f = unat l" by simp
  moreover have "unat l \<le> 255" using unat_byte_less [of l] by linarith
  ultimately have wire: "wire_frame f"
    using len f by (simp add: wire_frame_def)
  have "es = map RByte f @ es'"
    using es f stream_ReadFull_FullD [OF body] by simp
  moreover from this have "crc_ref f = 0"
    using ReadSmartbusFrame_wire [OF wire, of tmo es'] assms by (simp split: if_splits)
  ultimately show ?thesis using wire cont by blast
qed

lemma ReadSmartbusRaw_valid:
  "f \<in> set (run_frames (ReadSmartbusRaw tmo locked es)) \<Longrightarrow> wire_frame f \<and> crc_ref f = 0"
proof (induction tmo locked es rule: ReadSmartbusRaw.induct)
  case (1 tmo locked es)
  show ?case
    using "1.prems" "1.IH" ReadSmartbusFrame_valid
    by (subst (asm) ReadSmartbusRaw.simps)
       (fastforce simp: Let_def split: prod.splits sync_result.splits go_result.splits
         frame_read.splits option.splits if_splits)
qed

lemma ReadSmartbusRaw_no_panic: "run_end (ReadSmartbusRaw tmo locked es) \<noteq> EndPanic p"
proof (induction tmo locked es rule: ReadSmartbusRaw.induct)
  case (1 tmo locked es)
  have "ReadSmartbusFrame tmo es' \<noteq> Panic p" for es'
    by (auto simp: ReadSmartbusFrame_def Let_def split: full_read.splits)
  then show ?case
    using "1.IH"
    by (subst ReadSmartbusRaw.simps)
       (auto simp: Let_def split: prod.splits sync_result.splits go_result.splits
         frame_read.splits if_splits)
qed

lemma ParseFrame_wire_panic:
  assumes "wire_frame f" and "ParseFrame f = Panic p"
  shows "p = IndexOutOfRange"
  using assms
  by (auto simp: ParseFrame_def wire_frame_def gbind_Panic_iff read_header_def
      dest!: read_payload_PanicD split: if_splits)


section \<open>The mutex\<close>

lemma ReadSync_mutex:
  assumes "\<And>e. \<not> tmo e" and "ReadSync tmo False es = (r, locked, es')"
  shows "(r = Synced \<longrightarrow> locked) \<and> (\<forall>e. r = SyncError e \<longrightarrow> \<not> locked) \<and> r \<noteq> SyncDeadlock"
  using assms
  by (induction tmo False es arbitrary: r locked es' rule: ReadSync.induct)
     (auto split: if_splits list.splits rd_event.splits)

lemma ReadSmartbusRaw_mutex:
  assumes "\<And>e. \<not> tmo e"
  shows "run_end (ReadSmartbusRaw tmo False es) \<noteq> EndDeadlock \<and>
     (run_end (ReadSmartbusRaw tmo False es) \<noteq> EndWaiting \<longrightarrow>
        \<not> run_locked (ReadSmartbusRaw tmo False es))"
  using assms
proof (induction "length es" arbitrary: es rule: less_induct)
  case less
  obtain r locked es' where sync: "ReadSync tmo False es = (r, locked, es')"
    by (cases "ReadSync tmo False es")
  note mutex = ReadSync_mutex [OF less.prems sync]
  show ?case
  proof (cases r)
    case Synced
    then have shorter: "length es' < length es" using ReadSync_length [OF sync] by simp
    have np: "ReadSmartbusFrame tmo es' \<noteq> Panic p" for p
      by (auto simp: ReadSmartbusFrame_def Let_def split: full_read.splits)
    have "length es'' < length es" if "ReadSmartbusFrame tmo es' = Ok (FrameRead fr c es'')" for fr c es''
      using ReadSmartbusFrame_length [OF that] shorter by simp
    then show ?thesis
      using less.hyps less.prems np sync Synced
      by (subst (1 2 3) ReadSmartbusRaw.simps)
         (auto simp: Let_def split: go_result.splits frame_read.splits)
  qed (use mutex sync in \<open>simp_all add: ReadSmartbusRaw.simps [of tmo False es]\<close>)
qed



section \<open>Properties\<close>

lemma WriteSmartbus_messages:
  assumes "\<And>sm. sm \<in> set sms \<Longrightarrow> fits_frame (Message sm)"
  shows "\<exists>fs. WriteSmartbus (map OutMessage sms) = (map ((@) [0xaa, 0xaa]) fs, None) \<and>
     list_all2 (\<lambda>f sm. wire_frame f \<and> crc_ref f = 0 \<and> ParseFrame f = Ok (received sm)) fs sms"
  using assms
proof (induction sms)
  case Nil
  then show ?case by simp
next
  case (Cons sm sms)
  obtain f where f: "WriteFrame sm = Ok ([0xaa, 0xaa] @ f)"
    "wire_frame f \<and> crc_ref f = 0 \<and> ParseFrame f = Ok (received sm)"
    using WriteFrame_wire [of sm] Cons.prems by force
  obtain fs where "WriteSmartbus (map OutMessage sms) = (map ((@) [0xaa, 0xaa]) fs, None)"
    "list_all2 (\<lambda>f sm. wire_frame f \<and> crc_ref f = 0 \<and> ParseFrame f = Ok (received sm)) fs sms"
    using Cons.IH Cons.prems by (meson list.set_intros(2))
  with f
  show ?case by (intro exI [of _ "f # fs"]) auto
qed

lemma packets_zip:
  "length nss = length fs \<Longrightarrow>
     concat (map2 (\<lambda>ns w. map RByte (ns @ w)) nss (map ((@) [0xaa, 0xaa]) fs)) = packets (zip nss fs)"
  by (induction nss fs rule: list_induct2) auto

lemma ReadSmartbus_packets:
  assumes "list_all2 (\<lambda>f sm. wire_frame f \<and> crc_ref f = 0 \<and> ParseFrame f = Ok (received sm)) fs sms"
    and "length nss = length fs" and "\<And>ns. ns \<in> set nss \<Longrightarrow> noise ns"
  shows "ReadSmartbus tmo raw False (packets (zip nss fs)) =
      \<lparr>read_msgs = map received sms, read_raw = (if raw then fs else []),
       read_closed = False, read_end = EndWaiting, read_locked = False\<rparr>"
proof -
  have "\<forall>f \<in> set fs. wire_frame f \<and> crc_ref f = 0"
    using assms(1) by (auto simp: list_all2_conv_all_nth in_set_conv_nth)
  then have "ReadSmartbusRaw tmo False (packets (zip nss fs)) =
      \<lparr>run_frames = fs, run_end = EndWaiting, run_locked = False\<rparr>"
    using assms(2,3)
    by (subst ReadSmartbusRaw_packets) (auto dest: set_zip_leftD set_zip_rightD)
  moreover have "handle_frames raw fs = (map received sms, if raw then fs else [], None)"
    by (rule handle_frames_Ok) (rule list_all2_mono [OF assms(1)], simp)
  ultimately show ?thesis by (simp add: ReadSmartbus_def)
qed

lemma packets_concat: "packets (zip (replicate (length fs) []) fs) = map RByte (concat (map ((@) [0xaa, 0xaa]) fs))"
  by (induction fs) simp_all

text \<open>
  (C4) Messages that fit a frame, written one after the other by \<^verbatim>\<open>WriteSmartbus\<close>, each reaching
  the other side after an arbitrary noise prefix, are all delivered by \<^verbatim>\<open>ReadSmartbus\<close>, in order,
  with their headers, and nothing else is; the raw frames go to the raw channel when there is
  one; the reader ends waiting for the next frame with the mutex released.
\<close>

theorem stream_round_trip:
  assumes "\<And>sm. sm \<in> set sms \<Longrightarrow> fits_frame (Message sm)"
    and "\<And>ns. ns \<in> set nss \<Longrightarrow> noise ns" and "length nss = length sms"
  shows "\<exists>ws. WriteSmartbus (map OutMessage sms) = (ws, None) \<and>
     ReadSmartbus tmo raw False (concat (map2 (\<lambda>ns w. map RByte (ns @ w)) nss ws)) =
       \<lparr>read_msgs = map received sms, read_raw = (if raw then map (drop 2) ws else []),
        read_closed = False, read_end = EndWaiting, read_locked = False\<rparr>"
proof -
  obtain fs where ws: "WriteSmartbus (map OutMessage sms) = (map ((@) [0xaa, 0xaa]) fs, None)"
    and fs: "list_all2 (\<lambda>f sm. wire_frame f \<and> crc_ref f = 0 \<and> ParseFrame f = Ok (received sm)) fs sms"
    using WriteSmartbus_messages [OF assms(1)] by blast
  have len: "length nss = length fs" using fs assms(3) by (simp add: list_all2_lengthD)
  show ?thesis
    using ws packets_zip [OF len] ReadSmartbus_packets [OF fs len assms(2), of tmo raw] by (intro exI [of _ "map ((@) [0xaa, 0xaa]) fs"]) (simp add: o_def)
qed

definition sample_header :: MessageHeader where
  "sample_header = \<lparr>OrigSubnetID = 1, OrigDeviceID = 0x14, OrigDeviceType = 0x95,
     HeaderOpcode = 0, TargetSubnetID = 1, TargetDeviceID = 0x1c\<rparr>"

definition sample_message :: SmartbusMessage where
  "sample_message = \<lparr>Header = sample_header, Message = SingleChannelControlCommand 7 100 0\<rparr>"

lemma fits_sample: "fits_frame (Message sample_message)"
  by (simp add: fits_frame_def sample_message_def write_payload_fixed)

theorem stream_round_trip_witness:
  "\<exists>ws. WriteSmartbus (map OutMessage [sample_message]) = (ws, None) \<and>
     ReadSmartbus (\<lambda>_. False) True False
       (concat (map2 (\<lambda>ns w. map RByte (ns @ w)) [[1, 0xaa, 2]] ws)) =
       \<lparr>read_msgs = map received [sample_message], read_raw = (if True then map (drop 2) ws else []),
        read_closed = False, read_end = EndWaiting, read_locked = False\<rparr>"
  by (rule stream_round_trip) (auto simp: fits_sample)

text \<open>
  (C16) A frame damaged in any two adjacent bytes after its length byte is dropped: the reader
  delivers nothing for it and goes on, unlocked, with whatever follows.
\<close>

theorem damaged_frame_dropped:
  assumes "fits_frame (Message sm)" and "WriteFrame sm = Ok ([0xaa, 0xaa] @ xs @ a # b # ys)"
    and "xs \<noteq> []" and "(a', b') \<noteq> (a, b)"
  shows "ReadSmartbusRaw tmo False (map RByte ([0xaa, 0xaa] @ xs @ a' # b' # ys) @ es) =
     ReadSmartbusRaw tmo False es"
proof -
  from WriteFrame_wire [OF assms(1)] assms(2)
  have f: "wire_frame (xs @ a # b # ys)" "crc_ref (xs @ a # b # ys) = 0" by auto
  then have "wire_frame (xs @ a' # b' # ys)"
    using assms(3) by (cases xs) (auto simp: wire_frame_def)
  moreover have "crc_ref (xs @ a' # b' # ys) \<noteq> 0"
    by (rule crc.damaged_pair [OF f(2) assms(4)])
  ultimately show ?thesis
    using ReadSmartbusRaw_wire [of "[]" "xs @ a' # b' # ys" tmo es] by (simp add: Let_def)
qed

lemma sample_frame:
  "\<exists>c. WriteFrame sample_message = Ok ([0xaa, 0xaa] @ [15] @ 1 # 0x14 #
     ([0, 0x95, 0, 0x31, 1, 0x1c, 7, 100, 0, 0] @ be16 c))"
proof -
  let ?h = "sample_header\<lparr>HeaderOpcode := 0x31\<rparr>"
  have "frame_body ?h [7, 100, 0, 0] = [15, 1, 0x14, 0, 0x95, 0, 0x31, 1, 0x1c, 7, 100, 0, 0]"
    by (simp add: frame_body_def header_bytes_def sample_header_def be16_def)
  then have "frame_of ?h [7, 100, 0, 0] = [15] @ 1 # 0x14 #
      ([0, 0x95, 0, 0x31, 1, 0x1c, 7, 100, 0, 0] @ be16 (crc_ref (frame_body ?h [7, 100, 0, 0])))"
    by (simp add: frame_of_def)
  moreover have "WriteFrame sample_message = Ok ([0xaa, 0xaa] @ frame_of ?h [7, 100, 0, 0])"
    by (simp add: WriteFrame_def sample_message_def Let_def write_payload_fixed WriteFrameRaw_frame be16_def)
  ultimately show ?thesis by auto
qed

theorem damaged_frame_dropped_witness:
  "\<exists>ys. WriteFrame sample_message = Ok ([0xaa, 0xaa] @ [15] @ 1 # 0x14 # ys) \<and>
     ReadSmartbusRaw (\<lambda>_. False) False (map RByte ([0xaa, 0xaa] @ [15] @ 1 # 0x15 # ys) @ []) =
       ReadSmartbusRaw (\<lambda>_. False) False []"
proof -
  obtain ys where ys: "WriteFrame sample_message = Ok ([0xaa, 0xaa] @ [15] @ 1 # 0x14 # ys)"
    using sample_frame by blast
  show ?thesis
    using damaged_frame_dropped [OF fits_sample ys, of 1 "0x15" "\<lambda>_. False" "[]"] ys by auto
qed

text \<open>
  (C15) Whatever the stream contains, every frame handed on has at least 11 bytes, its first
  byte is its length and its last two bytes are the CRC of the others; parsing it can panic only
  with an index out of range, never by slicing the frame.
\<close>

theorem delivered_frames_valid:
  assumes "f \<in> set (run_frames (ReadSmartbusRaw tmo locked es))"
  shows "11 \<le> length f \<and> f ! 0 = word_of_nat (length f) \<and>
     crc16 (take (length f - 2) f) = Ok (Uint16 (f ! (length f - 2)) (f ! (length f - 1))) \<and>
     (\<forall>p. ParseFrame f = Panic p \<longrightarrow> p = IndexOutOfRange)"
proof -
  from ReadSmartbusRaw_valid [OF assms] have f: "wire_frame f" "crc_ref f = 0" by auto
  then have "2 \<le> length f" by (simp add: wire_frame_def)
  with f show ?thesis
    using crc.trailer_iff [of f] ParseFrame_wire_panic [OF f(1)] by (auto simp: wire_frame_def)
qed

theorem delivered_frames_valid_witness:
  "\<exists>f. f \<in> set (run_frames (ReadSmartbusRaw (\<lambda>_. False) False
       (map RByte ([] @ [0xaa, 0xaa] @ frame_of sample_header []) @ []))) \<and> 11 \<le> length f"
proof -
  have "frame_of sample_header [] \<in> set (run_frames (ReadSmartbusRaw (\<lambda>_. False) False
      (map RByte ([] @ [0xaa, 0xaa] @ frame_of sample_header []) @ [])))"
    by (subst ReadSmartbusRaw_wire) (simp_all add: wire_frame_of)
  from this delivered_frames_valid [OF this] show ?thesis by blast
qed

text \<open>
  On a stream whose errors are never time-outs, the reader loop never blocks on its own
  mutex, and when it ends it has released it.
\<close>

theorem reader_mutex_discipline:
  assumes "\<And>e. \<not> tmo e"
  shows "run_end (ReadSmartbusRaw tmo False es) \<noteq> EndDeadlock \<and>
     (run_end (ReadSmartbusRaw tmo False es) \<noteq> EndWaiting \<longrightarrow>
        \<not> run_locked (ReadSmartbusRaw tmo False es))"
  by (rule ReadSmartbusRaw_mutex [OF assms])

theorem reader_mutex_discipline_witness:
  "run_end (ReadSmartbusRaw (\<lambda>_. False) False [RByte 0xaa, RFault EOF]) = EndSyncError EOF \<and>
     \<not> run_locked (ReadSmartbusRaw (\<lambda>_. False) False [RByte 0xaa, RFault EOF])"
proof -
  have "run_end (ReadSmartbusRaw (\<lambda>_. False) False [RByte 0xaa, RFault EOF]) = EndSyncError EOF"
    by (subst ReadSmartbusRaw.simps) simp
  with reader_mutex_discipline [of "\<lambda>_. False" "[RByte 0xaa, RFault EOF]"] show ?thesis by simp
qed

text \<open>
  A time-out between the two synchronisation bytes leaves the mutex locked and the next
  \<^verbatim>\<open>0xaa\<close> makes the reader lock it again: it blocks for ever, whatever follows, and delivers no
  further frame.
\<close>

theorem sync_timeout_deadlocks:
  assumes "tmo e" and "0xaa \<notin> set bs"
  shows "ReadSmartbusRaw tmo False (RByte 0xaa # RFault e # map RByte bs @ RByte 0xaa # es) =
     \<lparr>run_frames = [], run_end = EndDeadlock, run_locked = True\<rparr>"
proof -
  have "ReadSync tmo True (map RByte bs @ RByte 0xaa # es) = (SyncDeadlock, True, es)"
    using assms(2) by (induction bs) auto
  then show ?thesis
    using assms(1) by (subst ReadSmartbusRaw.simps) simp
qed

theorem sync_timeout_deadlocks_witness:
  "ReadSmartbusRaw (\<lambda>e. e = ErrTimeout) False
       (RByte 0xaa # RFault ErrTimeout # map RByte [] @ RByte 0xaa # [RByte 0xaa]) =
     \<lparr>run_frames = [], run_end = EndDeadlock, run_locked = True\<rparr>"
  by (rule sync_timeout_deadlocks) simp_all

lemma broadcast_panics:
  assumes "249 \<le> n" and "length zs \<le> 255"
  shows "read_payload 0xefff (word_of_nat (length zs) # zs @ n # status) = Panic IndexOutOfRange"
proof -
  have "ReadChannelStatusField (n # status) v = Panic IndexOutOfRange" for v
    by (rule channel_status_panic_large [OF assms(1)])
  moreover have "ReadStatusBytesField (word_of_nat (length zs) # zs @ n # status) v = Ok (VUint8s zs, n # status)" for v
    using assms(2)
    by (auto simp: ReadStatusBytesField_def unat_word_of_nat_byte word_of_nat_byte_eq_0 word_neq_0_conv [symmetric])
  ultimately have "MakeSimplePacketParser (ZoneBeastBroadcast [] []) (word_of_nat (length zs) # zs @ n # status) =
      Panic IndexOutOfRange"
    by (simp add: MakeSimplePacketParser_def ParseMessage_def read_field_def ReadTaggedField_def)
  moreover have "ZoneBeastBroadcast [] [] \<in> set init_messages"
    by (simp add: init_messages_def)
  ultimately show ?thesis
    using recognizedMessages_lookup [of "ZoneBeastBroadcast [] []"]
    by (simp add: read_payload_def is_PreprocessedMessage_def)
qed

text \<open>
  (C38) A broadcast of a Zone Beast with 249 to 255 channels crashes the reader of any stream: whatever
  zones the frame lists and whatever status bytes follow the channel count, so also if there is one for
  every eight channels as there should be, \<^verbatim>\<open>ReadSmartbus\<close> panics while parsing the frame, as the
  number of status bytes it computes wraps to 0.
\<close>

theorem large_channel_count_crashes_reader:
  assumes "HeaderOpcode h = 0xefff" and "249 \<le> n" and "length zs + length status \<le> 242"
  shows "read_end (ReadSmartbus tmo raw False
      (map RByte ([0xaa, 0xaa] @ frame_of h (word_of_nat (length zs) # zs @ n # status)) @ es)) = EndPanic IndexOutOfRange"
proof -
  let ?f = "frame_of h (word_of_nat (length zs) # zs @ n # status)"
  have "ParseFrame ?f = Panic IndexOutOfRange"
    using assms by (simp add: ParseFrame_frame_of broadcast_panics)
  moreover have "wire_frame ?f"
    using assms(3) by (intro wire_frame_of) simp
  ultimately show ?thesis
    using ReadSmartbusRaw_wire [of "[]" ?f tmo es]
    by (simp add: ReadSmartbus_def Let_def)
qed

theorem large_channel_count_crashes_reader_witness:
  "read_end (ReadSmartbus (\<lambda>_. False) False False
      (map RByte ([0xaa, 0xaa] @ frame_of (sample_header\<lparr>HeaderOpcode := 0xefff\<rparr>)
        (word_of_nat (length [1 :: byte]) # [1] @ 250 # replicate 32 0)) @ []))
     = EndPanic IndexOutOfRange"
  by (rule large_channel_count_crashes_reader) simp_all

lemma unat_word_of_nat_mod: "unat (word_of_nat n :: byte) = n mod 256"
  by (simp add: unsigned_of_nat take_bit_eq_mod)

text \<open>
  (C39) \<^verbatim>\<open>WriteFrameRaw\<close> does not check that the frame fits the length byte: with a payload of 245
  to 255 bytes the length byte wraps to less than 11, and \<^verbatim>\<open>ReadSmartbusFrame\<close>, with which every
  stream is read, rejects the frame as too short. (A receiver of datagrams does not look at the
  length byte.)
\<close>

theorem oversized_frame_unreadable:
  assumes "245 \<le> length payload" and "length payload \<le> 255"
  shows "\<exists>f. WriteFrameRaw h (Ok payload) = Ok ([0xaa, 0xaa] @ f) \<and>
     (\<exists>es'. ReadSmartbusFrame tmo (map RByte f @ es) = Ok (FrameRead None True es'))"
proof -
  let ?f = "frame_of h payload"
  let ?l = "word_of_nat (11 + length payload) :: byte"
  have "unat ?l = (11 + length payload) mod 256"
    by (rule unat_word_of_nat_mod)
  also have "\<dots> = length payload - 245"
  proof -
    obtain k where k: "length payload = 245 + k" using assms(1) le_Suc_ex by blast
    then show ?thesis using assms(2) by simp
  qed
  finally have "?l < MIN_FRAME_SIZE"
    using assms by (simp add: MIN_FRAME_SIZE_def word_less_nat_alt)
  moreover have "stream_ReadFull 1 False (map RByte ?f @ es) = Full [?l] (map RByte (tl ?f) @ es)"
    using stream_ReadFull_bytes [of "[?l]" 1 False "map RByte (tl ?f) @ es"]
    by (simp add: frame_of_def frame_body_def)
  ultimately have "ReadSmartbusFrame tmo (map RByte ?f @ es) =
      Ok (FrameRead None True (map RByte (tl ?f) @ es))"
    by (simp add: ReadSmartbusFrame_def)
  then show ?thesis
    using WriteFrameRaw_frame by blast
qed

theorem oversized_frame_unreadable_witness:
  "\<exists>f. WriteFrameRaw sample_header (Ok (replicate 245 0)) = Ok ([0xaa, 0xaa] @ f) \<and>
     (\<exists>es'. ReadSmartbusFrame (\<lambda>_. False) (map RByte f @ []) = Ok (FrameRead None True es'))"
  by (rule oversized_frame_unreadable) simp_all

end
