(* ===== verification/Transitions.thy ===== *)
theory Transitions
  imports Prelude
begin

text \<open>
  Labelled transition systems given by a partial step function: the step a label names, or
  \<open>None\<close> where the code would block. The message queue, the stream endpoints and the device
  models are systems of this kind; an invariant of one is an interpretation of \<open>ts_invariant\<close>.
\<close>

fun exec :: "('l \<Rightarrow> 's \<Rightarrow> 's option) \<Rightarrow> 'l list \<Rightarrow> 's \<Rightarrow> 's option" where
  "exec step [] s = Some s"
| "exec step (l # ls) s = (case step l s of None \<Rightarrow> None | Some s' \<Rightarrow> exec step ls s')"

inductive reach :: "('l \<Rightarrow> 's \<Rightarrow> 's option) \<Rightarrow> 's \<Rightarrow> 's \<Rightarrow> bool" for step s0 where
  reach_init: "reach step s0 s0"
| reach_step: "reach step s0 s \<Longrightarrow> step l s = Some s' \<Longrightarrow> reach step s0 s'"

lemma reach_one: "step l s = Some s' \<Longrightarrow> reach step s s'"
  by (rule reach_step [OF reach_init])

lemma exec_append:
  "exec step (ls @ ls') s = (case exec step ls s of None \<Rightarrow> None | Some s' \<Rightarrow> exec step ls' s')"
  by (induction ls arbitrary: s) (auto split: option.splits)

lemma reach_trans: "reach step s1 s2 \<Longrightarrow> reach step s0 s1 \<Longrightarrow> reach step s0 s2"
  by (induction rule: reach.induct) (auto intro: reach_step)

lemma exec_ConsE:
  assumes "exec step (l # ls) s = Some s'"
  obtains s1 where "step l s = Some s1" and "exec step ls s1 = Some s'"
  using assms by (auto split: option.splits)

lemma exec_reach: "exec step ls s = Some s' \<Longrightarrow> reach step s s'"
proof (induction ls arbitrary: s)
  case Nil
  then show ?case by (simp add: reach_init)
next
  case (Cons l ls)
  from Cons.prems obtain s1 where "step l s = Some s1" "exec step ls s1 = Some s'"
    by (rule exec_ConsE)
  with Cons.IH show ?case by (meson reach_init reach_step reach_trans)
qed

text \<open>What every step of a set of labels keeps, every run of such steps keeps.\<close>

lemma exec_preserves:
  assumes "\<And>l s s'. l \<in> set ls \<Longrightarrow> P s \<Longrightarrow> step l s = Some s' \<Longrightarrow> P s'" and "P s" and "exec step ls s = Some s'"
  shows "P s'"
  using assms
proof (induction ls arbitrary: s)
  case (Cons l ls)
  from Cons.prems(3) obtain s1 where "step l s = Some s1" "exec step ls s1 = Some s'"
    by (rule exec_ConsE)
  with Cons show ?case by (meson list.set_intros)
qed simp

lemma reach_exec: "reach step s s' \<Longrightarrow> \<exists>ls. exec step ls s = Some s'"
proof (induction rule: reach.induct)
  case reach_init
  show ?case by (rule exI [of _ "[]"]) simp
next
  case (reach_step s1 l s2)
  then obtain ls where "exec step ls s = Some s1" by blast
  with reach_step show ?case by (intro exI [of _ "ls @ [l]"]) (simp add: exec_append)
qed

locale ts_invariant =
  fixes step :: "'l \<Rightarrow> 's \<Rightarrow> 's option" and s0 :: 's and inv :: "'s \<Rightarrow> bool"
  assumes init: "inv s0"
    and preserved: "inv s \<Longrightarrow> step l s = Some s' \<Longrightarrow> inv s'"
begin

lemma reach_inv: "reach step s0 s \<Longrightarrow> inv s"
  by (induction rule: reach.induct) (auto intro: init preserved)

lemma exec_inv: "exec step ls s0 = Some s \<Longrightarrow> inv s"
  by (rule reach_inv) (rule exec_reach)

end

text \<open>
  A measure that every step of a set of labels lowers bounds how often such steps can follow
  one another.
\<close>

locale ts_measure = ts_invariant +
  fixes internal :: "'l \<Rightarrow> bool" and size :: "'s \<Rightarrow> nat"
  assumes decreases: "inv s \<Longrightarrow> internal l \<Longrightarrow> step l s = Some s' \<Longrightarrow> size s' < size s"
begin

lemma internal_run_bounded:
  "inv s \<Longrightarrow> list_all internal ls \<Longrightarrow> exec step ls s = Some s' \<Longrightarrow> length ls + size s' \<le> size s"
proof (induction ls arbitrary: s)
  case Nil
  then show ?case by simp
next
  case (Cons l ls)
  from Cons.prems(3) obtain s1 where s1: "step l s = Some s1" "exec step ls s1 = Some s'"
    by (rule exec_ConsE)
  have "internal l" "list_all internal ls" using Cons.prems(2) by simp_all
  with Cons.IH [OF preserved [OF Cons.prems(1) s1(1)]] s1(2) have "length ls + size s' \<le> size s1" by blast
  with decreases [OF Cons.prems(1) \<open>internal l\<close> s1(1)] show ?case by simp
qed

end

text \<open>
  A part of a system that itself is a system: every step of the whole is a run of the part, so
  what is reachable in the whole is reachable in the part, and the part's theorems apply.
\<close>

locale simulation =
  fixes step1 :: "'l \<Rightarrow> 's \<Rightarrow> 's option" and init1 :: 's
    and step2 :: "'m \<Rightarrow> 't \<Rightarrow> 't option" and init2 :: 't and part :: "'s \<Rightarrow> 't"
  assumes init: "part init1 = init2"
    and simulated: "step1 l s = Some s' \<Longrightarrow> reach step2 (part s) (part s')"
begin

lemma reach_part: "reach step1 init1 s \<Longrightarrow> reach step2 init2 (part s)"
proof (induction rule: reach.induct)
  case reach_init
  then show ?case by (simp add: init reach.reach_init)
next
  case (reach_step s l s')
  show ?case by (rule reach_trans [OF simulated [OF reach_step.hyps(2)] reach_step.IH])
qed

end

end
