(* ===== verification/MessageQueue.thy ===== *)
theory MessageQueue
  imports Transitions
begin

text \<open>
  The request queue, \<^verbatim>\<open>smartbus/messagequeue.go\<close>. The state holds the fields of
  \<^verbatim>\<open>MessageQueue\<close>, the position of the call that holds its lock, the positions of the goroutines
  that execute \<^verbatim>\<open>run\<close> and the timers that are running. One operation models what the code does
  between two points where it can be interrupted or can block: a case of a \<^verbatim>\<open>select\<close>, a call by
  a client. It is \<open>None\<close> where the code would block or the case is not ready.

  The items and messages are arbitrary types; \<open>IsResponse\<close> of the configuration is the items'
  method. \<^verbatim>\<open>item.Run()\<close>, the starting and stopping of timers and the entering and leaving of
  the item channel are recorded in \<open>events\<close>. \<^verbatim>\<open>item.Run()\<close> is part of the step that calls it: what is
  shown here of the queue's progress holds provided it returns. The timers are made by the \<^verbatim>\<open>timerFunc\<close> given to
  the queue, so when one fires is up to the environment.
\<close>

section \<open>State\<close>

definition MESSAGE_QUEUE_INBOUND_QUEUE_SIZE :: nat where
  "MESSAGE_QUEUE_INBOUND_QUEUE_SIZE = 10"

datatype 'i mq_event =
    Accepted 'i
  | Rejected 'i
  | Removed 'i        \<comment> \<open>received from the item channel by \<^verbatim>\<open>run\<close>\<close>
  | Discarded 'i      \<comment> \<open>received from the item channel by \<^verbatim>\<open>flush\<close>\<close>
  | Ran 'i
  | TimerStarted nat
  | TimerStopped nat
  | TimerFired nat
  | GaveUp 'i

datatype chan_state = ChanNil | ChanOpen | ChanClosed

datatype lock_pc = Unlocked | InFlush | InStop

text \<open>Where a \<^verbatim>\<open>run\<close> goroutine is: its loop, \<^verbatim>\<open>processItem\<close> with its variables, the final send.\<close>

datatype 'i run_pc = AtLoop | AtItem (cur_item: 'i) (retries_left: int) (cur_timer: nat) | AtDone

record ('i, 'm) mq_config =
  IsResponse :: "'i \<Rightarrow> 'm \<Rightarrow> bool"
  hasTimerFunc :: bool
  numRetries :: int
  queueSize :: nat

record ('i, 'm) MessageQueue =
  active :: bool
  items :: "'i list"
  messages :: "'m list"
  quit :: chan_state
  lock :: lock_pc
  runners :: "'i run_pc list"
  timers :: "nat list"
  timerCount :: nat
  events :: "'i mq_event list"

definition NewMessageQueue :: "('i, 'm) MessageQueue" where
  "NewMessageQueue = \<lparr>active = False, items = [], messages = [], quit = ChanNil, lock = Unlocked,
     runners = [], timers = [], timerCount = 0, events = []\<rparr>"

definition record_event :: "'i mq_event \<Rightarrow> ('i, 'm) MessageQueue \<Rightarrow> ('i, 'm) MessageQueue" where
  "record_event e q = q\<lparr>events := events q @ [e]\<rparr>"


section \<open>The operations of the clients\<close>

definition Start :: "('i, 'm) MessageQueue \<Rightarrow> ('i, 'm) MessageQueue option" where
  "Start q =
     (if lock q \<noteq> Unlocked then None
      else if active q then Some q
      else Some (q\<lparr>quit := ChanOpen, active := True, lock := InFlush\<rparr>))"

definition flush_item :: "('i, 'm) MessageQueue \<Rightarrow> ('i, 'm) MessageQueue option" where
  "flush_item q =
     (if lock q \<noteq> InFlush then None
      else (case items q of [] \<Rightarrow> None
            | i # is \<Rightarrow> Some (record_event (Discarded i) (q\<lparr>items := is\<rparr>))))"

definition flush_message :: "('i, 'm) MessageQueue \<Rightarrow> ('i, 'm) MessageQueue option" where
  "flush_message q =
     (if lock q \<noteq> InFlush then None
      else (case messages q of [] \<Rightarrow> None | m # ms \<Rightarrow> Some (q\<lparr>messages := ms\<rparr>)))"

text \<open>The \<^verbatim>\<open>default\<close> case ends \<^verbatim>\<open>flush\<close>; then \<^verbatim>\<open>Start\<close> spawns \<^verbatim>\<open>run\<close> and returns.\<close>

definition flush_default :: "('i, 'm) MessageQueue \<Rightarrow> ('i, 'm) MessageQueue option" where
  "flush_default q =
     (if lock q = InFlush \<and> items q = [] \<and> messages q = []
      then Some (q\<lparr>runners := AtLoop # runners q, lock := Unlocked\<rparr>) else None)"

definition Stop :: "('i, 'm) MessageQueue \<Rightarrow> ('i, 'm) MessageQueue option" where
  "Stop q =
     (if lock q \<noteq> Unlocked then None
      else if \<not> active q then Some q
      else Some (q\<lparr>active := False, quit := ChanClosed, lock := InStop\<rparr>))"

text \<open>\<^verbatim>\<open>Stop\<close> receives from \<^verbatim>\<open>done\<close>, an unbuffered channel, what a \<^verbatim>\<open>run\<close> sends as it ends.\<close>

definition Stop_return :: "nat \<Rightarrow> ('i, 'm) MessageQueue \<Rightarrow> ('i, 'm) MessageQueue option" where
  "Stop_return k q =
     (if lock q = InStop \<and> k < length (runners q) \<and> runners q ! k = AtDone
      then Some (q\<lparr>lock := Unlocked, runners := take k (runners q) @ drop (Suc k) (runners q)\<rparr>)
      else None)"

definition Enqueue ::
    "('i, 'm) mq_config \<Rightarrow> 'i \<Rightarrow> ('i, 'm) MessageQueue \<Rightarrow> go_error option \<times> ('i, 'm) MessageQueue" where
  "Enqueue cfg i q =
     (if length (items q) < queueSize cfg
      then (None, record_event (Accepted i) (q\<lparr>items := items q @ [i]\<rparr>))
      else (Some (ErrOther ''Message queue overflow, dropping request''), record_event (Rejected i) q))"

definition HandleReceivedMessage ::
    "'m \<Rightarrow> ('i, 'm) MessageQueue \<Rightarrow> ('i, 'm) MessageQueue option" where
  "HandleReceivedMessage m q =
     (if length (messages q) < MESSAGE_QUEUE_INBOUND_QUEUE_SIZE
      then Some (q\<lparr>messages := messages q @ [m]\<rparr>) else None)"


section \<open>The run goroutine\<close>

definition pc_of :: "nat \<Rightarrow> ('i, 'm) MessageQueue \<Rightarrow> 'i run_pc option" where
  "pc_of k q = (if k < length (runners q) then Some (runners q ! k) else None)"

definition set_pc :: "nat \<Rightarrow> 'i run_pc \<Rightarrow> ('i, 'm) MessageQueue \<Rightarrow> ('i, 'm) MessageQueue" where
  "set_pc k pc q = q\<lparr>runners := (runners q)[k := pc]\<rparr>"

definition stop_timer :: "nat \<Rightarrow> ('i, 'm) MessageQueue \<Rightarrow> ('i, 'm) MessageQueue" where
  "stop_timer t q = record_event (TimerStopped t) (q\<lparr>timers := remove1 t (timers q)\<rparr>)"

definition fire_timer :: "nat \<Rightarrow> ('i, 'm) MessageQueue \<Rightarrow> ('i, 'm) MessageQueue" where
  "fire_timer t q = record_event (TimerFired t) (q\<lparr>timers := remove1 t (timers q)\<rparr>)"

definition start_timer :: "('i, 'm) MessageQueue \<Rightarrow> nat \<times> ('i, 'm) MessageQueue" where
  "start_timer q =
     (let t = Suc (timerCount q)
      in (t, record_event (TimerStarted t) (q\<lparr>timers := timers q @ [t], timerCount := t\<rparr>)))"

text \<open>Run the item and arm its timer, with \<open>n\<close> retries left.\<close>

definition run_item :: "nat \<Rightarrow> 'i \<Rightarrow> int \<Rightarrow> ('i, 'm) MessageQueue \<Rightarrow> ('i, 'm) MessageQueue" where
  "run_item k i n q =
     (case start_timer (record_event (Ran i) q) of (t, q') \<Rightarrow> set_pc k (AtItem i n t) q')"

text \<open>The \<^verbatim>\<open>quit\<close> case of both \<^verbatim>\<open>select\<close>s: \<^verbatim>\<open>processItem\<close> stops its timer first.\<close>

definition run_quit :: "nat \<Rightarrow> ('i, 'm) MessageQueue \<Rightarrow> ('i, 'm) MessageQueue option" where
  "run_quit k q =
     (if quit q \<noteq> ChanClosed then None
      else (case pc_of k q of
              Some AtLoop \<Rightarrow> Some (set_pc k AtDone q)
            | Some (AtItem i n t) \<Rightarrow> Some (set_pc k AtDone (stop_timer t q))
            | _ \<Rightarrow> None))"

definition run_message ::
    "('i, 'm) mq_config \<Rightarrow> nat \<Rightarrow> ('i, 'm) MessageQueue \<Rightarrow> ('i, 'm) MessageQueue option" where
  "run_message cfg k q =
     (case messages q of [] \<Rightarrow> None
      | m # ms \<Rightarrow>
          let q' = q\<lparr>messages := ms\<rparr> in
          (case pc_of k q of
             Some AtLoop \<Rightarrow> Some q'
           | Some (AtItem i n t) \<Rightarrow>
               Some (if IsResponse cfg i m then set_pc k AtLoop (stop_timer t q') else q')
           | _ \<Rightarrow> None))"

definition run_take ::
    "('i, 'm) mq_config \<Rightarrow> nat \<Rightarrow> ('i, 'm) MessageQueue \<Rightarrow> ('i, 'm) MessageQueue option" where
  "run_take cfg k q =
     (case (pc_of k q, items q) of
        (Some AtLoop, i # is) \<Rightarrow>
          let q' = record_event (Removed i) (q\<lparr>items := is\<rparr>) in
          Some (if hasTimerFunc cfg then run_item k i (numRetries cfg) q'
                else record_event (Ran i) q')
      | _ \<Rightarrow> None)"

definition run_timeout :: "nat \<Rightarrow> ('i, 'm) MessageQueue \<Rightarrow> ('i, 'm) MessageQueue option" where
  "run_timeout k q =
     (case pc_of k q of
        Some (AtItem i n t) \<Rightarrow>
          let q' = fire_timer t q in
          Some (if n = 0 then set_pc k AtLoop (record_event (GaveUp i) q') else run_item k i (n - 1) q')
      | _ \<Rightarrow> None)"


section \<open>The system\<close>

datatype ('i, 'm) mq_label =
    CallStart | FlushItem | FlushMessage | FlushDefault
  | CallStop | StopReturn nat
  | CallEnqueue 'i | CallHandle 'm
  | RunQuit nat | RunMessage nat | RunTake nat | RunTimeout nat

fun mq_step :: "('i, 'm) mq_config \<Rightarrow> ('i, 'm) mq_label \<Rightarrow> ('i, 'm) MessageQueue \<Rightarrow>
    ('i, 'm) MessageQueue option" where
  "mq_step cfg CallStart q = Start q"
| "mq_step cfg FlushItem q = flush_item q"
| "mq_step cfg FlushMessage q = flush_message q"
| "mq_step cfg FlushDefault q = flush_default q"
| "mq_step cfg CallStop q = Stop q"
| "mq_step cfg (StopReturn k) q = Stop_return k q"
| "mq_step cfg (CallEnqueue i) q = Some (snd (Enqueue cfg i q))"
| "mq_step cfg (CallHandle m) q = HandleReceivedMessage m q"
| "mq_step cfg (RunQuit k) q = run_quit k q"
| "mq_step cfg (RunMessage k) q = run_message cfg k q"
| "mq_step cfg (RunTake k) q = run_take cfg k q"
| "mq_step cfg (RunTimeout k) q = run_timeout k q"

abbreviation mq_reach :: "('i, 'm) mq_config \<Rightarrow> ('i, 'm) MessageQueue \<Rightarrow> bool" where
  "mq_reach cfg \<equiv> reach (mq_step cfg) NewMessageQueue"

lemmas mq_ops = Start_def flush_item_def flush_message_def flush_default_def Stop_def
  Stop_return_def Enqueue_def HandleReceivedMessage_def run_quit_def run_message_def run_take_def
  run_timeout_def

lemmas mq_updates = pc_of_def set_pc_def stop_timer_def fire_timer_def start_timer_def
  run_item_def record_event_def


section \<open>The structural invariant\<close>

text \<open>
  The lock holder determines the rest: a goroutine runs exactly while the queue is active or
  being stopped, there is never a second one, a timer runs exactly while an item waits for its
  response, and no channel holds more than its capacity.
\<close>

fun runners_ok :: "lock_pc \<Rightarrow> bool \<Rightarrow> chan_state \<Rightarrow> 'i run_pc list \<Rightarrow> bool" where
  "runners_ok InFlush act qt rs = (act \<and> qt = ChanOpen \<and> rs = [])"
| "runners_ok InStop act qt rs = (\<not> act \<and> qt = ChanClosed \<and> (\<exists>pc. rs = [pc]))"
| "runners_ok Unlocked act qt rs =
     (if act then qt = ChanOpen \<and> (\<exists>pc. rs = [pc] \<and> pc \<noteq> AtDone) else rs = [])"

fun timers_ok :: "int \<Rightarrow> 'i run_pc list \<Rightarrow> nat list \<Rightarrow> bool" where
  "timers_ok retries [AtItem i n t] ts = (ts = [t] \<and> n \<le> retries \<and> (0 \<le> retries \<longrightarrow> 0 \<le> n))"
| "timers_ok retries rs ts = (ts = [])"

definition mq_inv :: "('i, 'm) mq_config \<Rightarrow> ('i, 'm) MessageQueue \<Rightarrow> bool" where
  "mq_inv cfg q =
     (runners_ok (lock q) (active q) (quit q) (runners q) \<and>
      timers_ok (numRetries cfg) (runners q) (timers q) \<and>
      length (items q) \<le> queueSize cfg \<and>
      length (messages q) \<le> MESSAGE_QUEUE_INBOUND_QUEUE_SIZE)"

lemma runners_ok_short: "runners_ok l a qt rs \<Longrightarrow> length rs \<le> 1"
  by (cases l) (auto split: if_splits)

lemma mq_inv_preserved:
  assumes "mq_inv cfg q" and "mq_step cfg l q = Some q'"
  shows "mq_inv cfg q'"
proof -
  obtain rs where rs: "runners q = rs" by blast
  have "length rs \<le> 1"
    using assms(1) rs by (auto simp: mq_inv_def dest: runners_ok_short)
  show ?thesis
  proof (cases rs)
    case Nil
    then show ?thesis
      using assms rs
      by (cases l; cases "lock q")
         (auto simp: mq_inv_def mq_ops mq_updates Let_def split: if_splits list.splits)
  next
    case (Cons pc rs')
    with rs \<open>length rs \<le> 1\<close> have "runners q = [pc]" by simp
    then show ?thesis
      using assms
      by (cases l; cases "lock q"; cases pc)
         (auto simp: mq_inv_def mq_ops mq_updates Let_def split: if_splits list.splits)
  qed
qed

interpretation mq: ts_invariant "mq_step cfg" NewMessageQueue "mq_inv cfg"
  by unfold_locales (simp_all add: mq_inv_preserved, simp add: mq_inv_def NewMessageQueue_def)

end
