(* ===== verification/QueueCorrect.thy ===== *)
theory QueueCorrect
  imports MessageQueue
begin

text \<open>
  What the request queue of \<^verbatim>\<open>smartbus/messagequeue.go\<close> guarantees in every interleaving of
  its clients, its goroutine and its timers.
\<close>

section \<open>The event log\<close>

fun accepted :: "'i mq_event list \<Rightarrow> 'i list" where
  "accepted [] = []"
| "accepted (Accepted i # es) = i # accepted es"
| "accepted (_ # es) = accepted es"

fun taken_out :: "'i mq_event list \<Rightarrow> 'i list" where
  "taken_out [] = []"
| "taken_out (Removed i # es) = i # taken_out es"
| "taken_out (Discarded i # es) = i # taken_out es"
| "taken_out (_ # es) = taken_out es"

text \<open>
  How often each removed item was run, the latest first; undefined if anything but the item
  removed last was run.
\<close>

fun log_attempt :: "('i \<times> nat) list option \<Rightarrow> 'i mq_event \<Rightarrow> ('i \<times> nat) list option" where
  "log_attempt None e = None"
| "log_attempt (Some as) (Removed i) = Some ((i, 0) # as)"
| "log_attempt (Some as) (Ran i) =
     (case as of (j, c) # as' \<Rightarrow> if i = j then Some ((j, Suc c) # as') else None | [] \<Rightarrow> None)"
| "log_attempt (Some as) e = Some as"

definition attempts :: "'i mq_event list \<Rightarrow> ('i \<times> nat) list option" where
  "attempts es = foldl log_attempt (Some []) es"

lemma accepted_append [simp]: "accepted (xs @ ys) = accepted xs @ accepted ys"
  by (induction xs rule: accepted.induct) auto

lemma taken_out_append [simp]: "taken_out (xs @ ys) = taken_out xs @ taken_out ys"
  by (induction xs rule: taken_out.induct) auto

lemma attempts_append [simp]: "attempts (es @ es') = foldl log_attempt (attempts es) es'"
  by (simp add: attempts_def)

text \<open>The item channel is a first-in first-out queue.\<close>

definition mq_fifo :: "('i, 'm) MessageQueue \<Rightarrow> bool" where
  "mq_fifo q = (accepted (events q) = taken_out (events q) @ items q)"

lemma mq_fifo_preserved: "mq_fifo q \<Longrightarrow> mq_step cfg l q = Some q' \<Longrightarrow> mq_fifo q'"
  by (cases l)
     (auto simp: mq_fifo_def mq_ops mq_updates Let_def
       split: if_splits list.splits option.splits run_pc.splits)

interpretation fifo: ts_invariant "mq_step cfg" NewMessageQueue mq_fifo
  by unfold_locales (simp_all add: mq_fifo_preserved, simp add: mq_fifo_def NewMessageQueue_def)

text \<open>Attempts: the current item has used one run and the retries it no longer has.\<close>

fun attempts_ok :: "int \<Rightarrow> 'i run_pc list \<Rightarrow> ('i \<times> nat) list option \<Rightarrow> bool" where
  "attempts_ok r [AtItem i n t] (Some ((j, c) # as)) =
     (i = j \<and> int c = r - n + 1 \<and> (\<forall>(_, c') \<in> set ((j, c) # as). 1 \<le> c' \<and> int c' \<le> r + 1))"
| "attempts_ok r [AtItem i n t] x = False"
| "attempts_ok r rs (Some as) = (\<forall>(_, c) \<in> set as. 1 \<le> c \<and> int c \<le> r + 1)"
| "attempts_ok r rs None = False"

definition mq_attempts_inv :: "('i, 'm) mq_config \<Rightarrow> ('i, 'm) MessageQueue \<Rightarrow> bool" where
  "mq_attempts_inv cfg q =
     (mq_inv cfg q \<and>
      (0 \<le> numRetries cfg \<longrightarrow> attempts_ok (numRetries cfg) (runners q) (attempts (events q))))"

lemma attempts_ok_Nil:
  "attempts_ok r [] x \<longleftrightarrow> (\<exists>as. x = Some as \<and> (\<forall>(_, c) \<in> set as. 1 \<le> c \<and> int c \<le> r + 1))"
  by (cases x) auto

lemma attempts_ok_other:
  "pc = AtLoop \<or> pc = AtDone \<Longrightarrow> attempts_ok r [pc] x \<longleftrightarrow>
     (\<exists>as. x = Some as \<and> (\<forall>(_, c) \<in> set as. 1 \<le> c \<and> int c \<le> r + 1))"
  by (cases x) auto

lemma attempts_ok_item:
  "attempts_ok r [AtItem i n t] x \<longleftrightarrow>
     (\<exists>c as. x = Some ((i, c) # as) \<and> int c = r - n + 1 \<and> 
        (\<forall>(_, c') \<in> set ((i, c) # as). 1 \<le> c' \<and> int c' \<le> r + 1))"
  by (cases "(r, [AtItem i n t], x)" rule: attempts_ok.cases) auto

lemmas attempts_ok_iffs = attempts_ok_Nil attempts_ok_other attempts_ok_item

lemma mq_attempts_preserved:
  assumes "mq_attempts_inv cfg q" and "mq_step cfg l q = Some q'"
  shows "mq_attempts_inv cfg q'"
proof -
  have inv: "mq_inv cfg q" "mq_inv cfg q'"
    using assms mq_inv_preserved by (auto simp: mq_attempts_inv_def)
  have len: "length (runners q) \<le> 1"
    using inv(1) by (auto simp: mq_inv_def dest: runners_ok_short)
  have "attempts_ok (numRetries cfg) (runners q') (attempts (events q'))"
    if r: "0 \<le> numRetries cfg"
  proof (cases "runners q")
    case Nil
    then show ?thesis
      using assms inv r
      by (cases l)
         (auto simp: mq_attempts_inv_def mq_ops mq_updates Let_def attempts_ok_iffs
           split: if_splits list.splits)
  next
    case (Cons pc rs)
    then have q: "runners q = [pc]" using len by simp
    then show ?thesis
      using assms inv r
      by (cases l; cases pc)
         (auto simp: mq_attempts_inv_def mq_inv_def mq_ops mq_updates Let_def attempts_ok_iffs
           split: if_splits list.splits)
  qed
  with inv show ?thesis by (simp add: mq_attempts_inv_def)
qed

interpretation attempts: ts_invariant "mq_step cfg" NewMessageQueue "mq_attempts_inv cfg"
  by unfold_locales
     (simp_all add: mq_attempts_preserved,
      simp add: mq_attempts_inv_def mq.init, simp add: NewMessageQueue_def attempts_def)

lemma attempts_bounded:
  assumes "mq_reach cfg q" and "0 \<le> numRetries cfg"
  shows "\<exists>as. attempts (events q) = Some as \<and> (\<forall>(i, c) \<in> set as. 1 \<le> c \<and> int c \<le> numRetries cfg + 1)"
proof -
  have "attempts_ok (numRetries cfg) (runners q) (attempts (events q))"
    using attempts.reach_inv [OF assms(1)] assms(2) by (simp add: mq_attempts_inv_def)
  then show ?thesis
    by (cases "(numRetries cfg, runners q, attempts (events q))" rule: attempts_ok.cases) auto
qed


section \<open>Quiescence\<close>

text \<open>
  The steps of the goroutines themselves, that is, all but the calls of the clients, and a
  measure each of them lowers: with \<open>r\<close> retries an item costs at most \<open>r + 4\<close> steps.
\<close>

fun internal :: "('i, 'm) mq_label \<Rightarrow> bool" where
  "internal CallStart = False"
| "internal CallStop = False"
| "internal (CallEnqueue i) = False"
| "internal (CallHandle m) = False"
| "internal _ = True"

fun pc_work :: "'i run_pc \<Rightarrow> nat" where
  "pc_work AtLoop = 2"
| "pc_work (AtItem i n t) = nat n + 3"
| "pc_work AtDone = 1"

definition pending_work :: "nat \<Rightarrow> ('i, 'm) MessageQueue \<Rightarrow> nat" where
  "pending_work r q =
     length (messages q) + length (items q) * (r + 4) + sum_list (map pc_work (runners q)) +
     (if lock q = InFlush then 3 else 0)"

lemma pending_work_decreases:
  assumes "mq_inv (cfg\<lparr>numRetries := int r\<rparr>) q" and "internal l"
    and "mq_step (cfg\<lparr>numRetries := int r\<rparr>) l q = Some q'"
  shows "pending_work r q' < pending_work r q"
proof -
  have len: "length (runners q) \<le> 1"
    using assms(1) by (auto simp: mq_inv_def dest: runners_ok_short)
  show ?thesis
  proof (cases "runners q")
    case Nil
    then show ?thesis
      using assms
      by (cases l)
         (auto simp: pending_work_def mq_ops mq_updates Let_def split: if_splits list.splits)
  next
    case (Cons pc rs)
    then have q: "runners q = [pc]" using len by simp
    then show ?thesis
      using assms
      by (cases l; cases pc)
         (auto simp: pending_work_def mq_inv_def mq_ops mq_updates Let_def
           split: if_splits list.splits)
  qed
qed

interpretation quiet: ts_measure "mq_step (cfg\<lparr>numRetries := int r\<rparr>)" NewMessageQueue
    "mq_inv (cfg\<lparr>numRetries := int r\<rparr>)" internal "pending_work r"
  by unfold_locales (rule pending_work_decreases)

text \<open>A goroutine that runs has a step to take unless there is nothing left to do.\<close>

lemma quiescent_idle:
  assumes "mq_inv cfg q" and "\<And>l. internal l \<Longrightarrow> mq_step cfg l q = None"
  shows "lock q = Unlocked \<and> timers q = [] \<and> (active q \<longrightarrow> items q = [] \<and> messages q = [])"
proof -
  note none = assms(2)
  have lock: "lock q = Unlocked"
    using assms(1) none [of FlushItem] none [of FlushMessage] none [of FlushDefault]
      none [of "RunQuit 0"] none [of "StopReturn 0"]
    by (cases "lock q")
       (auto simp: mq_inv_def mq_ops mq_updates split: list.splits option.splits run_pc.splits)
  show ?thesis
  proof (cases "active q")
    case False
    then show ?thesis using lock assms(1) by (auto simp: mq_inv_def)
  next
    case True
    with lock assms(1) obtain pc where pc: "runners q = [pc]" "pc \<noteq> AtDone"
      by (auto simp: mq_inv_def)
    then show ?thesis
      using lock assms(1) none [of "RunTake 0"] none [of "RunMessage 0"] none [of "RunTimeout 0"]
      by (cases pc) (auto simp: mq_inv_def mq_ops mq_updates Let_def split: list.splits)
  qed
qed

lemma set_numRetries: "0 \<le> numRetries cfg \<Longrightarrow> cfg\<lparr>numRetries := int (nat (numRetries cfg))\<rparr> = cfg"
  by simp

lemma pending_work_bound:
  assumes "mq_inv cfg q" and "0 \<le> numRetries cfg"
  shows "pending_work (nat (numRetries cfg)) q \<le>
     10 + queueSize cfg * (nat (numRetries cfg) + 4) + (nat (numRetries cfg) + 3)"
proof -
  let ?r = "nat (numRetries cfg)"
  have "sum_list (map pc_work (runners q)) + (if lock q = InFlush then 3 else 0) \<le> ?r + 3"
  proof (cases "runners q")
    case Nil
    then show ?thesis by simp
  next
    case (Cons pc rs)
    then have "runners q = [pc]" "lock q \<noteq> InFlush"
      using assms(1) by (cases "lock q"; auto simp: mq_inv_def split: if_splits)+
    then show ?thesis using assms by (cases pc) (auto simp: mq_inv_def)
  qed
  moreover have "length (messages q) \<le> 10"
    using assms(1) by (simp add: mq_inv_def MESSAGE_QUEUE_INBOUND_QUEUE_SIZE_def)
  moreover have "length (items q) * (?r + 4) \<le> queueSize cfg * (?r + 4)"
    using assms(1) by (simp add: mq_inv_def)
  ultimately show ?thesis
    unfolding pending_work_def
    using add_mono [OF add_mono] by (metis (no_types, lifting) add.assoc)
qed

lemma reach_quiescent:
  assumes "mq_inv cfg q" and "0 \<le> numRetries cfg"
  shows "\<exists>ls q'. list_all internal ls \<and> exec (mq_step cfg) ls q = Some q' \<and>
     (\<forall>l. internal l \<longrightarrow> mq_step cfg l q' = None)"
  using assms(1)
proof (induction "pending_work (nat (numRetries cfg)) q" arbitrary: q rule: less_induct)
  case less
  show ?case
  proof (cases "\<forall>l. internal l \<longrightarrow> mq_step cfg l q = None")
    case True
    then show ?thesis by (intro exI [of _ "[]"] exI [of _ q]) simp
  next
    case False
    then obtain l q1 where l: "internal l" "mq_step cfg l q = Some q1" by auto
    then have "pending_work (nat (numRetries cfg)) q1 < pending_work (nat (numRetries cfg)) q"
      using pending_work_decreases [where cfg = cfg and r = "nat (numRetries cfg)" and q = q and l = l] less.prems assms(2)
      by (simp add: set_numRetries)
    then obtain ls q' where "list_all internal ls" "exec (mq_step cfg) ls q1 = Some q'"
      "\<forall>l. internal l \<longrightarrow> mq_step cfg l q' = None"
      using less.hyps mq_inv_preserved [OF less.prems l(2)] by blast
    with l show ?thesis by (intro exI [of _ "l # ls"] exI [of _ q']) simp
  qed
qed


section \<open>A stopped queue\<close>

definition mq_stopped :: "('i, 'm) MessageQueue \<Rightarrow> bool" where
  "mq_stopped q = (lock q = Unlocked \<and> \<not> active q \<and> runners q = [])"

lemma stopped_step:
  assumes "mq_stopped q" and "mq_step cfg l q = Some q'" and "l \<noteq> CallStart"
  shows "mq_stopped q' \<and> length (messages q) \<le> length (messages q') \<and>
     (\<exists>es. events q' = events q @ es \<and> (\<forall>i. Ran i \<notin> set es))"
  using assms
  by (cases l)
     (auto simp: mq_stopped_def mq_ops mq_updates Let_def split: if_splits list.splits)

lemma stopped_exec:
  assumes "mq_stopped q" and "exec (mq_step cfg) ls q = Some q'" and "CallStart \<notin> set ls"
  shows "mq_stopped q' \<and> length (messages q) \<le> length (messages q') \<and>
     (\<exists>es. events q' = events q @ es \<and> (\<forall>i. Ran i \<notin> set es))"
proof (rule exec_preserves [where P = "\<lambda>q'. mq_stopped q' \<and> length (messages q) \<le> length (messages q') \<and>
     (\<exists>es. events q' = events q @ es \<and> (\<forall>i. Ran i \<notin> set es))", OF _ _ assms(2)])
  fix l q1 q2
  assume "l \<in> set ls" and q1: "mq_stopped q1 \<and> length (messages q) \<le> length (messages q1) \<and>
     (\<exists>es. events q1 = events q @ es \<and> (\<forall>i. Ran i \<notin> set es))" and "mq_step cfg l q1 = Some q2"
  with assms(3) stopped_step [of q1 cfg l q2] show "mq_stopped q2 \<and> length (messages q) \<le> length (messages q2) \<and>
     (\<exists>es. events q2 = events q @ es \<and> (\<forall>i. Ran i \<notin> set es))" by fastforce
qed (simp add: assms(1))


section \<open>Properties\<close>

text \<open>
  A configuration and a run used as examples, the ones of \<^verbatim>\<open>messagequeue_test.go\<close>: items and
  messages are numbers, an item is answered by the message of the same number, two retries and
  room for three items.
\<close>

definition test_config :: "(nat, nat) mq_config" where
  "test_config = \<lparr>IsResponse = (=), hasTimerFunc = True, numRetries = 2, queueSize = 3\<rparr>"

definition started :: "(nat, nat) mq_label list" where
  "started = [CallStart, FlushDefault]"

lemmas run_defs = test_config_def started_def NewMessageQueue_def mq_ops mq_updates Let_def
  MESSAGE_QUEUE_INBOUND_QUEUE_SIZE_def

text \<open>
  (C30) In every reachable state at most one goroutine executes \<^verbatim>\<open>run\<close>, both channels are within
  their capacity, and exactly the timer of the item being processed is running: none is leaked
  on a response, a time-out or a stop.
\<close>

theorem queue_safe:
  assumes "mq_reach cfg q"
  shows "length (runners q) \<le> 1 \<and> length (items q) \<le> queueSize cfg \<and>
     length (messages q) \<le> MESSAGE_QUEUE_INBOUND_QUEUE_SIZE \<and>
     timers q = (case runners q of [AtItem i n t] \<Rightarrow> [t] | _ \<Rightarrow> [])"
proof -
  note inv = mq.reach_inv [OF assms]
  then have "length (runners q) \<le> 1" by (auto simp: mq_inv_def dest: runners_ok_short)
  moreover from this have "timers q = (case runners q of [AtItem i n t] \<Rightarrow> [t] | _ \<Rightarrow> [])"
    using inv by (auto simp: mq_inv_def split: list.splits run_pc.splits)
  ultimately show ?thesis using inv by (simp add: mq_inv_def)
qed

theorem queue_safe_witness:
  "\<exists>q. exec (mq_step test_config) (started @ [CallEnqueue 42, CallEnqueue 43, RunTake 0]) NewMessageQueue
       = Some q \<and> timers q = [1] \<and> length (runners q) \<le> 1"
proof -
  obtain q where q: "exec (mq_step test_config) (started @ [CallEnqueue 42, CallEnqueue 43, RunTake 0])
      NewMessageQueue = Some q" and pc: "runners q = [AtItem 42 2 1]"
    by (simp add: run_defs)
  from queue_safe [OF exec_reach [OF q]] pc q show ?thesis by auto
qed

text \<open>
  The items the queue accepted are, in their order, those taken out so far followed by those
  still waiting: none is lost, duplicated or overtaken.
\<close>

theorem queue_fifo:
  assumes "mq_reach cfg q"
  shows "accepted (events q) = taken_out (events q) @ items q"
  using fifo.reach_inv [OF assms] by (simp add: mq_fifo_def)

theorem queue_fifo_witness:
  "\<exists>q. exec (mq_step test_config) (started @ [CallEnqueue 42, CallEnqueue 43, RunTake 0]) NewMessageQueue
       = Some q \<and> items q = [43] \<and> accepted (events q) = [42] @ [43]"
proof -
  obtain q where q: "exec (mq_step test_config) (started @ [CallEnqueue 42, CallEnqueue 43, RunTake 0])
      NewMessageQueue = Some q" and "items q = [43]" "taken_out (events q) = [42]"
    by (simp add: run_defs)
  with queue_fifo [OF exec_reach [OF q]] show ?thesis by auto
qed

text \<open>
  (C9) An item is run only between its removal from the channel and the next removal, at least
  once and at most once more than the number of retries.
\<close>

theorem queue_retries_bounded:
  assumes "mq_reach cfg q" and "0 \<le> numRetries cfg"
  shows "\<exists>as. attempts (events q) = Some as \<and> (\<forall>(i, c) \<in> set as. 1 \<le> c \<and> int c \<le> numRetries cfg + 1)"
  by (rule attempts_bounded [OF assms])

lemma retries_run:
  "exec (mq_step test_config) (started @ [CallEnqueue 45, CallEnqueue 46, RunTake 0, RunTimeout 0,
      RunTimeout 0, RunTimeout 0, RunTake 0, CallHandle 46, RunMessage 0]) NewMessageQueue =
    Some (NewMessageQueue\<lparr>active := True, quit := ChanOpen, runners := [AtLoop], timerCount := 4,
      events := [Accepted 45, Accepted 46, Removed 45, Ran 45, TimerStarted 1, TimerFired 1, Ran 45,
        TimerStarted 2, TimerFired 2, Ran 45, TimerStarted 3, TimerFired 3, GaveUp 45, Removed 46,
        Ran 46, TimerStarted 4, TimerStopped 4]\<rparr>)"
  by (simp add: run_defs)

theorem queue_retries_bounded_witness:
  "\<exists>q. mq_reach test_config q \<and> attempts (events q) = Some [(46, 1), (45, 3)] \<and>
     (3 :: int) \<le> numRetries test_config + 1"
proof -
  obtain q where q: "mq_reach test_config q" and as: "attempts (events q) = Some [(46, 1), (45, 3)]"
    using exec_reach [OF retries_run] by (rule that) (simp add: attempts_def)
  have "0 \<le> numRetries test_config" by (simp add: test_config_def)
  from queue_retries_bounded [OF q this] as q show ?thesis by auto
qed

text \<open>
  (C10) Left alone, the queue finishes, provided that \<^verbatim>\<open>item.Run()\<close> returns whenever it is called
  (here it is part of a step): from every reachable state its goroutines can take only a bounded
  number of steps before they need a client again, and there is a way for them to take them that
  ends with the lock free, no timer running and, if the queue is active, every accepted item
  processed.
\<close>

theorem queue_quiesces:
  assumes "mq_reach cfg q" and "0 \<le> numRetries cfg"
  shows "(\<forall>ls q'. list_all internal ls \<longrightarrow> exec (mq_step cfg) ls q = Some q' \<longrightarrow>
       length ls \<le> 10 + queueSize cfg * (nat (numRetries cfg) + 4) + (nat (numRetries cfg) + 3)) \<and>
     (\<exists>ls q'. list_all internal ls \<and> exec (mq_step cfg) ls q = Some q' \<and> lock q' = Unlocked \<and>
       timers q' = [] \<and> (active q' \<longrightarrow> items q' = [] \<and> messages q' = []))"
proof -
  note inv = mq.reach_inv [OF assms(1)]
  have "length ls \<le> 10 + queueSize cfg * (nat (numRetries cfg) + 4) + (nat (numRetries cfg) + 3)"
    if "list_all internal ls" "exec (mq_step cfg) ls q = Some q'" for ls q'
    using quiet.internal_run_bounded [where cfg = cfg and r = "nat (numRetries cfg)" and s = q,
        unfolded set_numRetries [OF assms(2)], OF inv that] pending_work_bound [OF inv assms(2)]
    by linarith
  moreover obtain ls q' where run: "list_all internal ls" "exec (mq_step cfg) ls q = Some q'"
    and none: "\<forall>l. internal l \<longrightarrow> mq_step cfg l q' = None"
    using reach_quiescent [OF inv assms(2)] by blast
  moreover have "mq_inv cfg q'"
    using mq.reach_inv reach_trans [OF exec_reach [OF run(2)] assms(1)] by blast
  ultimately show ?thesis using quiescent_idle [of cfg q'] by blast
qed

theorem queue_quiesces_witness:
  "\<exists>q. exec (mq_step test_config) (started @ [CallEnqueue 42]) NewMessageQueue = Some q \<and>
     (\<exists>ls q'. list_all internal ls \<and> exec (mq_step test_config) ls q = Some q' \<and> timers q' = [])"
proof -
  obtain q where q: "exec (mq_step test_config) (started @ [CallEnqueue 42]) NewMessageQueue = Some q"
    by (simp add: run_defs)
  have "0 \<le> numRetries test_config" by (simp add: test_config_def)
  from queue_quiesces [OF exec_reach [OF q] this] q show ?thesis by blast
qed

text \<open>
  (C29) A call of \<^verbatim>\<open>Stop\<close> can always return, provided that \<^verbatim>\<open>item.Run()\<close> returns: from every
  reachable state in which it waits, at most two steps of the goroutine end it, with no goroutine
  and no timer left.
\<close>

theorem queue_stop_returns:
  assumes "mq_reach cfg q" and "lock q = InStop"
  shows "\<exists>ls q'. length ls \<le> 2 \<and> exec (mq_step cfg) ls q = Some q' \<and> lock q' = Unlocked \<and>
     runners q' = [] \<and> timers q' = []"
proof -
  note inv = mq.reach_inv [OF assms(1)]
  then obtain pc where pc: "runners q = [pc]" "quit q = ChanClosed"
    using assms(2) by (auto simp: mq_inv_def)
  show ?thesis
  proof (cases "pc = AtDone")
    case True
    with pc assms(2) inv show ?thesis
      by (intro exI [of _ "[StopReturn 0]"] exI [of _ "q\<lparr>lock := Unlocked, runners := []\<rparr>"])
         (simp add: mq_ops mq_inv_def)
  next
    case False
    with pc assms(2) inv show ?thesis
      by (intro exI [of _ "[RunQuit 0, StopReturn 0]"])
         (cases pc; simp add: mq_ops mq_updates mq_inv_def)
  qed
qed

theorem queue_stop_returns_witness:
  "\<exists>q ls q'. exec (mq_step test_config) (started @ [CallEnqueue 42, RunTake 0, CallStop]) NewMessageQueue
     = Some q \<and> exec (mq_step test_config) ls q = Some q' \<and> lock q' = Unlocked \<and> timers q' = []"
proof -
  obtain q where q: "exec (mq_step test_config) (started @ [CallEnqueue 42, RunTake 0, CallStop])
      NewMessageQueue = Some q" and l: "lock q = InStop"
    by (simp add: run_defs)
  from queue_stop_returns [OF exec_reach [OF q] l] q show ?thesis by blast
qed

text \<open>
  Between a stop and the next start nothing is run, and once ten messages have arrived the
  next call of \<^verbatim>\<open>HandleReceivedMessage\<close> blocks until the queue is started again.
\<close>

theorem stopped_queue:
  assumes "mq_reach cfg q" and "lock q = Unlocked" and "\<not> active q"
    and "exec (mq_step cfg) ls q = Some q'" and "CallStart \<notin> set ls"
  shows "(\<exists>es. events q' = events q @ es \<and> (\<forall>i. Ran i \<notin> set es)) \<and>
     (length (messages q) = MESSAGE_QUEUE_INBOUND_QUEUE_SIZE \<longrightarrow> HandleReceivedMessage m q' = None)"
proof -
  have "mq_stopped q"
    using mq.reach_inv [OF assms(1)] assms(2,3) by (auto simp: mq_stopped_def mq_inv_def)
  from stopped_exec [OF this assms(4,5)] show ?thesis by (auto simp: HandleReceivedMessage_def)
qed

theorem stopped_queue_witness:
  "\<exists>q. exec (mq_step test_config) (map CallHandle [0..<10]) NewMessageQueue = Some q \<and>
     HandleReceivedMessage 10 q = None"
proof -
  have up: "[0..<10] = [0, 1, 2, 3, 4, 5, 6, 7, 8, 9 :: nat]" by (simp add: upt_rec)
  obtain q where q: "exec (mq_step test_config) (map CallHandle [0..<10]) NewMessageQueue = Some q"
    and s: "lock q = Unlocked" "\<not> active q" "length (messages q) = 10"
    by (simp add: run_defs up)
  from stopped_queue [OF exec_reach [OF q] s(1,2), of "[]" q 10] q s(3)
  show ?thesis by (auto simp: MESSAGE_QUEUE_INBOUND_QUEUE_SIZE_def)
qed

end
