(* ===== verification/Connection.thy ===== *)
theory Connection
  imports Frame
begin

text \<open>
  Endpoints and devices, \<^verbatim>\<open>smartbus/connection.go\<close>. An endpoint stamps its address on what it
  sends and sorts what arrives into messages for its observers and messages for its sniffers.

  Observers are called through \<^verbatim>\<open>wbgo.Visit\<close>, a function of a third-party package. It is a
  parameter, \<open>visit\<close>: from the names of the observer's methods, the prefix and the name of the
  message's type to the name of the method it calls. \<open>visit_spec\<close> is what its documentation
  promises: the method for the type if there is one, or else the one for \<^verbatim>\<open>Anything\<close>, or else
  none. \<open>methods\<close> are the method sets of the observers.
\<close>

section \<open>Visitors\<close>

fun type_name :: "message \<Rightarrow> string" where
  "type_name (SingleChannelControlCommand _ _ _) = ''SingleChannelControlCommand''"
| "type_name (SingleChannelControlResponse _ _ _ _) = ''SingleChannelControlResponse''"
| "type_name (SceneControl _ _) = ''SceneControl''"
| "type_name (SceneControlResponse _ _ _) = ''SceneControlResponse''"
| "type_name (ZoneBeastBroadcast _ _) = ''ZoneBeastBroadcast''"
| "type_name QueryModules = ''QueryModules''"
| "type_name (QueryModulesResponse _ _ _ _ _ _) = ''QueryModulesResponse''"
| "type_name (PanelControlResponse _ _) = ''PanelControlResponse''"
| "type_name (QueryChannelStatuses _) = ''QueryChannelStatuses''"
| "type_name (QueryChannelStatusesResponse _) = ''QueryChannelStatusesResponse''"
| "type_name (QueryPanelButtonAssignment _ _) = ''QueryPanelButtonAssignment''"
| "type_name (QueryPanelButtonAssignmentResponse _ _ _ _ _ _ _ _) = ''QueryPanelButtonAssignmentResponse''"
| "type_name (AssignPanelButton _ _ _ _ _ _ _ _ _) = ''AssignPanelButton''"
| "type_name (AssignPanelButtonResponse _ _) = ''AssignPanelButtonResponse''"
| "type_name (SetPanelButtonModes _) = ''SetPanelButtonModes''"
| "type_name (SetPanelButtonModesResponse _) = ''SetPanelButtonModesResponse''"
| "type_name ReadMACAddress = ''ReadMACAddress''"
| "type_name (ReadMACAddressResponse _ _) = ''ReadMACAddressResponse''"
| "type_name (ReadTemperatureValues _) = ''ReadTemperatureValues''"
| "type_name (ReadTemperatureValuesResponse _ _) = ''ReadTemperatureValuesResponse''"
| "type_name ReadSensorStatus = ''ReadSensorStatus''"
| "type_name (ReadSensorStatusResponse _ _ _ _ _ _ _ _) = ''ReadSensorStatusResponse''"
| "type_name (SensorStatusBroadcast _ _ _ _ _ _ _) = ''SensorStatusBroadcast''"

definition visit_spec :: "(string list \<Rightarrow> string \<Rightarrow> string \<Rightarrow> string option) \<Rightarrow> bool" where
  "visit_spec visit =
     (\<forall>ms prefix t. visit ms prefix t =
        (if prefix @ t \<in> set ms then Some (prefix @ t)
         else if prefix @ ''Anything'' \<in> set ms then Some (prefix @ ''Anything'') else None))"

record 'o conn_ctx =
  visit :: "string list \<Rightarrow> string \<Rightarrow> string \<Rightarrow> string option"
  methods :: "'o \<Rightarrow> string list"

text \<open>What a connection does to the outside: calls a method of an observer, or sends a message.\<close>

datatype 'o conn_event =
    Called 'o string SmartbusMessage
  | SentToIO SmartbusMessage


section \<open>Endpoints\<close>

record SmartbusDevice =
  dev_SubnetID :: byte
  dev_DeviceID :: byte
  dev_DeviceType :: u16

record 'o SmartbusEndpoint =
  ep_SubnetID :: byte
  ep_DeviceID :: byte
  ep_DeviceType :: u16
  ep_deviceMap :: "(u16 \<times> SmartbusDevice) list"
  observers :: "'o list"
  inputSniffers :: "'o list"
  outputSniffers :: "'o list"

record 'o SmartbusConnection =
  endpoints :: "'o SmartbusEndpoint list"

definition NewSmartbusConnection :: "'o SmartbusConnection" where
  "NewSmartbusConnection = \<lparr>endpoints = []\<rparr>"

definition MakeSmartbusEndpoint :: "'o SmartbusConnection \<Rightarrow> byte \<Rightarrow> byte \<Rightarrow> u16 \<Rightarrow>
    'o SmartbusEndpoint \<times> 'o SmartbusConnection" where
  "MakeSmartbusEndpoint conn subnetID deviceID deviceType =
     (let ep = \<lparr>ep_SubnetID = subnetID, ep_DeviceID = deviceID, ep_DeviceType = deviceType,
            ep_deviceMap = [], observers = [], inputSniffers = [], outputSniffers = []\<rparr>
      in (ep, conn\<lparr>endpoints := endpoints conn @ [ep]\<rparr>))"

definition deviceKey :: "byte \<Rightarrow> byte \<Rightarrow> u16" where
  "deviceKey subnetID deviceID = push_bit 8 (ucast subnetID) + ucast deviceID"

definition GetSmartbusDevice :: "'o SmartbusEndpoint \<Rightarrow> byte \<Rightarrow> byte \<Rightarrow>
    SmartbusDevice \<times> 'o SmartbusEndpoint" where
  "GetSmartbusDevice ep subnetID deviceID =
     (case map_of (ep_deviceMap ep) (deviceKey subnetID deviceID) of
        Some dev \<Rightarrow> (dev, ep)
      | None \<Rightarrow>
          let dev = \<lparr>dev_SubnetID = subnetID, dev_DeviceID = deviceID, dev_DeviceType = 0\<rparr>
          in (dev, ep\<lparr>ep_deviceMap := AList.update (deviceKey subnetID deviceID) dev (ep_deviceMap ep)\<rparr>))"

definition GetBroadcastDevice :: "'o SmartbusEndpoint \<Rightarrow> SmartbusDevice \<times> 'o SmartbusEndpoint" where
  "GetBroadcastDevice ep = GetSmartbusDevice ep BROADCAST_SUBNET BROADCAST_DEVICE"

definition notify :: "'o conn_ctx \<Rightarrow> 'o list \<Rightarrow> SmartbusMessage \<Rightarrow> 'o conn_event list" where
  "notify ctx obs sm =
     concat (map (\<lambda>ob.
       case visit ctx (methods ctx ob) ''On'' (type_name (Message sm)) of
         Some meth \<Rightarrow> [Called ob meth sm]
       | None \<Rightarrow> []) obs)"

definition conn_Send :: "SmartbusMessage \<Rightarrow> 'o conn_event list" where
  "conn_Send sm = [SentToIO sm]"

definition ep_Send :: "'o conn_ctx \<Rightarrow> 'o SmartbusEndpoint \<Rightarrow> SmartbusMessage \<Rightarrow> 'o conn_event list" where
  "ep_Send ctx ep sm =
     (let sm' = sm\<lparr>Header := (Header sm)\<lparr>OrigSubnetID := ep_SubnetID ep,
            OrigDeviceID := ep_DeviceID ep, OrigDeviceType := ep_DeviceType ep\<rparr>\<rparr>
      in notify ctx (outputSniffers ep) sm' @ conn_Send sm')"

definition Observe :: "'o \<Rightarrow> 'o SmartbusEndpoint \<Rightarrow> 'o SmartbusEndpoint" where
  "Observe ob ep = ep\<lparr>observers := observers ep @ [ob]\<rparr>"

definition AddInputSniffer :: "'o \<Rightarrow> 'o SmartbusEndpoint \<Rightarrow> 'o SmartbusEndpoint" where
  "AddInputSniffer ob ep = ep\<lparr>inputSniffers := inputSniffers ep @ [ob]\<rparr>"

definition AddOutputSniffer :: "'o \<Rightarrow> 'o SmartbusEndpoint \<Rightarrow> 'o SmartbusEndpoint" where
  "AddOutputSniffer ob ep = ep\<lparr>outputSniffers := outputSniffers ep @ [ob]\<rparr>"

definition isMessageForUs :: "'o SmartbusEndpoint \<Rightarrow> SmartbusMessage \<Rightarrow> bool" where
  "isMessageForUs ep sm =
     (let h = Header sm in
      if TargetSubnetID h \<noteq> ep_SubnetID ep \<and> TargetSubnetID h \<noteq> BROADCAST_SUBNET then False
      else TargetDeviceID h = ep_DeviceID ep \<or> TargetDeviceID h = BROADCAST_DEVICE)"

definition maybeHandleMessage ::
    "'o conn_ctx \<Rightarrow> 'o SmartbusEndpoint \<Rightarrow> SmartbusMessage \<Rightarrow> 'o conn_event list" where
  "maybeHandleMessage ctx ep sm =
     (if isMessageForUs ep sm then notify ctx (observers ep) sm else notify ctx (inputSniffers ep) sm)"

text \<open>The goroutine of \<^verbatim>\<open>run\<close>, on the messages received from the channel.\<close>

definition conn_run :: "'o conn_ctx \<Rightarrow> 'o SmartbusConnection \<Rightarrow> SmartbusMessage list \<Rightarrow> 'o conn_event list" where
  "conn_run ctx conn msgs =
     concat (map (\<lambda>sm. concat (map (\<lambda>ep. maybeHandleMessage ctx ep sm) (endpoints conn))) msgs)"


section \<open>Devices\<close>

definition zero_header :: MessageHeader where
  "zero_header = \<lparr>OrigSubnetID = 0, OrigDeviceID = 0, OrigDeviceType = 0, HeaderOpcode = 0,
     TargetSubnetID = 0, TargetDeviceID = 0\<rparr>"

definition dev_message :: "SmartbusDevice \<Rightarrow> message \<Rightarrow> SmartbusMessage" where
  "dev_message dev msg =
     \<lparr>Header = zero_header\<lparr>TargetSubnetID := dev_SubnetID dev, TargetDeviceID := dev_DeviceID dev\<rparr>,
      Message = msg\<rparr>"

definition dev_Send ::
    "'o conn_ctx \<Rightarrow> 'o SmartbusEndpoint \<Rightarrow> SmartbusDevice \<Rightarrow> message \<Rightarrow> 'o conn_event list" where
  "dev_Send ctx ep dev msg = ep_Send ctx ep (dev_message dev msg)"

definition dev_SingleChannelControl ::
    "'o conn_ctx \<Rightarrow> 'o SmartbusEndpoint \<Rightarrow> SmartbusDevice \<Rightarrow> byte \<Rightarrow> byte \<Rightarrow> u16 \<Rightarrow> 'o conn_event list" where
  "dev_SingleChannelControl ctx ep dev channelNo level duration =
     dev_Send ctx ep dev (SingleChannelControlCommand channelNo level duration)"

definition dev_SingleChannelControlResponse ::
    "'o conn_ctx \<Rightarrow> 'o SmartbusEndpoint \<Rightarrow> SmartbusDevice \<Rightarrow> byte \<Rightarrow> bool \<Rightarrow> byte \<Rightarrow> bool list \<Rightarrow> 'o conn_event list" where
  "dev_SingleChannelControlResponse ctx ep dev channelNo success level status =
     dev_Send ctx ep dev (SingleChannelControlResponse channelNo success level status)"

definition dev_ZoneBeastBroadcast ::
    "'o conn_ctx \<Rightarrow> 'o SmartbusEndpoint \<Rightarrow> SmartbusDevice \<Rightarrow> byte list \<Rightarrow> bool list \<Rightarrow> 'o conn_event list" where
  "dev_ZoneBeastBroadcast ctx ep dev zoneStatus channelStatus =
     dev_Send ctx ep dev (ZoneBeastBroadcast zoneStatus channelStatus)"

definition dev_QueryModules ::
    "'o conn_ctx \<Rightarrow> 'o SmartbusEndpoint \<Rightarrow> SmartbusDevice \<Rightarrow> 'o conn_event list" where
  "dev_QueryModules ctx ep dev =
     dev_Send ctx ep dev QueryModules"

definition dev_QueryModulesResponse ::
    "'o conn_ctx \<Rightarrow> 'o SmartbusEndpoint \<Rightarrow> SmartbusDevice \<Rightarrow> byte \<Rightarrow> byte \<Rightarrow> 'o conn_event list" where
  "dev_QueryModulesResponse ctx ep dev deviceCategory channelNo =
     dev_Send ctx ep dev (QueryModulesResponse (ep_SubnetID ep) (ep_DeviceID ep) deviceCategory channelNo (ep_SubnetID ep) (ep_DeviceID ep))"

definition dev_PanelControlResponse ::
    "'o conn_ctx \<Rightarrow> 'o SmartbusEndpoint \<Rightarrow> SmartbusDevice \<Rightarrow> byte \<Rightarrow> byte \<Rightarrow> 'o conn_event list" where
  "dev_PanelControlResponse ctx ep dev type val =
     dev_Send ctx ep dev (PanelControlResponse type val)"

definition dev_QueryChannelStatuses ::
    "'o conn_ctx \<Rightarrow> 'o SmartbusEndpoint \<Rightarrow> SmartbusDevice \<Rightarrow> byte \<Rightarrow> 'o conn_event list" where
  "dev_QueryChannelStatuses ctx ep dev index =
     dev_Send ctx ep dev (QueryChannelStatuses index)"

definition dev_QueryChannelStatusesResponse ::
    "'o conn_ctx \<Rightarrow> 'o SmartbusEndpoint \<Rightarrow> SmartbusDevice \<Rightarrow> byte list \<Rightarrow> 'o conn_event list" where
  "dev_QueryChannelStatusesResponse ctx ep dev channelStatus =
     dev_Send ctx ep dev (QueryChannelStatusesResponse channelStatus)"

definition dev_QueryPanelButtonAssignment ::
    "'o conn_ctx \<Rightarrow> 'o SmartbusEndpoint \<Rightarrow> SmartbusDevice \<Rightarrow> byte \<Rightarrow> byte \<Rightarrow> 'o conn_event list" where
  "dev_QueryPanelButtonAssignment ctx ep dev buttonNo functionNo =
     dev_Send ctx ep dev (QueryPanelButtonAssignment buttonNo functionNo)"

definition dev_QueryPanelButtonAssignmentResponse ::
    "'o conn_ctx \<Rightarrow> 'o SmartbusEndpoint \<Rightarrow> SmartbusDevice \<Rightarrow> byte \<Rightarrow> byte \<Rightarrow> byte \<Rightarrow> byte \<Rightarrow> byte \<Rightarrow> byte \<Rightarrow> byte \<Rightarrow> u16 \<Rightarrow> 'o conn_event list" where
  "dev_QueryPanelButtonAssignmentResponse ctx ep dev buttonNo functionNo command commandSubnetID commandDeviceID channelNo level duration =
     dev_Send ctx ep dev (QueryPanelButtonAssignmentResponse buttonNo functionNo command commandSubnetID commandDeviceID channelNo level duration)"

definition dev_AssignPanelButton ::
    "'o conn_ctx \<Rightarrow> 'o SmartbusEndpoint \<Rightarrow> SmartbusDevice \<Rightarrow> byte \<Rightarrow> byte \<Rightarrow> byte \<Rightarrow> byte \<Rightarrow> byte \<Rightarrow> byte \<Rightarrow> byte \<Rightarrow> u16 \<Rightarrow> 'o conn_event list" where
  "dev_AssignPanelButton ctx ep dev buttonNo functionNo command commandSubnetID commandDeviceID channelNo level duration =
     dev_Send ctx ep dev (AssignPanelButton buttonNo functionNo command commandSubnetID commandDeviceID channelNo level duration 0)"

definition dev_AssignPanelButtonResponse ::
    "'o conn_ctx \<Rightarrow> 'o SmartbusEndpoint \<Rightarrow> SmartbusDevice \<Rightarrow> byte \<Rightarrow> byte \<Rightarrow> 'o conn_event list" where
  "dev_AssignPanelButtonResponse ctx ep dev buttonNo functionNo =
     dev_Send ctx ep dev (AssignPanelButtonResponse buttonNo functionNo)"

definition dev_SetPanelButtonModes ::
    "'o conn_ctx \<Rightarrow> 'o SmartbusEndpoint \<Rightarrow> SmartbusDevice \<Rightarrow> string list \<Rightarrow> 'o conn_event list" where
  "dev_SetPanelButtonModes ctx ep dev modes =
     dev_Send ctx ep dev (SetPanelButtonModes modes)"

definition dev_SetPanelButtonModesResponse ::
    "'o conn_ctx \<Rightarrow> 'o SmartbusEndpoint \<Rightarrow> SmartbusDevice \<Rightarrow> bool \<Rightarrow> 'o conn_event list" where
  "dev_SetPanelButtonModesResponse ctx ep dev success =
     dev_Send ctx ep dev (SetPanelButtonModesResponse success)"

definition dev_ReadMACAddress ::
    "'o conn_ctx \<Rightarrow> 'o SmartbusEndpoint \<Rightarrow> SmartbusDevice \<Rightarrow> 'o conn_event list" where
  "dev_ReadMACAddress ctx ep dev =
     dev_Send ctx ep dev ReadMACAddress"

definition dev_ReadMACAddressResponse ::
    "'o conn_ctx \<Rightarrow> 'o SmartbusEndpoint \<Rightarrow> SmartbusDevice \<Rightarrow> byte list \<Rightarrow> byte list \<Rightarrow> 'o conn_event list" where
  "dev_ReadMACAddressResponse ctx ep dev macAddress remark =
     dev_Send ctx ep dev (ReadMACAddressResponse macAddress remark)"

definition dev_ReadTemperatureValues ::
    "'o conn_ctx \<Rightarrow> 'o SmartbusEndpoint \<Rightarrow> SmartbusDevice \<Rightarrow> bool \<Rightarrow> 'o conn_event list" where
  "dev_ReadTemperatureValues ctx ep dev useCelsius =
     dev_Send ctx ep dev (ReadTemperatureValues useCelsius)"

definition dev_ReadTemperatureValuesResponse ::
    "'o conn_ctx \<Rightarrow> 'o SmartbusEndpoint \<Rightarrow> SmartbusDevice \<Rightarrow> bool \<Rightarrow> byte list \<Rightarrow> 'o conn_event list" where
  "dev_ReadTemperatureValuesResponse ctx ep dev useCelsius temps =
     dev_Send ctx ep dev (ReadTemperatureValuesResponse useCelsius temps)"

definition dev_SceneControl ::
    "'o conn_ctx \<Rightarrow> 'o SmartbusEndpoint \<Rightarrow> SmartbusDevice \<Rightarrow> byte \<Rightarrow> byte \<Rightarrow> 'o conn_event list" where
  "dev_SceneControl ctx ep dev zoneNo sceneNo =
     dev_Send ctx ep dev (SceneControl zoneNo sceneNo)"

definition dev_SceneControlResponse ::
    "'o conn_ctx \<Rightarrow> 'o SmartbusEndpoint \<Rightarrow> SmartbusDevice \<Rightarrow> byte \<Rightarrow> byte \<Rightarrow> bool list \<Rightarrow> 'o conn_event list" where
  "dev_SceneControlResponse ctx ep dev zoneNo sceneNo channelStatus =
     dev_Send ctx ep dev (SceneControlResponse zoneNo sceneNo channelStatus)"

definition dev_ReadSensorStatus ::
    "'o conn_ctx \<Rightarrow> 'o SmartbusEndpoint \<Rightarrow> SmartbusDevice \<Rightarrow> 'o conn_event list" where
  "dev_ReadSensorStatus ctx ep dev =
     dev_Send ctx ep dev ReadSensorStatus"

definition dev_ReadSensorStatusResponse ::
    "'o conn_ctx \<Rightarrow> 'o SmartbusEndpoint \<Rightarrow> SmartbusDevice \<Rightarrow> bool \<Rightarrow> int \<Rightarrow> u16 \<Rightarrow> bool \<Rightarrow> bool \<Rightarrow> bool \<Rightarrow> 'o conn_event list" where
  "dev_ReadSensorStatusResponse ctx ep dev success temperature illumination movement dryContact1 dryContact2 =
     dev_Send ctx ep dev (ReadSensorStatusResponse success temperature illumination movement dryContact1 dryContact2 0 0)"

definition dev_SensorStatusBroadcast ::
    "'o conn_ctx \<Rightarrow> 'o SmartbusEndpoint \<Rightarrow> SmartbusDevice \<Rightarrow> int \<Rightarrow> u16 \<Rightarrow> bool \<Rightarrow> bool \<Rightarrow> bool \<Rightarrow> 'o conn_event list" where
  "dev_SensorStatusBroadcast ctx ep dev temperature illumination movement dryContact1 dryContact2 =
     dev_Send ctx ep dev (SensorStatusBroadcast temperature illumination movement dryContact1 dryContact2 0 0)"

end
