(* ===== verification/ConnectionCorrect.thy ===== *)
theory ConnectionCorrect
  imports Connection FrameCorrect
begin

text \<open>
  What \<^verbatim>\<open>smartbus/connection.go\<close> guarantees: one device object per address, messages routed to
  observers or sniffers by their target address, origin addresses filled in on what is sent.
\<close>

section \<open>Device objects\<close>

lemma deviceKey_inj: "deviceKey a b = deviceKey c d \<longleftrightarrow> a = c \<and> b = d"
proof -
  have low: "\<not> bit b n" if "8 \<le> n" for b :: byte and n
    using bit_imp_le_length [of b n] that by auto
  have key: "deviceKey a b = Uint16 a b" for a b
    unfolding deviceKey_def Uint16_def
    by (rule disjunctive_add_eq_or) (auto intro!: bit_word_eqI simp: bit_simps low)
  show ?thesis
    by (metis key be16_Uint16 list.inject)
qed

text \<open>
  A cache that makes an object on the first request for a key and then returns the same object:
  \<open>get\<close> as the client calls it, \<open>peek\<close> what is there.
\<close>

locale object_cache =
  fixes get :: "'s \<Rightarrow> 'k \<Rightarrow> 'd \<times> 's" and peek :: "'s \<Rightarrow> 'k \<Rightarrow> 'd option"
  assumes get_miss: "get s k = (d, s') \<Longrightarrow> peek s' k = Some d"
    and get_hit: "peek s k = Some d \<Longrightarrow> get s k = (d, s)"
    and get_frame: "get s k = (d, s') \<Longrightarrow> k' \<noteq> k \<Longrightarrow> peek s' k' = peek s k'"
begin

lemma peek_get: "peek s k' = Some d \<Longrightarrow> peek (snd (get s k)) k' = Some d"
  by (metis get_frame get_hit prod.collapse snd_conv)

lemma peek_gets: "peek s k = Some d \<Longrightarrow> peek (foldl (\<lambda>s k. snd (get s k)) s ks) k = Some d"
  by (induction ks arbitrary: s) (auto simp: peek_get)

text \<open>Whatever is requested in between, a second request returns the object of the first.\<close>

lemma get_stable:
  assumes "get s k = (d, s')"
  shows "fst (get (foldl (\<lambda>s k. snd (get s k)) s' ks) k) = d"
  using get_hit [OF peek_gets [OF get_miss [OF assms]]] by simp

end

definition ep_peek :: "'o SmartbusEndpoint \<Rightarrow> byte \<times> byte \<Rightarrow> SmartbusDevice option" where
  "ep_peek ep = (\<lambda>(s, d). map_of (ep_deviceMap ep) (deviceKey s d))"

definition ep_get :: "'o SmartbusEndpoint \<Rightarrow> byte \<times> byte \<Rightarrow> SmartbusDevice \<times> 'o SmartbusEndpoint" where
  "ep_get ep = (\<lambda>(s, d). GetSmartbusDevice ep s d)"

interpretation devices: object_cache ep_get ep_peek
  by unfold_locales
     (auto simp: ep_get_def ep_peek_def GetSmartbusDevice_def Let_def update_conv' deviceKey_inj
       split: option.splits if_splits)

definition map_ok :: "'o SmartbusEndpoint \<Rightarrow> bool" where
  "map_ok ep = (\<forall>(k, d) \<in> set (ep_deviceMap ep). k = deviceKey (dev_SubnetID d) (dev_DeviceID d))"

lemma set_update_subset: "set (AList.update k v al) \<subseteq> insert (k, v) (set al)"
  by (induction al) auto

lemma get_address:
  assumes "map_ok ep" and "ep_get ep (a, b) = (d, ep')"
  shows "dev_SubnetID d = a \<and> dev_DeviceID d = b \<and> map_ok ep'"
proof (cases "map_of (ep_deviceMap ep) (deviceKey a b)")
  case None
  then have ep': "ep' = ep\<lparr>ep_deviceMap := AList.update (deviceKey a b) d (ep_deviceMap ep)\<rparr>" and
    d: "d = \<lparr>dev_SubnetID = a, dev_DeviceID = b, dev_DeviceType = 0\<rparr>"
    using assms(2) by (auto simp: ep_get_def GetSmartbusDevice_def Let_def)
  have "map_ok ep'"
    using assms(1) ep' d set_update_subset [of "deviceKey a b" d "ep_deviceMap ep"]
    by (fastforce simp: map_ok_def)
  then show ?thesis using d by simp
next
  case (Some d')
  then have "d' = d" "ep' = ep" using assms(2) by (auto simp: ep_get_def GetSmartbusDevice_def)
  with map_of_SomeD [OF Some] assms(1) show ?thesis
    by (auto simp: map_ok_def deviceKey_inj)
qed

lemma gets_map_ok: "map_ok ep \<Longrightarrow> map_ok (foldl (\<lambda>ep k. snd (ep_get ep k)) ep ks)"
proof (induction ks arbitrary: ep)
  case (Cons k ks)
  then show ?case using get_address [of ep "fst k" "snd k"] by (cases "ep_get ep k") auto
qed simp

definition get_all :: "'o SmartbusEndpoint \<Rightarrow> (byte \<times> byte) list \<Rightarrow> 'o SmartbusEndpoint" where
  "get_all = foldl (\<lambda>ep (s, d). snd (GetSmartbusDevice ep s d))"

text \<open>
  On an endpoint made by \<^verbatim>\<open>MakeSmartbusEndpoint\<close>, whatever devices were requested before,
  \<^verbatim>\<open>GetSmartbusDevice\<close> returns a device with the requested address, and every later request for
  that address returns the same device.
\<close>

theorem one_device_per_address:
  "case GetSmartbusDevice (get_all (fst (MakeSmartbusEndpoint conn a b t)) before) s d of
     (dev, ep) \<Rightarrow> dev_SubnetID dev = s \<and> dev_DeviceID dev = d \<and>
       fst (GetSmartbusDevice (get_all ep later) s d) = dev"
proof -
  have all: "get_all ep ks = foldl (\<lambda>ep k. snd (ep_get ep k)) ep ks" for ep :: "'a SmartbusEndpoint" and ks
    unfolding get_all_def by (rule foldl_cong) (auto simp: ep_get_def)
  let ?ep = "get_all (fst (MakeSmartbusEndpoint conn a b t)) before"
  have "map_ok ?ep"
    unfolding all by (rule gets_map_ok) (simp add: map_ok_def MakeSmartbusEndpoint_def Let_def)
  moreover obtain dev ep' where g: "ep_get ?ep (s, d) = (dev, ep')" by fastforce
  ultimately have "dev_SubnetID dev = s \<and> dev_DeviceID dev = d" using get_address by blast
  with g devices.get_stable [OF g, of later] show ?thesis
    by (simp add: all ep_get_def)
qed


section \<open>Routing\<close>

text \<open>The target address of a message is one the endpoint answers to.\<close>

definition addressed_to :: "MessageHeader \<Rightarrow> 'o SmartbusEndpoint \<Rightarrow> bool" where
  "addressed_to h ep =
     (TargetSubnetID h \<in> {ep_SubnetID ep, 0xff} \<and> TargetDeviceID h \<in> {ep_DeviceID ep, 0xff})"

lemma isMessageForUs_iff: "isMessageForUs ep sm \<longleftrightarrow> addressed_to (Header sm) ep"
  by (auto simp: isMessageForUs_def addressed_to_def Let_def BROADCAST_SUBNET_def BROADCAST_DEVICE_def)

lemma notify_Called:
  assumes "visit_spec (visit ctx)"
  shows "Called ob meth sm \<in> set (notify ctx obs sm') \<longleftrightarrow>
     ob \<in> set obs \<and> sm = sm' \<and> meth \<in> set (methods ctx ob) \<and>
     (meth = ''On'' @ type_name (Message sm) \<or>
      meth = ''OnAnything'' \<and> ''On'' @ type_name (Message sm) \<notin> set (methods ctx ob))"
  using assms by (auto simp: notify_def visit_spec_def split: option.splits if_splits)

text \<open>
  (C28) A message that arrives is given to an observer exactly if an endpoint has that observer
  and is addressed, directly or by broadcast, or has it as an input sniffer and is not addressed;
  it is given to the method for its type, or to \<^verbatim>\<open>OnAnything\<close> where there is none.
\<close>

theorem connection_routing:
  assumes "visit_spec (visit ctx)"
  shows "Called ob meth sm \<in> set (conn_run ctx conn msgs) \<longleftrightarrow>
     sm \<in> set msgs \<and>
     (\<exists>ep \<in> set (endpoints conn).
        ob \<in> set (if addressed_to (Header sm) ep then observers ep else inputSniffers ep)) \<and>
     meth \<in> set (methods ctx ob) \<and>
     (meth = ''On'' @ type_name (Message sm) \<or>
      meth = ''OnAnything'' \<and> ''On'' @ type_name (Message sm) \<notin> set (methods ctx ob))"
proof -
  have "Called ob meth sm \<in> set (maybeHandleMessage ctx ep sm') \<longleftrightarrow> sm = sm' \<and>
      ob \<in> set (if addressed_to (Header sm) ep then observers ep else inputSniffers ep) \<and>
      meth \<in> set (methods ctx ob) \<and>
      (meth = ''On'' @ type_name (Message sm) \<or>
       meth = ''OnAnything'' \<and> ''On'' @ type_name (Message sm) \<notin> set (methods ctx ob))" for ep sm'
    by (auto simp: maybeHandleMessage_def isMessageForUs_iff notify_Called [OF assms])
  then show ?thesis
    by (auto simp: conn_run_def)
qed

definition sample_visit :: "string list \<Rightarrow> string \<Rightarrow> string \<Rightarrow> string option" where
  "sample_visit ms prefix t =
     (if prefix @ t \<in> set ms then Some (prefix @ t)
      else if prefix @ ''Anything'' \<in> set ms then Some (prefix @ ''Anything'') else None)"

lemma sample_visit_spec: "visit_spec sample_visit"
  by (simp add: visit_spec_def sample_visit_def)

definition sample_ctx :: "nat conn_ctx" where
  "sample_ctx = \<lparr>visit = sample_visit, methods = (\<lambda>_. [''OnAnything''])\<rparr>"

definition sample_conn :: "nat SmartbusConnection" where
  "sample_conn = \<lparr>endpoints = [Observe 7 (fst (MakeSmartbusEndpoint NewSmartbusConnection 1 0x1c 0))]\<rparr>"

theorem connection_routing_witness:
  "Called 7 ''OnAnything'' sample_message \<in> set (conn_run sample_ctx sample_conn [sample_message])"
proof -
  have "visit_spec (visit sample_ctx)" by (simp add: sample_ctx_def sample_visit_spec)
  note route = connection_routing [OF this, of 7 "''OnAnything''" sample_message sample_conn "[sample_message]"]
  show ?thesis
    unfolding route
    by (simp add: sample_ctx_def sample_conn_def sample_message_def sample_header_def
        addressed_to_def Observe_def MakeSmartbusEndpoint_def NewSmartbusConnection_def Let_def)
qed


section \<open>From one endpoint to another\<close>

definition stamped :: "'o SmartbusEndpoint \<Rightarrow> SmartbusDevice \<Rightarrow> message \<Rightarrow> SmartbusMessage" where
  "stamped ep dev msg =
     \<lparr>Header = \<lparr>OrigSubnetID = ep_SubnetID ep, OrigDeviceID = ep_DeviceID ep,
        OrigDeviceType = ep_DeviceType ep, HeaderOpcode = 0,
        TargetSubnetID = dev_SubnetID dev, TargetDeviceID = dev_DeviceID dev\<rparr>,
      Message = msg\<rparr>"

lemma dev_Send_stamped:
  "dev_Send ctx ep dev msg = notify ctx (outputSniffers ep) (stamped ep dev msg) @ [SentToIO (stamped ep dev msg)]"
  by (simp add: dev_Send_def ep_Send_def dev_message_def stamped_def zero_header_def conn_Send_def Let_def)

text \<open>
  (C14) What a device method sends, written to the wire by one driver and read by another, is
  handed by every endpoint of the other connection to its observers if the device's address is
  its own or a broadcast address, and to its input sniffers if not, with the sending endpoint's
  address and type as the origin.
\<close>

theorem endpoint_to_endpoint:
  assumes "fits_frame msg"
  shows "\<exists>sm w. dev_Send ctx ep dev msg = notify ctx (outputSniffers ep) sm @ [SentToIO sm] \<and>
     WriteSmartbus [OutMessage sm] = ([w], None) \<and>
     conn_run ctx' conn (read_msgs (ReadSmartbus tmo raw False (map RByte w))) =
       concat (map (\<lambda>e. notify ctx'
           (if dev_SubnetID dev \<in> {ep_SubnetID e, 0xff} \<and> dev_DeviceID dev \<in> {ep_DeviceID e, 0xff}
            then observers e else inputSniffers e)
           \<lparr>Header = \<lparr>OrigSubnetID = ep_SubnetID ep, OrigDeviceID = ep_DeviceID ep,
              OrigDeviceType = ep_DeviceType ep, HeaderOpcode = Opcode msg,
              TargetSubnetID = dev_SubnetID dev, TargetDeviceID = dev_DeviceID dev\<rparr>,
            Message = canonical msg\<rparr>) (endpoints conn))"
proof -
  let ?sm = "stamped ep dev msg"
  have fits: "fits_frame (Message ?sm)" using assms by (simp add: stamped_def)
  obtain f where f: "WriteFrame ?sm = Ok ([0xaa, 0xaa] @ f)" "wire_frame f" "crc_ref f = 0"
    "ParseFrame f = Ok (received ?sm)"
    using WriteFrame_wire [OF fits] by blast
  have "read_msgs (ReadSmartbus tmo raw False (map RByte ([0xaa, 0xaa] @ f))) = [received ?sm]"
    using ReadSmartbusRaw_wire [of "[]" f tmo "[]"] f by (simp add: ReadSmartbus_def Let_def)
  then show ?thesis
    using f(1)
    by (intro exI [of _ ?sm] exI [of _ "[0xaa, 0xaa] @ f"])
       (simp add: dev_Send_stamped conn_run_def maybeHandleMessage_def isMessageForUs_iff
         addressed_to_def received_def stamped_def if_distrib [of "\<lambda>obs. notify ctx' obs m" for m])
qed

theorem endpoint_to_endpoint_witness:
  "\<exists>sm w. WriteSmartbus [OutMessage sm] = ([w], None) \<and>
     conn_run sample_ctx sample_conn
       (read_msgs (ReadSmartbus (\<lambda>_. False) False False (map RByte w))) \<noteq> []"
proof -
  let ?m = "SingleChannelControlCommand 7 100 0"
  let ?ep = "\<lparr>ep_SubnetID = 1, ep_DeviceID = 0x14, ep_DeviceType = 0x95, ep_deviceMap = [],
    observers = [], inputSniffers = [], outputSniffers = []\<rparr> :: nat SmartbusEndpoint"
  let ?dev = "\<lparr>dev_SubnetID = 1, dev_DeviceID = 0x1c, dev_DeviceType = 0\<rparr>"
  have fits: "fits_frame ?m" using fits_sample by (simp add: sample_message_def)
  have vis: "visit sample_ctx = sample_visit" by (simp add: sample_ctx_def)
  obtain sm w where "WriteSmartbus [OutMessage sm] = ([w], None)" and
    run: "conn_run sample_ctx sample_conn
        (read_msgs (ReadSmartbus (\<lambda>_. False) False False (map RByte w))) =
      concat (map (\<lambda>e. notify sample_ctx
           (if dev_SubnetID ?dev \<in> {ep_SubnetID e, 0xff} \<and> dev_DeviceID ?dev \<in> {ep_DeviceID e, 0xff}
            then observers e else inputSniffers e)
           \<lparr>Header = \<lparr>OrigSubnetID = ep_SubnetID ?ep, OrigDeviceID = ep_DeviceID ?ep,
              OrigDeviceType = ep_DeviceType ?ep, HeaderOpcode = Opcode ?m,
              TargetSubnetID = dev_SubnetID ?dev, TargetDeviceID = dev_DeviceID ?dev\<rparr>,
            Message = canonical ?m\<rparr>) (endpoints sample_conn))"
    using endpoint_to_endpoint [OF fits, of sample_ctx ?ep ?dev sample_ctx sample_conn "\<lambda>_. False" False]
    by blast
  moreover have "conn_run sample_ctx sample_conn
      (read_msgs (ReadSmartbus (\<lambda>_. False) False False (map RByte w))) \<noteq> []"
    unfolding run
    by (simp add: sample_conn_def Observe_def MakeSmartbusEndpoint_def NewSmartbusConnection_def
         Let_def notify_def vis sample_visit_def, simp add: sample_ctx_def)
  ultimately show ?thesis by blast
qed

end
