(* ===== verification/GoStrings.thy ===== *)
theory GoStrings
  imports Prelude
begin

text \<open>
  The parts of \<^verbatim>\<open>strconv\<close>, \<^verbatim>\<open>strings\<close> and \<^verbatim>\<open>fmt\<close> the driver uses to name its controls
  and to read back names and values: decimal conversion both ways, prefixes and substrings.
  Go's \<^verbatim>\<open>int\<close> has 32 bits on the platform the package is built for by default.
\<close>

section \<open>Numbers as text\<close>

definition maxInt :: int where "maxInt = 2 ^ 31 - 1"

definition wrap_int :: "int \<Rightarrow> int" where
  "wrap_int x = (x + 2 ^ 31) mod 2 ^ 32 - 2 ^ 31"

definition digit_char :: "nat \<Rightarrow> char" where
  "digit_char n = char_of (48 + n)"

fun nat_digits :: "nat \<Rightarrow> string" where
  "nat_digits n =
     (if n < 10 then [digit_char n] else nat_digits (n div 10) @ [digit_char (n mod 10)])"

declare nat_digits.simps [simp del]

definition Itoa :: "int \<Rightarrow> string" where
  "Itoa i = (if i < 0 then CHR ''-'' # nat_digits (nat (- i)) else nat_digits (nat i))"

definition digit_val :: "char \<Rightarrow> nat option" where
  "digit_val c =
     (let v = of_char c in if 48 \<le> v \<and> v \<le> (57 :: nat) then Some (v - 48) else None)"

fun parse_digits :: "nat \<Rightarrow> string \<Rightarrow> nat option" where
  "parse_digits acc [] = Some acc"
| "parse_digits acc (c # cs) =
     (case digit_val c of None \<Rightarrow> None | Some d \<Rightarrow> parse_digits (acc * 10 + d) cs)"

definition Atoi :: "string \<Rightarrow> int go_result" where
  "Atoi s =
     (let (neg, ds) =
        (case s of
           [] \<Rightarrow> (False, [])
         | c # cs \<Rightarrow> if c = CHR ''-'' then (True, cs) else if c = CHR ''+'' then (False, cs) else (False, s))
      in if ds = [] then Err (ErrOther ''invalid syntax'')
         else (case parse_digits 0 ds of
                 None \<Rightarrow> Err (ErrOther ''invalid syntax'')
               | Some v \<Rightarrow>
                   let n = (if neg then - int v else int v) in
                   if n < - maxInt - 1 \<or> maxInt < n then Err (ErrOther ''value out of range'')
                   else Ok n))"


section \<open>Substrings\<close>

definition TrimPrefix :: "string \<Rightarrow> string \<Rightarrow> string" where
  "TrimPrefix s p = (if take (length p) s = p then drop (length p) s else s)"

definition HasPrefix :: "string \<Rightarrow> string \<Rightarrow> bool" where
  "HasPrefix s p = (take (length p) s = p)"

fun Index :: "string \<Rightarrow> string \<Rightarrow> int" where
  "Index [] sub = (if sub = [] then 0 else -1)"
| "Index (c # cs) sub =
     (if take (length sub) (c # cs) = sub then 0
      else (case Index cs sub of i \<Rightarrow> if i < 0 then -1 else i + 1))"


section \<open>Round trips\<close>

lemma digit_val_char [simp]: "d < 10 \<Longrightarrow> digit_val (digit_char d) = Some d"
  by (simp add: digit_val_def digit_char_def Let_def)

lemma parse_digits_append:
  "parse_digits acc (xs @ ys) = (case parse_digits acc xs of None \<Rightarrow> None | Some a \<Rightarrow> parse_digits a ys)"
  by (induction xs arbitrary: acc) (auto split: option.splits)

lemma parse_nat_digits: "parse_digits 0 (nat_digits n) = Some n"
proof (induction n rule: nat_digits.induct)
  case (1 n)
  then show ?case
    by (subst nat_digits.simps) (auto simp: parse_digits_append)
qed

definition is_digit :: "char \<Rightarrow> bool" where
  "is_digit c = (digit_val c \<noteq> None)"

lemma nat_digits_digits: "c \<in> set (nat_digits n) \<Longrightarrow> is_digit c"
proof (induction n rule: nat_digits.induct)
  case (1 n)
  then show ?case
    by (subst (asm) (2) nat_digits.simps) (auto simp: is_digit_def split: if_splits)
qed

lemma nat_digits_nonempty [simp]: "nat_digits n \<noteq> []"
  by (subst nat_digits.simps) simp

lemma not_is_digit [simp]: "\<not> is_digit CHR ''-''" "\<not> is_digit CHR ''+''" "\<not> is_digit CHR ''B''"
  by (simp_all add: is_digit_def digit_val_def)

lemma Atoi_nat_digits:
  assumes "int n \<le> maxInt"
  shows "Atoi (nat_digits n) = Ok (int n)"
proof -
  obtain c cs where d: "nat_digits n = c # cs" by (cases "nat_digits n") auto
  then have "is_digit c" using nat_digits_digits [of c n] by simp
  then have "c \<noteq> CHR ''-''" "c \<noteq> CHR ''+''" by auto
  then show ?thesis
    using assms d parse_nat_digits [of n] by (auto simp: Atoi_def Let_def maxInt_def)
qed

lemma Atoi_Itoa:
  assumes "- maxInt - 1 \<le> i" and "i \<le> maxInt"
  shows "Atoi (Itoa i) = Ok i"
proof (cases "i < 0")
  case True
  then show ?thesis
    using assms parse_nat_digits [of "nat (- i)"] by (simp add: Itoa_def Atoi_def Let_def)
next
  case False
  then show ?thesis using Atoi_nat_digits [of "nat i"] assms by (simp add: Itoa_def)
qed

lemma nat_digits_inj: "nat_digits m = nat_digits n \<longleftrightarrow> m = n"
  by (metis parse_nat_digits option.inject)

lemma Itoa_inj: "Itoa i = Itoa j \<longleftrightarrow> i = j"
proof -
  have nd: "nat_digits n \<noteq> CHR ''-'' # cs" for n cs
    using nat_digits_digits [of "CHR ''-''" n] by auto
  show ?thesis
    using nd nd [symmetric] by (auto simp: Itoa_def nat_digits_inj)
qed

lemma Itoa_nonneg: "0 \<le> i \<Longrightarrow> Itoa i = nat_digits (nat i)"
  by (simp add: Itoa_def)

lemma TrimPrefix_append [simp]: "TrimPrefix (p @ s) p = s"
  by (simp add: TrimPrefix_def)

text \<open>The first occurrence of a word starting with a character that does not occur before it.\<close>

lemma Index_append:
  assumes "c \<notin> set xs"
  shows "Index (xs @ (c # sub) @ ys) (c # sub) = int (length xs)"
  using assms by (induction xs) auto

lemma Index_found: "0 \<le> Index (xs @ sub @ ys) sub"
proof (induction xs)
  case Nil
  have "take (length sub) (sub @ ys) = sub" by simp
  then show ?case by (cases "sub @ ys") auto
qed auto

lemma Index_split: "0 \<le> Index s sub \<Longrightarrow> \<exists>xs ys. s = xs @ sub @ ys"
proof (induction s)
  case Nil
  then show ?case by (auto split: if_splits)
next
  case (Cons c s)
  show ?case
  proof (cases "take (length sub) (c # s) = sub")
    case True
    then show ?thesis by (metis append_Nil append_take_drop_id)
  next
    case False
    with Cons.prems have "0 \<le> Index s sub" by (auto split: if_splits)
    with Cons.IH obtain xs ys where "s = xs @ sub @ ys" by blast
    then show ?thesis by (intro exI [of _ "c # xs"] exI [of _ ys]) simp
  qed
qed

lemma Index_neg: "Index s sub < 0 \<longleftrightarrow> (\<nexists>xs ys. s = xs @ sub @ ys)"
  by (metis Index_found Index_split not_le)

lemma wrap_int_id: "- maxInt - 1 \<le> x \<Longrightarrow> x \<le> maxInt \<Longrightarrow> wrap_int x = x"
  by (simp add: wrap_int_def maxInt_def)

lemma wrap_int_range: "- maxInt - 1 \<le> wrap_int x \<and> wrap_int x \<le> maxInt"
  using pos_mod_bound [of "2 ^ 32 :: int" "x + 2 ^ 31"]
  by (auto simp: wrap_int_def maxInt_def)

end
