(* ===== verification/DeviceBase.thy ===== *)
theory DeviceBase
  imports Connection GoStrings
begin

text \<open>
  What the device models of \<^verbatim>\<open>smartbus/smartbus_model.go\<close> share: the requests they put into the
  queue, the effects of their methods and the base type; and the virtual relays.

  A method of a device model returns the new state and the list of its effects in the order
  in which the code performs them (\<open>action\<close>): a call of the \<^verbatim>\<open>Observer\<close>, a message sent to the
  device, a request enqueued, a message passed to the queue. Every method that passes a message to
  the queue does so before anything else, so the effects that follow see no change made by others
  in between. An index expression out of range makes the method panic (\<open>RaisePanic\<close>): what comes
  after it in the list does not happen, nor does anything else, as nothing recovers from it. The closures given to the queue are the values of \<open>thunk\<close>: which method they call,
  with the variables they captured; \<open>TAssignPanelButton\<close> captures the device model itself and
  reads its fields when it is run.
\<close>

section \<open>Effects\<close>

definition NUM_VIRTUAL_RELAYS :: nat where "NUM_VIRTUAL_RELAYS = 15"
definition REQUEST_QUEUE_SIZE :: nat where "REQUEST_QUEUE_SIZE = 16"
definition REQUEST_NUM_RETRIES :: int where "REQUEST_NUM_RETRIES = 20"

text \<open>A device model: the virtual relays or the one with the given key.\<close>

datatype dev_ref = VirtualRelays | RealDevice u16

datatype obs_event =
    OnNewDevice dev_ref string string
  | OnNewControl dev_ref string string string bool int bool
  | OnValue dev_ref string string

datatype thunk =
    TSingleChannelControl dev_ref byte byte u16
  | TQueryPanelButtonAssignment dev_ref byte byte
  | TAssignPanelButton dev_ref
  | TSetPanelButtonModes dev_ref "string list"

record Request =
  req_name :: string
  expectedOpcode :: u16
  req_thunk :: thunk

definition newRequest :: "string \<Rightarrow> message \<Rightarrow> thunk \<Rightarrow> Request" where
  "newRequest name expectedResponse th =
     \<lparr>req_name = name, expectedOpcode = Opcode expectedResponse, req_thunk = th\<rparr>"

definition Request_IsResponse :: "Request \<Rightarrow> message \<Rightarrow> bool" where
  "Request_IsResponse request msg = (Opcode msg = expectedOpcode request)"

datatype action =
    Notify obs_event
  | SendTo SmartbusDevice message
  | EnqueueRequest Request
  | PassToQueue message
  | RaisePanic go_panic

definition panics :: "action list \<Rightarrow> bool" where
  "panics as = list_ex (\<lambda>a. case a of RaisePanic _ \<Rightarrow> True | _ \<Rightarrow> False) as"

lemma panics_simps [simp]:
  "\<not> panics []"
  "panics (as @ bs) = (panics as \<or> panics bs)"
  "\<not> panics (Notify e # as) \<longleftrightarrow> \<not> panics as"
  "\<not> panics (SendTo dev msg # as) \<longleftrightarrow> \<not> panics as"
  "\<not> panics (EnqueueRequest req # as) \<longleftrightarrow> \<not> panics as"
  "\<not> panics (PassToQueue msg # as) \<longleftrightarrow> \<not> panics as"
  "panics (RaisePanic p # as)"
  by (simp_all add: panics_def)

text \<open>The expression \<^verbatim>\<open>xs[i]\<close> in a method with state \<open>s\<close>, and what is done with its value.\<close>

definition at_index :: "'a list \<Rightarrow> int \<Rightarrow> 's \<Rightarrow> ('a \<Rightarrow> 's \<times> action list) \<Rightarrow> 's \<times> action list" where
  "at_index xs i s f =
     (if 0 \<le> i \<and> i < int (length xs) then f (xs ! nat i) else (s, [RaisePanic IndexOutOfRange]))"

lemma at_index_nat [simp]: "k < length xs \<Longrightarrow> at_index xs (int k) s f = f (xs ! k)"
  by (simp add: at_index_def)

lemma at_index_cases:
  "(\<And>x. P (f x)) \<Longrightarrow> P (s, [RaisePanic IndexOutOfRange]) \<Longrightarrow> P (at_index xs i s f)"
  by (simp add: at_index_def)

text \<open>A \<^verbatim>\<open>for\<close> loop over the given indices, collecting effects.\<close>

fun loop :: "('i \<Rightarrow> 's \<Rightarrow> 's \<times> action list) \<Rightarrow> 'i list \<Rightarrow> 's \<Rightarrow> 's \<times> action list" where
  "loop f [] s = (s, [])"
| "loop f (i # is) s = (case f i s of (s', as) \<Rightarrow> case loop f is s' of (s'', as') \<Rightarrow> (s'', as @ as'))"

lemma loop_snoc:
  "loop f (is @ [i]) s = (case loop f is s of (s', as) \<Rightarrow> case f i s' of (s'', as') \<Rightarrow> (s'', as @ as'))"
  by (induction "is" arbitrary: s) (auto split: prod.splits)

definition switch_value :: "bool \<Rightarrow> string" where
  "switch_value on = (if on then ''1'' else ''0'')"


section \<open>The base type\<close>

record DeviceModelBase =
  nameBase :: string
  titleBase :: string
  smartDev :: SmartbusDevice

definition dm_Name :: "DeviceModelBase \<Rightarrow> string" where
  "dm_Name dm = nameBase dm @ nat_digits (unat (dev_SubnetID (smartDev dm))) @ ''_'' @
     nat_digits (unat (dev_DeviceID (smartDev dm)))"

definition dm_Title :: "DeviceModelBase \<Rightarrow> string" where
  "dm_Title dm = titleBase dm @ '' '' @ nat_digits (unat (dev_SubnetID (smartDev dm))) @ '':'' @
     nat_digits (unat (dev_DeviceID (smartDev dm)))"

definition dm_ref :: "DeviceModelBase \<Rightarrow> dev_ref" where
  "dm_ref dm = RealDevice (deviceKey (dev_SubnetID (smartDev dm)) (dev_DeviceID (smartDev dm)))"


section \<open>What a device has published\<close>

text \<open>
  The controls of a device as the observer sees them: their names and last values. A second
  \<^verbatim>\<open>OnNewControl\<close> for a control, an \<^verbatim>\<open>OnValue\<close> for a control that was never announced, or a
  panic makes the result undefined.
\<close>

type_synonym view = "string \<rightharpoonup> string"

fun publish :: "dev_ref \<Rightarrow> view \<Rightarrow> action list \<Rightarrow> view option" where
  "publish r v [] = Some v"
| "publish r v (a # as) =
     (case a of
        Notify (OnNewControl r' c t x ro mx rt) \<Rightarrow>
          if r' \<noteq> r then publish r v as
          else if v c \<noteq> None then None else publish r (v(c \<mapsto> x)) as
      | Notify (OnValue r' c x) \<Rightarrow>
          if r' \<noteq> r then publish r v as
          else if v c = None then None else publish r (v(c \<mapsto> x)) as
      | RaisePanic _ \<Rightarrow> None
      | _ \<Rightarrow> publish r v as)"

lemma publish_append:
  "publish r v (as @ bs) = (case publish r v as of None \<Rightarrow> None | Some v' \<Rightarrow> publish r v' bs)"
  by (induction as arbitrary: v) (auto split: action.splits obs_event.splits)

lemma publish_not_panics: "publish r v as = Some v' \<Longrightarrow> \<not> panics as"
  by (induction as arbitrary: v) (auto simp: panics_def split: action.splits obs_event.splits if_splits)

text \<open>A run of new controls whose names are numbered consecutively.\<close>

definition new_controls ::
    "dev_ref \<Rightarrow> (nat \<Rightarrow> string) \<Rightarrow> string \<Rightarrow> bool \<Rightarrow> nat \<Rightarrow> string list \<Rightarrow> action list" where
  "new_controls r nm t ro k xs =
     map (\<lambda>(i, x). Notify (OnNewControl r (nm (i + 1)) t x ro (-1) True)) (enumerate k xs)"

lemma enumerate_map: "enumerate k (map f xs) = map (\<lambda>(i, x). (i, f x)) (enumerate k xs)"
  by (induction xs arbitrary: k) auto

lemma new_controls_map:
  "new_controls r nm t ro k (map f xs) =
     map (\<lambda>(i, x). Notify (OnNewControl r (nm (i + 1)) t (f x) ro (-1) True)) (enumerate k xs)"
  by (simp add: new_controls_def enumerate_map split_def)

lemma publish_new_controls:
  assumes "inj nm" and "\<And>n. k < n \<Longrightarrow> v (nm n) = None"
  shows "\<exists>v'. publish r v (new_controls r nm t ro k xs) = Some v' \<and>
     (\<forall>n. v' (nm n) = (if k < n \<and> n \<le> k + length xs then Some (xs ! (n - k - 1)) else v (nm n))) \<and>
     (\<forall>c. c \<notin> range nm \<longrightarrow> v' c = v c)"
  using assms(2)
proof (induction xs arbitrary: k v)
  case Nil
  then show ?case by (simp add: new_controls_def)
next
  case (Cons x xs)
  let ?v = "v(nm (k + 1) \<mapsto> x)"
  have fresh: "\<And>n. Suc k < n \<Longrightarrow> ?v (nm n) = None"
    using Cons.prems by (simp add: inj_eq [OF assms(1)])
  from Cons.IH [of "Suc k" ?v, OF this] obtain v' where
    v': "publish r ?v (new_controls r nm t ro (Suc k) xs) = Some v'" and
    at: "\<And>n. v' (nm n) = (if Suc k < n \<and> n \<le> Suc k + length xs then Some (xs ! (n - Suc k - 1)) else ?v (nm n))"
    and other: "\<And>c. c \<notin> range nm \<Longrightarrow> v' c = ?v c" by blast
  have "v' (nm n) = (if k < n \<and> n \<le> k + length (x # xs)
       then Some ((x # xs) ! (n - k - 1)) else v (nm n))" for n
    unfolding at using inj_eq [OF assms(1)]
    by (cases "n = Suc k") (auto simp: nth_Cons' Suc_diff_Suc)
  moreover have "v' c = v c" if "c \<notin> range nm" for c
    using other [OF that] that by auto
  ultimately show ?case
    using v' Cons.prems [of "k + 1"] by (auto simp: new_controls_def)
qed

text \<open>
  A device model that publishes faithfully: \<open>call\<close> are its methods, \<open>rel\<close> relates its state to
  what it has published. Then it does so over every sequence of calls.
\<close>

locale publisher =
  fixes call :: "'c \<Rightarrow> 's \<Rightarrow> 's \<times> action list" and ref :: dev_ref
    and rel :: "'s \<Rightarrow> view \<Rightarrow> bool"
  assumes publishes: "rel s v \<Longrightarrow> call c s = (s', as) \<Longrightarrow> \<exists>v'. publish ref v as = Some v' \<and> rel s' v'"
begin

lemma publishes_all:
  "rel s v \<Longrightarrow> loop call cs s = (s', as) \<Longrightarrow> \<exists>v'. publish ref v as = Some v' \<and> rel s' v'"
proof (induction cs arbitrary: s v as)
  case Nil
  then show ?case by simp
next
  case (Cons c cs)
  obtain s1 as1 where c: "call c s = (s1, as1)" by fastforce
  obtain as2 where cs: "loop call cs s1 = (s', as2)" and as: "as = as1 @ as2"
    using Cons.prems c by (auto split: prod.splits)
  from publishes [OF Cons.prems(1) c] obtain v1 where "publish ref v as1 = Some v1" "rel s1 v1" by blast
  moreover from Cons.IH [OF this(2) cs] obtain v2 where "publish ref v1 as2 = Some v2" "rel s' v2" by blast
  ultimately show ?case using as by (simp add: publish_append)
qed

end


section \<open>Virtual relays\<close>

record VirtualRelayDevice =
  relayStatus :: "bool list"

definition NewVirtualRelayDevice :: VirtualRelayDevice where
  "NewVirtualRelayDevice = \<lparr>relayStatus = replicate NUM_VIRTUAL_RELAYS False\<rparr>"

definition relay_name :: "nat \<Rightarrow> string" where
  "relay_name n = ''VirtualRelay'' @ nat_digits n"

definition relays_Publish :: "VirtualRelayDevice \<Rightarrow> action list" where
  "relays_Publish dm =
     map (\<lambda>(i, status). Notify (OnNewControl VirtualRelays (relay_name (i + 1)) ''switch''
            (switch_value status) True (-1) True))
       (enumerate 0 (relayStatus dm))"

definition SetRelayOn :: "int \<Rightarrow> bool \<Rightarrow> VirtualRelayDevice \<Rightarrow> VirtualRelayDevice \<times> action list" where
  "SetRelayOn channelNo on dm =
     (if channelNo < 1 \<or> channelNo > int NUM_VIRTUAL_RELAYS then (dm, [])
      else
        at_index (relayStatus dm) (channelNo - 1) dm (\<lambda>old.
          if old = on then (dm, [])
          else (dm\<lparr>relayStatus := (relayStatus dm)[nat (channelNo - 1) := on]\<rparr>,
                [Notify (OnValue VirtualRelays (relay_name (nat channelNo)) (switch_value on))])))"

definition RelayStatus :: "VirtualRelayDevice \<Rightarrow> bool list" where
  "RelayStatus dm = relayStatus dm"

text \<open>The driver's model passes these on to its relays.\<close>

definition SetVirtualRelayOn :: "int \<Rightarrow> bool \<Rightarrow> VirtualRelayDevice \<Rightarrow> VirtualRelayDevice \<times> action list" where
  [simp]: "SetVirtualRelayOn channelNo on relays = SetRelayOn channelNo on relays"

definition VirtualRelayStatus :: "VirtualRelayDevice \<Rightarrow> bool list" where
  [simp]: "VirtualRelayStatus relays = RelayStatus relays"

definition relays_AcceptOnValue :: "string \<Rightarrow> string \<Rightarrow> bool" where
  "relays_AcceptOnValue name val = False"

lemma relay_name_inj [simp]: "relay_name m = relay_name n \<longleftrightarrow> m = n"
  by (simp add: relay_name_def nat_digits_inj)

text \<open>What is published of the relays: one control per relay with its status.\<close>

definition relays_rel :: "VirtualRelayDevice \<Rightarrow> view \<Rightarrow> bool" where
  "relays_rel dm v =
     (length (relayStatus dm) = NUM_VIRTUAL_RELAYS \<and>
      (\<forall>n. v (relay_name n) = (if 1 \<le> n \<and> n \<le> NUM_VIRTUAL_RELAYS
           then Some (switch_value (relayStatus dm ! (n - 1))) else None)))"

lemma SetRelayOn_nat:
  assumes "length (relayStatus dm) = NUM_VIRTUAL_RELAYS"
  shows "SetRelayOn (int n) on dm =
     (if 1 \<le> n \<and> n \<le> NUM_VIRTUAL_RELAYS \<and> relayStatus dm ! (n - 1) \<noteq> on
      then (dm\<lparr>relayStatus := (relayStatus dm)[n - 1 := on]\<rparr>,
            [Notify (OnValue VirtualRelays (relay_name n) (switch_value on))])
      else (dm, []))"
  using assms by (cases n) (auto simp: SetRelayOn_def)

lemma relays_publish_SetRelayOn:
  assumes "relays_rel dm v" and "SetRelayOn c on dm = (dm', as)"
  shows "\<exists>v'. publish VirtualRelays v as = Some v' \<and> relays_rel dm' v'"
proof (cases "0 \<le> c")
  case True
  then obtain n where c: "c = int n" using nonneg_int_cases by blast
  have len: "length (relayStatus dm) = NUM_VIRTUAL_RELAYS" using assms(1) by (simp add: relays_rel_def)
  have "v (relay_name n) \<noteq> None" if "1 \<le> n" "n \<le> NUM_VIRTUAL_RELAYS"
    using assms(1) that by (simp add: relays_rel_def)
  moreover have "n - 1 = m - 1 \<longleftrightarrow> n = m" if "1 \<le> n" "1 \<le> m" for m using that by linarith
  ultimately show ?thesis
    using assms unfolding c SetRelayOn_nat [OF len]
    by (auto simp: relays_rel_def nth_list_update split: if_splits)
next
  case False
  then show ?thesis using assms by (auto simp: SetRelayOn_def)
qed

interpretation relays: publisher "\<lambda>(c, on). SetRelayOn c on" VirtualRelays relays_rel
  by unfold_locales (auto intro: relays_publish_SetRelayOn)

lemma relays_Publish_fresh:
  "\<exists>v. publish VirtualRelays Map.empty (relays_Publish NewVirtualRelayDevice) = Some v \<and>
     relays_rel NewVirtualRelayDevice v"
proof -
  have new: "relays_Publish NewVirtualRelayDevice = new_controls VirtualRelays relay_name ''switch'' True 0
      (map switch_value (relayStatus NewVirtualRelayDevice))"
    by (simp add: relays_Publish_def new_controls_map)
  have "inj relay_name" by (simp add: inj_def)
  from publish_new_controls [OF this, of 0 Map.empty VirtualRelays "''switch''" True
      "map switch_value (relayStatus NewVirtualRelayDevice)"]
  show ?thesis
    unfolding new by (auto simp: relays_rel_def NewVirtualRelayDevice_def)
qed

end
