(* ===== verification/ZoneBeast.thy ===== *)
theory ZoneBeast
  imports DeviceBase
begin

text \<open>
  The models of the Zone Beast relay module and of the HMIX12 module, which behaves like one,
  \<^verbatim>\<open>smartbus/smartbus_model.go\<close>; what they publish is what they know of their channels.
\<close>

section \<open>Zone Beast\<close>

record ZoneBeastDeviceModel =
  zb_base :: DeviceModelBase
  channelStatus :: "bool list"
  skipBroadcast :: bool
  numTemps :: nat

definition NewZoneBeastDeviceModel :: "SmartbusDevice \<Rightarrow> ZoneBeastDeviceModel" where
  "NewZoneBeastDeviceModel dev =
     \<lparr>zb_base = \<lparr>nameBase = ''zonebeast'', titleBase = ''Zone Beast'', smartDev = dev\<rparr>,
      channelStatus = [], skipBroadcast = False, numTemps = 0\<rparr>"

abbreviation zb_ref :: "ZoneBeastDeviceModel \<Rightarrow> dev_ref" where
  "zb_ref dm \<equiv> dm_ref (zb_base dm)"

definition zb_Type :: u16 where "zb_Type = 0x139c"

definition zb_Poll :: "ZoneBeastDeviceModel \<Rightarrow> action list" where
  "zb_Poll dm = [SendTo (smartDev (zb_base dm)) (ReadTemperatureValues True)]"

definition zb_AcceptOnValue :: "string \<Rightarrow> string \<Rightarrow> ZoneBeastDeviceModel \<Rightarrow> bool \<times> action list" where
  "zb_AcceptOnValue name val dm =
     (case Atoi (TrimPrefix name ''Channel '') of
        Ok channelNo \<Rightarrow>
          let level = (if val = ''1'' then LIGHT_LEVEL_ON else LIGHT_LEVEL_OFF)
          in (False, [EnqueueRequest (newRequest ''SingleChannelControl''
                (SingleChannelControlResponse 0 False 0 [])
                (TSingleChannelControl (zb_ref dm) (word_of_int channelNo) level 0))])
      | _ \<Rightarrow> (False, []))"

definition channel_name :: "nat \<Rightarrow> string" where
  "channel_name n = ''Channel '' @ nat_digits n"

definition temp_name :: "nat \<Rightarrow> string" where
  "temp_name n = ''Temp '' @ nat_digits n"

definition updateSingleChannel ::
    "int \<Rightarrow> bool \<Rightarrow> ZoneBeastDeviceModel \<Rightarrow> ZoneBeastDeviceModel \<times> action list" where
  "updateSingleChannel n isOn dm =
     (if n \<ge> int (length (channelStatus dm)) then (dm, [])
      else
        at_index (channelStatus dm) n dm (\<lambda>old.
          if old = isOn then (dm, [])
          else (dm\<lparr>channelStatus := (channelStatus dm)[nat n := isOn]\<rparr>,
                [Notify (OnValue (zb_ref dm) (channel_name (nat n + 1)) (switch_value isOn))])))"

definition addChannel ::
    "bool list \<Rightarrow> nat \<Rightarrow> ZoneBeastDeviceModel \<Rightarrow> ZoneBeastDeviceModel \<times> action list" where
  "addChannel status i dm =
     at_index status (int i) dm (\<lambda>x.
       let dm' = dm\<lparr>channelStatus := channelStatus dm @ [x]\<rparr> in
       at_index (channelStatus dm') (int i) dm' (\<lambda>y.
         (dm', [Notify (OnNewControl (zb_ref dm) (channel_name (i + 1)) ''switch''
                  (switch_value y) False (-1) True)])))"

definition updateChannel ::
    "bool list \<Rightarrow> nat \<Rightarrow> ZoneBeastDeviceModel \<Rightarrow> ZoneBeastDeviceModel \<times> action list" where
  "updateChannel status i dm = at_index status (int i) dm (\<lambda>x. updateSingleChannel (int i) x dm)"

definition updateChannelStatus ::
    "bool list \<Rightarrow> ZoneBeastDeviceModel \<Rightarrow> ZoneBeastDeviceModel \<times> action list" where
  "updateChannelStatus status dm =
     (let updateCount = min (length (channelStatus dm)) (length status);
          (dm1, as1) = loop (updateChannel status) [0..<updateCount] dm;
          (dm2, as2) = loop (addChannel status) [updateCount..<length status] dm1
      in (dm2, as1 @ as2))"

definition updateTemperatureValue ::
    "nat \<Rightarrow> byte \<Rightarrow> ZoneBeastDeviceModel \<Rightarrow> ZoneBeastDeviceModel \<times> action list" where
  "updateTemperatureValue n val dm =
     (if n > numTemps dm
      then (dm\<lparr>numTemps := n\<rparr>,
            [Notify (OnNewControl (zb_ref dm) (temp_name n) ''temperature'' (Itoa (sint val)) True (-1) True)])
      else (dm, [Notify (OnValue (zb_ref dm) (temp_name n) (Itoa (sint val)))]))"

text \<open>The subtraction is in \<^verbatim>\<open>uint8\<close>: channel 0 becomes 255.\<close>

definition zb_OnSingleChannelControlResponse ::
    "message \<Rightarrow> ZoneBeastDeviceModel \<Rightarrow> ZoneBeastDeviceModel \<times> action list" where
  "zb_OnSingleChannelControlResponse msg dm =
     (if \<not> Success msg then (dm, [PassToQueue msg])
      else (case updateSingleChannel (uint (ChannelNo msg - 1)) (Level msg \<noteq> 0) dm of
              (dm', as) \<Rightarrow> (dm'\<lparr>skipBroadcast := True\<rparr>, PassToQueue msg # as)))"

definition zb_OnZoneBeastBroadcast ::
    "message \<Rightarrow> ZoneBeastDeviceModel \<Rightarrow> ZoneBeastDeviceModel \<times> action list" where
  "zb_OnZoneBeastBroadcast msg dm =
     (case (if \<not> skipBroadcast dm then updateChannelStatus (ChannelStatus msg) dm else (dm, [])) of
        (dm', as) \<Rightarrow> (dm'\<lparr>skipBroadcast := False\<rparr>, as))"

definition zb_OnReadTemperatureValuesResponse ::
    "message \<Rightarrow> ZoneBeastDeviceModel \<Rightarrow> ZoneBeastDeviceModel \<times> action list" where
  "zb_OnReadTemperatureValuesResponse msg dm =
     (if UseCelsius msg
      then loop (\<lambda>(i, v). updateTemperatureValue (i + 1) v) (enumerate 0 (Temperatures msg)) dm
      else (dm, []))"

definition zb_methods :: "string list" where
  "zb_methods = [''OnReadMACAddressResponse'', ''OnSingleChannelControlResponse'',
     ''OnZoneBeastBroadcast'', ''OnReadTemperatureValuesResponse'']"

definition zb_call :: "string \<Rightarrow> message \<Rightarrow> ZoneBeastDeviceModel \<Rightarrow> ZoneBeastDeviceModel \<times> action list" where
  "zb_call meth msg dm =
     (if meth = ''OnSingleChannelControlResponse'' then zb_OnSingleChannelControlResponse msg dm
      else if meth = ''OnZoneBeastBroadcast'' then zb_OnZoneBeastBroadcast msg dm
      else if meth = ''OnReadTemperatureValuesResponse'' then zb_OnReadTemperatureValuesResponse msg dm
      else (dm, []))"


section \<open>HMIX12\<close>

text \<open>\<^verbatim>\<open>Hmix12DeviceModel\<close> embeds a Zone Beast model and inherits its methods.\<close>

definition NewHmix12DeviceModel :: "SmartbusDevice \<Rightarrow> ZoneBeastDeviceModel" where
  "NewHmix12DeviceModel dev = NewZoneBeastDeviceModel dev"

definition hm_Type :: u16 where "hm_Type = 0x0257"

definition hm_Poll :: "ZoneBeastDeviceModel \<Rightarrow> action list" where
  "hm_Poll hm = [SendTo (smartDev (zb_base hm)) (QueryChannelStatuses 0)]"

definition hm_OnQueryChannelStatusesResponse ::
    "message \<Rightarrow> ZoneBeastDeviceModel \<Rightarrow> ZoneBeastDeviceModel \<times> action list" where
  "hm_OnQueryChannelStatusesResponse msg hm =
     updateChannelStatus (map (\<lambda>v. v > 0) (ChannelStatusBytes msg)) hm"

definition hm_methods :: "string list" where
  "hm_methods = ''OnQueryChannelStatusesResponse'' # zb_methods"

definition hm_call :: "string \<Rightarrow> message \<Rightarrow> ZoneBeastDeviceModel \<Rightarrow> ZoneBeastDeviceModel \<times> action list" where
  "hm_call meth msg hm =
     (if meth = ''OnQueryChannelStatusesResponse'' then hm_OnQueryChannelStatusesResponse msg hm
      else zb_call meth msg hm)"


section \<open>What the channel updates do\<close>

lemma updateSingleChannel_nat:
  "updateSingleChannel (int n) isOn dm =
     (if n < length (channelStatus dm) \<and> channelStatus dm ! n \<noteq> isOn
      then (dm\<lparr>channelStatus := (channelStatus dm)[n := isOn]\<rparr>,
            [Notify (OnValue (zb_ref dm) (channel_name (n + 1)) (switch_value isOn))])
      else (dm, []))"
  by (simp add: updateSingleChannel_def)

lemma fst_updateSingleChannel:
  "fst (updateSingleChannel (int n) b dm) = dm\<lparr>channelStatus := (channelStatus dm)[n := b]\<rparr>"
proof -
  have "(channelStatus dm)[n := b] = channelStatus dm"
    if "length (channelStatus dm) \<le> n \<or> channelStatus dm ! n = b"
    using that by (cases "n < length (channelStatus dm)") (auto simp: list_update_same_conv list_update_beyond)
  then show ?thesis by (auto simp: updateSingleChannel_nat)
qed

lemma channels_update_loop:
  assumes "n \<le> length (channelStatus dm)" and "n \<le> length st"
  shows "fst (loop (updateChannel st) [0..<n] dm) =
     dm\<lparr>channelStatus := take n st @ drop n (channelStatus dm)\<rparr>"
  using assms
proof (induction n)
  case 0
  then show ?case by simp
next
  case (Suc n)
  let ?dm = "dm\<lparr>channelStatus := take n st @ drop n (channelStatus dm)\<rparr>"
  obtain as where l: "loop (updateChannel st) [0..<n] dm = (?dm, as)"
    using Suc by (metis Suc_leD prod.collapse)
  have "(take n st @ drop n (channelStatus dm))[n := st ! n] =
      take (Suc n) st @ drop (Suc n) (channelStatus dm)"
    using Suc.prems by (simp add: list_update_append take_Suc_conv_app_nth Cons_nth_drop_Suc [symmetric])
  then have "fst (updateChannel st n ?dm) =
      dm\<lparr>channelStatus := take (Suc n) st @ drop (Suc n) (channelStatus dm)\<rparr>"
    using Suc.prems by (simp add: fst_updateSingleChannel updateChannel_def)
  then show ?case
    using l by (simp add: loop_snoc split_def)
qed

lemma addChannel_next:
  assumes "length (channelStatus dm) = i" and "i < length st"
  shows "addChannel st i dm =
     (dm\<lparr>channelStatus := channelStatus dm @ [st ! i]\<rparr>,
      [Notify (OnNewControl (zb_ref dm) (channel_name (i + 1)) ''switch'' (switch_value (st ! i)) False (-1) True)])"
  using assms at_index_nat [of i "channelStatus dm @ [st ! i]"]
  by (simp add: addChannel_def Let_def nth_append)

lemma channels_add_loop:
  assumes "length (channelStatus dm) = k" and "k + d \<le> length st"
  shows "loop (addChannel st) [k..<k + d] dm =
     (dm\<lparr>channelStatus := channelStatus dm @ map ((!) st) [k..<k + d]\<rparr>,
      new_controls (zb_ref dm) channel_name ''switch'' False k (map (\<lambda>i. switch_value (st ! i)) [k..<k + d]))"
  using assms(2)
proof (induction d)
  case 0
  then show ?case by (simp add: new_controls_def)
next
  case (Suc d)
  have "new_controls r nm t ro k (xs @ [x]) = new_controls r nm t ro k xs @
      [Notify (OnNewControl r (nm (k + length xs + 1)) t x ro (-1) True)]" for r nm t ro x and xs :: "string list"
    by (simp add: new_controls_def enumerate_append_eq)
  with Suc assms(1) show ?case
    by (simp add: loop_snoc addChannel_next)
qed

text \<open>The new status replaces the known one; channels it does not mention keep their state.\<close>

lemma channels_updateChannelStatus:
  "fst (updateChannelStatus st dm) =
     dm\<lparr>channelStatus := st @ drop (length st) (channelStatus dm)\<rparr>"
proof (cases "length st \<le> length (channelStatus dm)")
  case True
  then obtain as where "loop (updateChannel st) [0..<length st] dm =
      (dm\<lparr>channelStatus := st @ drop (length st) (channelStatus dm)\<rparr>, as)"
    using channels_update_loop [of "length st" dm st] by (metis order_refl prod.collapse take_all)
  then show ?thesis using True by (simp add: updateChannelStatus_def min_absorb2)
next
  case False
  define k d where "k = length (channelStatus dm)" and "d = length st - length (channelStatus dm)"
  have st: "length st = k + d" and min: "min (length (channelStatus dm)) (length st) = k"
    using False by (simp_all add: k_def d_def)
  let ?dm = "dm\<lparr>channelStatus := take k st\<rparr>"
  obtain as where "loop (updateChannel st) [0..<k] dm = (?dm, as)"
    using channels_update_loop [of k dm st] st unfolding k_def
    by (metis append_Nil2 drop_all le_add1 order_refl prod.collapse)
  moreover have "fst (loop (addChannel st) [k..<k + d] ?dm) = ?dm\<lparr>channelStatus := take k st @
      map ((!) st) [k..<k + d]\<rparr>"
    by (subst channels_add_loop) (simp_all add: st)
  moreover have "map ((!) st) [k..<k + d] = drop k st"
    by (rule nth_equalityI) (simp_all add: st)
  moreover have "drop (length st) (channelStatus dm) = []"
    using False by simp
  ultimately show ?thesis
    unfolding updateChannelStatus_def Let_def min unfolding st by (simp add: split_def)
qed


section \<open>What is published\<close>

lemma channel_name_inj [simp]: "channel_name m = channel_name n \<longleftrightarrow> m = n"
  by (simp add: channel_name_def nat_digits_inj)

lemma temp_name_inj [simp]: "temp_name m = temp_name n \<longleftrightarrow> m = n"
  by (simp add: temp_name_def nat_digits_inj)

lemma channel_not_temp [simp]: "channel_name m \<noteq> temp_name n" "temp_name n \<noteq> channel_name m"
  by (simp_all add: channel_name_def temp_name_def)

text \<open>One switch per known channel with its state, and one control per temperature seen so far.\<close>

definition zb_rel :: "dev_ref \<Rightarrow> ZoneBeastDeviceModel \<Rightarrow> view \<Rightarrow> bool" where
  "zb_rel r dm v =
     (zb_ref dm = r \<and>
      (\<forall>n. v (channel_name n) = (if 1 \<le> n \<and> n \<le> length (channelStatus dm)
           then Some (switch_value (channelStatus dm ! (n - 1))) else None)) \<and>
      (\<forall>n. v (temp_name n) \<noteq> None \<longleftrightarrow> 1 \<le> n \<and> n \<le> numTemps dm))"

lemma zb_rel_updateSingleChannel:
  assumes "zb_rel r dm v" and "updateSingleChannel (int n) b dm = (dm', as)"
  shows "\<exists>v'. publish r v as = Some v' \<and> zb_rel r dm' v'"
  using assms
  by (fastforce simp: zb_rel_def updateSingleChannel_nat nth_list_update split: if_splits)

interpretation zb_channels: publisher "\<lambda>(n, b). updateSingleChannel (int n) b" r "zb_rel r"
  by unfold_locales (auto intro: zb_rel_updateSingleChannel)

lemma loop_map: "loop f (map g is) s = loop (\<lambda>i. f (g i)) is s"
  by (induction "is" arbitrary: s) (auto split: prod.splits)

lemma loop_cong: "(\<And>i. i \<in> set is \<Longrightarrow> f i = g i) \<Longrightarrow> loop f is s = loop g is s"
  by (induction "is" arbitrary: s) (auto split: prod.splits)

lemma zb_rel_update_loop:
  assumes "zb_rel r dm v" and "loop (updateChannel st) [0..<n] dm = (dm', as)" and "n \<le> length st"
  shows "\<exists>v'. publish r v as = Some v' \<and> zb_rel r dm' v'"
proof -
  have "updateChannel st i = updateSingleChannel (int i) (st ! i)" if "i \<in> set [0..<n]" for i
    using that assms(3) by (simp add: updateChannel_def fun_eq_iff)
  then have "loop (updateChannel st) [0..<n] dm = loop (\<lambda>(i, b). updateSingleChannel (int i) b) (map (\<lambda>i. (i, st ! i)) [0..<n]) dm"
    unfolding loop_map by (intro loop_cong) simp_all
  with zb_channels.publishes_all [OF assms(1)] assms(2) show ?thesis by simp
qed

lemma zb_rel_add_loop:
  assumes "zb_rel r dm v" and "length (channelStatus dm) = k" and "k + d \<le> length st"
  shows "\<exists>v'. publish r v (snd (loop (addChannel st) [k..<k + d] dm)) = Some v' \<and>
     zb_rel r (fst (loop (addChannel st) [k..<k + d] dm)) v'"
proof -
  have "inj channel_name" by (simp add: inj_def)
  moreover have "v (channel_name n) = None" if "k < n" for n
    using assms that by (auto simp: zb_rel_def)
  ultimately obtain v' where v': "publish r v (new_controls r channel_name ''switch'' False k
      (map (\<lambda>i. switch_value (st ! i)) [k..<k + d])) = Some v'"
    and at: "\<And>n. v' (channel_name n) = (if k < n \<and> n \<le> k + d
      then Some (map (\<lambda>i. switch_value (st ! i)) [k..<k + d] ! (n - k - 1)) else v (channel_name n))"
    and other: "\<And>c. c \<notin> range channel_name \<Longrightarrow> v' c = v c"
    using publish_new_controls [of channel_name k v r "''switch''" False
        "map (\<lambda>i. switch_value (st ! i)) [k..<k + d]"] by auto
  have "temp_name n \<notin> range channel_name" for n by auto
  then have "zb_rel r (dm\<lparr>channelStatus := channelStatus dm @ map ((!) st) [k..<k + d]\<rparr>) v'"
    using assms at other by (auto simp: zb_rel_def nth_append)
  with v' assms show ?thesis
    by (simp add: channels_add_loop zb_rel_def)
qed

lemma zb_rel_updateChannelStatus:
  assumes "zb_rel r dm v" and "updateChannelStatus st dm = (dm', as)"
  shows "\<exists>v'. publish r v as = Some v' \<and> zb_rel r dm' v'"
proof -
  define n where "n = min (length (channelStatus dm)) (length st)"
  obtain dm1 as1 where l1: "loop (updateChannel st) [0..<n] dm = (dm1, as1)"
    by fastforce
  obtain as2 where l2: "loop (addChannel st) [n..<length st] dm1 = (dm', as2)" and as: "as = as1 @ as2"
    using assms(2) l1 by (auto simp: updateChannelStatus_def Let_def n_def split: prod.splits)
  obtain v1 where v1: "publish r v as1 = Some v1" "zb_rel r dm1 v1"
    using zb_rel_update_loop [OF assms(1) l1] by (auto simp: n_def)
  have "dm1 = dm\<lparr>channelStatus := take n st @ drop n (channelStatus dm)\<rparr>"
    using channels_update_loop [of n dm st] l1 by (simp add: n_def)
  then have len: "length (channelStatus dm1) = n" if "n < length st"
    using that by (auto simp: n_def)
  have "\<exists>v'. publish r v1 as2 = Some v' \<and> zb_rel r dm' v'"
  proof (cases "n < length st")
    case True
    then show ?thesis
      using zb_rel_add_loop [OF v1(2) len [OF True], of "length st - n" st] l2 by simp
  next
    case False
    then show ?thesis using l2 v1 by simp
  qed
  with v1 as show ?thesis by (simp add: publish_append)
qed

lemma zb_rel_confirmed:
  assumes "zb_rel r dm v" and "updateSingleChannel (uint (c :: byte)) b dm = (dm', as)"
  shows "\<exists>v'. publish r v as = Some v' \<and> zb_rel r dm' v'"
  using zb_rel_updateSingleChannel [OF assms(1), of "unat c" b] assms(2) by simp

lemma zb_rel_temps:
  assumes "zb_rel r dm v" and "k \<le> numTemps dm"
    and "loop (\<lambda>(i, x). updateTemperatureValue (i + 1) x) (enumerate k xs) dm = (dm', as)"
  shows "\<exists>v'. publish r v as = Some v' \<and> zb_rel r dm' v'"
  using assms
proof (induction xs arbitrary: k dm v as)
  case Nil
  then show ?case by simp
next
  case (Cons x xs)
  obtain dm1 as1 where u: "updateTemperatureValue (k + 1) x dm = (dm1, as1)" by fastforce
  obtain as2 where l: "loop (\<lambda>(i, x). updateTemperatureValue (i + 1) x) (enumerate (Suc k) xs) dm1 = (dm', as2)"
    and as: "as = as1 @ as2"
    using Cons.prems(3) u by (auto split: prod.splits)
  have "\<exists>v1. publish r v as1 = Some v1 \<and> zb_rel r dm1 v1 \<and> Suc k \<le> numTemps dm1"
  proof (cases "numTemps dm = k")
    case True
    moreover have "v (temp_name (k + 1)) \<noteq> None \<longleftrightarrow> 1 \<le> k + 1 \<and> k + 1 \<le> numTemps dm"
      using Cons.prems(1) unfolding zb_rel_def by blast
    ultimately have "v (temp_name (k + 1)) = None" by simp
    then show ?thesis using True u Cons.prems(1)
      by (auto simp: updateTemperatureValue_def zb_rel_def)
  next
    case False
    then have "v (temp_name (k + 1)) \<noteq> None" using Cons.prems(1,2) by (auto simp: zb_rel_def)
    then show ?thesis using False u Cons.prems(1,2)
      by (auto simp: updateTemperatureValue_def zb_rel_def)
  qed
  then obtain v1 where "publish r v as1 = Some v1" "zb_rel r dm1 v1" "Suc k \<le> numTemps dm1" by blast
  moreover from Cons.IH [OF this(2,3) l] obtain v2 where "publish r v1 as2 = Some v2" "zb_rel r dm' v2"
    by blast
  ultimately show ?case using as by (simp add: publish_append)
qed

lemma zb_rel_skip [simp]: "zb_rel r (dm\<lparr>skipBroadcast := b\<rparr>) v = zb_rel r dm v"
  by (simp add: zb_rel_def)

lemma zb_rel_hm_call:
  assumes "zb_rel r dm v" and "hm_call meth msg dm = (dm', as)"
  shows "\<exists>v'. publish r v as = Some v' \<and> zb_rel r dm' v'"
  using assms
  by (auto simp: hm_call_def zb_call_def hm_OnQueryChannelStatusesResponse_def
      zb_OnSingleChannelControlResponse_def zb_OnZoneBeastBroadcast_def
      zb_OnReadTemperatureValuesResponse_def split: if_splits prod.splits
      dest: zb_rel_updateChannelStatus zb_rel_confirmed zb_rel_temps [where k = 0, OF _ _, simplified])

lemma zb_rel_call:
  assumes "zb_rel r dm v" and "zb_call meth msg dm = (dm', as)"
  shows "\<exists>v'. publish r v as = Some v' \<and> zb_rel r dm' v'"
proof (cases "meth = ''OnQueryChannelStatusesResponse''")
  case True
  then show ?thesis using assms by (auto simp: zb_call_def)
next
  case False
  then have "hm_call meth msg dm = (dm', as)" using assms(2) by (simp add: hm_call_def)
  then show ?thesis by (rule zb_rel_hm_call [OF assms(1)])
qed

interpretation zb: publisher "\<lambda>(meth, msg). zb_call meth msg" r "zb_rel r"
  by unfold_locales (auto intro: zb_rel_call)

interpretation hm: publisher "\<lambda>(meth, msg). hm_call meth msg" r "zb_rel r"
  by unfold_locales (auto intro: zb_rel_hm_call)

lemma zb_rel_new: "zb_rel (zb_ref (NewZoneBeastDeviceModel dev)) (NewZoneBeastDeviceModel dev) Map.empty"
  by (simp add: zb_rel_def NewZoneBeastDeviceModel_def)


section \<open>Properties\<close>

text \<open>
  (C24) Whatever messages a Zone Beast receives, what it publishes is well formed (no control is
  announced twice, none is updated before it is announced) and agrees with its state: a switch for
  every known channel and no other, with that channel's state as its value.
\<close>

theorem zonebeast_publishes_channels:
  "case loop (\<lambda>(meth, msg). zb_call meth msg) calls (NewZoneBeastDeviceModel dev) of (dm, as) \<Rightarrow>
     \<exists>v. publish (zb_ref (NewZoneBeastDeviceModel dev)) Map.empty as = Some v \<and>
       (\<forall>n. v (channel_name n) = (if 1 \<le> n \<and> n \<le> length (channelStatus dm)
          then Some (switch_value (channelStatus dm ! (n - 1))) else None)) \<and>
       (\<forall>n. (v (temp_name n) \<noteq> None) = (1 \<le> n \<and> n \<le> numTemps dm))"
proof -
  obtain dm as where run: "loop (\<lambda>(meth, msg). zb_call meth msg) calls (NewZoneBeastDeviceModel dev) = (dm, as)"
    by fastforce
  from zb.publishes_all [OF zb_rel_new run] show ?thesis
    unfolding run by (auto simp: zb_rel_def)
qed

text \<open>
  The same for the HMIX12, whose channel states come from replies to status queries.
\<close>

theorem hmix12_publishes_channels:
  "case loop (\<lambda>(meth, msg). hm_call meth msg) calls (NewHmix12DeviceModel dev) of (dm, as) \<Rightarrow>
     \<exists>v. publish (zb_ref (NewHmix12DeviceModel dev)) Map.empty as = Some v \<and>
       (\<forall>n. v (channel_name n) = (if 1 \<le> n \<and> n \<le> length (channelStatus dm)
          then Some (switch_value (channelStatus dm ! (n - 1))) else None))"
proof -
  obtain dm as where run: "loop (\<lambda>(meth, msg). hm_call meth msg) calls (NewHmix12DeviceModel dev) = (dm, as)"
    by fastforce
  from hm.publishes_all [OF zb_rel_new run [unfolded NewHmix12DeviceModel_def]] show ?thesis
    unfolding NewHmix12DeviceModel_def run [unfolded NewHmix12DeviceModel_def]
    by (auto simp: zb_rel_def)
qed

text \<open>
  After the device confirms a command for channel \<open>n\<close>, that channel has the confirmed
  state and the others keep theirs; the next broadcast is ignored, as it may be outdated; the one
  after it replaces the states of the channels it mentions.
\<close>

theorem zonebeast_confirmation_beats_broadcast:
  assumes "1 \<le> n"
  shows "let dm1 = fst (zb_OnSingleChannelControlResponse (SingleChannelControlResponse n True l st) dm);
         dm2 = fst (zb_OnZoneBeastBroadcast (ZoneBeastBroadcast zs2 st2) dm1);
         dm3 = fst (zb_OnZoneBeastBroadcast (ZoneBeastBroadcast zs3 st3) dm2)
     in channelStatus dm1 = (channelStatus dm)[unat n - 1 := (l \<noteq> 0)] \<and>
        channelStatus dm2 = channelStatus dm1 \<and>
        channelStatus dm3 = st3 @ drop (length st3) (channelStatus dm1)"
proof -
  define dm1 where "dm1 = fst (zb_OnSingleChannelControlResponse (SingleChannelControlResponse n True l st) dm)"
  define dm2 where "dm2 = fst (zb_OnZoneBeastBroadcast (ZoneBeastBroadcast zs2 st2) dm1)"
  define dm3 where "dm3 = fst (zb_OnZoneBeastBroadcast (ZoneBeastBroadcast zs3 st3) dm2)"
  have "n \<noteq> 0" using assms by auto
  then have "unat (n - 1) = unat n - 1" by (simp add: unat_minus_one)
  moreover have dm1: "dm1 = dm\<lparr>channelStatus := (channelStatus dm)[unat (n - 1) := (l \<noteq> 0)], skipBroadcast := True\<rparr>"
    using fst_updateSingleChannel [of "unat (n - 1)" "l \<noteq> 0" dm]
    by (simp add: dm1_def zb_OnSingleChannelControlResponse_def split_def)
  moreover have dm2: "dm2 = dm1\<lparr>skipBroadcast := False\<rparr>"
    using dm1 by (simp add: dm2_def zb_OnZoneBeastBroadcast_def)
  moreover have "channelStatus dm3 = st3 @ drop (length st3) (channelStatus dm2)"
    using dm2 channels_updateChannelStatus [of st3 dm2]
    by (simp add: dm3_def zb_OnZoneBeastBroadcast_def split_def)
  ultimately show ?thesis
    unfolding Let_def dm1_def [symmetric] dm2_def [symmetric] dm3_def [symmetric] by simp
qed

theorem zonebeast_confirmation_beats_broadcast_witness:
  "channelStatus (fst (zb_OnSingleChannelControlResponse (SingleChannelControlResponse 2 True 100 [])
      \<lparr>zb_base = zb_base (NewZoneBeastDeviceModel \<lparr>dev_SubnetID = 1, dev_DeviceID = 28, dev_DeviceType = 0\<rparr>),
       channelStatus = [False, False], skipBroadcast = False, numTemps = 0\<rparr>)) = [False, True]"
  using zonebeast_confirmation_beats_broadcast [where n = 2 and l = 100 and st = "[]" and
      dm = "\<lparr>zb_base = zb_base (NewZoneBeastDeviceModel
        \<lparr>dev_SubnetID = 1, dev_DeviceID = 28, dev_DeviceType = 0\<rparr>),
       channelStatus = [False, False], skipBroadcast = False, numTemps = 0\<rparr>"]
  by (simp add: Let_def)

text \<open>
  Switching the control of channel \<open>n\<close> enqueues one request, which sends a
  \<^verbatim>\<open>SingleChannelControlCommand\<close> for channel \<open>n\<close> modulo 256 at level 100 or 0 and is answered
  exactly by a \<^verbatim>\<open>SingleChannelControlResponse\<close>. So from 256 on the command goes to another
  channel than the control's.
\<close>

theorem zonebeast_switch_command:
  assumes "int n \<le> maxInt"
  shows "\<exists>req c. zb_AcceptOnValue (channel_name n) val dm = (False, [EnqueueRequest req]) \<and>
     req_thunk req = TSingleChannelControl (zb_ref dm) c (if val = ''1'' then 100 else 0) 0 \<and>
     unat c = n mod 256 \<and>
     (\<forall>msg. Request_IsResponse req msg = (Opcode msg = 0x0032))"
proof -
  have "Atoi (TrimPrefix (channel_name n) ''Channel '') = Ok (int n)"
    unfolding channel_name_def TrimPrefix_append by (rule Atoi_nat_digits [OF assms])
  moreover have "unat (word_of_nat n :: byte) = n mod 256"
    by (simp add: unsigned_of_nat take_bit_eq_mod)
  ultimately show ?thesis
    by (intro exI [of _ "newRequest ''SingleChannelControl'' (SingleChannelControlResponse 0 False 0 [])
          (TSingleChannelControl (zb_ref dm) (word_of_nat n) (if val = ''1'' then 100 else 0) 0)"]
        exI [of _ "word_of_nat n"])
       (simp add: zb_AcceptOnValue_def newRequest_def Request_IsResponse_def message_consts)
qed

theorem zonebeast_switch_command_witness:
  "\<exists>req c. zb_AcceptOnValue (channel_name 257) ''1''
       (NewZoneBeastDeviceModel \<lparr>dev_SubnetID = 1, dev_DeviceID = 28, dev_DeviceType = 0\<rparr>) =
     (False, [EnqueueRequest req]) \<and> unat c = 1 \<and>
     req_thunk req = TSingleChannelControl (RealDevice (deviceKey 1 28)) c 100 0"
  using zonebeast_switch_command [of 257 "''1''"
      "NewZoneBeastDeviceModel \<lparr>dev_SubnetID = 1, dev_DeviceID = 28, dev_DeviceType = 0\<rparr>"]
  by (auto simp: maxInt_def dm_ref_def NewZoneBeastDeviceModel_def)

end
