(* ===== verification/DDP.thy ===== *)
theory DDP
  imports DeviceBase
begin

text \<open>
  The model of the DDP wall panel, \<^verbatim>\<open>smartbus/smartbus_model.go\<close>: it reads the assignment of
  the 16 buttons one after the other, changes an assignment in a handshake of two requests, and
  switches virtual relays when a button is pressed. \<open>subnet\<close> and \<open>device\<close> are the driver's own
  address, the fields \<^verbatim>\<open>subnetID\<close> and \<^verbatim>\<open>deviceID\<close> of \<^verbatim>\<open>SmartbusModel\<close>.
\<close>

section \<open>The model\<close>

record DDPDeviceModel =
  ddp_base :: DeviceModelBase
  buttonAssignmentReceived :: "bool list"
  buttonAssignment :: "int list"
  ddp_isNew :: bool
  pendingAssignmentButtonNo :: int
  pendingAssignment :: int

definition NewDDPDeviceModel :: "SmartbusDevice \<Rightarrow> DDPDeviceModel" where
  "NewDDPDeviceModel dev =
     \<lparr>ddp_base = \<lparr>nameBase = ''ddp'', titleBase = ''DDP'', smartDev = dev\<rparr>,
      buttonAssignmentReceived = replicate PANEL_BUTTON_COUNT False,
      buttonAssignment = replicate PANEL_BUTTON_COUNT 0,
      ddp_isNew = True, pendingAssignmentButtonNo = -1, pendingAssignment = -1\<rparr>"

abbreviation ddp_ref :: "DDPDeviceModel \<Rightarrow> dev_ref" where
  "ddp_ref dm \<equiv> dm_ref (ddp_base dm)"

definition ddpControlName :: "byte \<Rightarrow> string" where
  "ddpControlName buttonNo =
     ''Page'' @ nat_digits (unat ((buttonNo - 1) div 4 + 1)) @
     ''Button'' @ nat_digits (unat ((buttonNo - 1) mod 4 + 1))"

definition ddp_Type :: u16 where "ddp_Type = 0x0095"

definition queryButton :: "byte \<Rightarrow> DDPDeviceModel \<Rightarrow> action list" where
  "queryButton n dm =
     [EnqueueRequest (newRequest ''QueryPanelButtonAssignment''
        (QueryPanelButtonAssignmentResponse 0 0 0 0 0 0 0 0)
        (TQueryPanelButtonAssignment (ddp_ref dm) n 1))]"

definition queryButtons :: "DDPDeviceModel \<Rightarrow> DDPDeviceModel \<times> action list" where
  "queryButtons dm =
     (if ddp_isNew dm then (let dm' = dm\<lparr>ddp_isNew := False\<rparr> in (dm', queryButton 1 dm'))
      else (dm, []))"

definition ddp_OnReadMACAddressResponse :: "message \<Rightarrow> DDPDeviceModel \<Rightarrow> DDPDeviceModel \<times> action list" where
  "ddp_OnReadMACAddressResponse msg dm = queryButtons dm"

definition ddp_OnQueryModules :: "message \<Rightarrow> DDPDeviceModel \<Rightarrow> DDPDeviceModel \<times> action list" where
  "ddp_OnQueryModules msg dm = queryButtons dm"

text \<open>The part of the next handler that stores and publishes an assignment.\<close>

definition setButtonAssignment ::
    "int \<Rightarrow> int \<Rightarrow> string \<Rightarrow> DDPDeviceModel \<Rightarrow> DDPDeviceModel \<times> action list" where
  "setButtonAssignment i v controlName dm =
     at_index (buttonAssignment dm) i dm (\<lambda>_.
       let dm1 = dm\<lparr>buttonAssignment := (buttonAssignment dm)[nat i := v]\<rparr> in
       at_index (buttonAssignmentReceived dm1) i dm1 (\<lambda>received.
         if received then (dm1, [Notify (OnValue (ddp_ref dm) controlName (Itoa v))])
         else (dm1\<lparr>buttonAssignmentReceived := (buttonAssignmentReceived dm1)[nat i := True]\<rparr>,
               [Notify (OnNewControl (ddp_ref dm) controlName ''text'' (Itoa v) False (-1) True)])))"

definition ddp_OnQueryPanelButtonAssignmentResponse ::
    "byte \<Rightarrow> byte \<Rightarrow> message \<Rightarrow> DDPDeviceModel \<Rightarrow> DDPDeviceModel \<times> action list" where
  "ddp_OnQueryPanelButtonAssignmentResponse subnet device msg dm =
     (if ButtonNo msg = 0 \<or> unat (ButtonNo msg) > PANEL_BUTTON_COUNT \<or> FunctionNo msg \<noteq> 1
      then (dm, [PassToQueue msg])
      else
        let i = uint (ButtonNo msg - 1);
            v = (if Command msg = BUTTON_COMMAND_SINGLE_CHANNEL_LIGHTING_CONTROL \<and>
                    CommandSubnetID msg = subnet \<and> CommandDeviceID msg = device
                 then uint (ChannelNo msg) else -1);
            controlName = ddpControlName (ButtonNo msg);
            (dm2, as) = setButtonAssignment i v controlName dm
        in (dm2, PassToQueue msg # as @
              (if unat (ButtonNo msg) < PANEL_BUTTON_COUNT then queryButton (ButtonNo msg + 1) dm2 else [])))"

definition ddp_OnSetPanelButtonModesResponse ::
    "message \<Rightarrow> DDPDeviceModel \<Rightarrow> DDPDeviceModel \<times> action list" where
  "ddp_OnSetPanelButtonModesResponse msg dm =
     (if pendingAssignmentButtonNo dm \<le> 0 then (dm, [PassToQueue msg])
      else (dm, [PassToQueue msg,
             EnqueueRequest (newRequest ''AssignPanelButton'' (AssignPanelButtonResponse 0 0)
               (TAssignPanelButton (ddp_ref dm)))]))"

text \<open>What the closure of that request sends: it reads the model's fields when it is run.\<close>

definition assign_thunk_message :: "byte \<Rightarrow> byte \<Rightarrow> DDPDeviceModel \<Rightarrow> message" where
  "assign_thunk_message subnet device dm =
     AssignPanelButton (word_of_int (pendingAssignmentButtonNo dm)) 1
       BUTTON_COMMAND_SINGLE_CHANNEL_LIGHTING_CONTROL subnet device
       (word_of_int (pendingAssignment dm)) 100 0 0"

definition ddp_OnAssignPanelButtonResponse ::
    "message \<Rightarrow> DDPDeviceModel \<Rightarrow> DDPDeviceModel \<times> action list" where
  "ddp_OnAssignPanelButtonResponse msg dm =
     (if pendingAssignmentButtonNo dm \<ge> 0 \<and> uint (ButtonNo msg) = pendingAssignmentButtonNo dm \<and>
         FunctionNo msg = 1
      then (dm\<lparr>pendingAssignmentButtonNo := -1, pendingAssignment := -1\<rparr>,
            [PassToQueue msg,
             Notify (OnValue (ddp_ref dm) (ddpControlName (ButtonNo msg)) (Itoa (pendingAssignment dm)))])
      else (dm, [PassToQueue msg]))"

definition ddp_OnSingleChannelControlCommand ::
    "message \<Rightarrow> VirtualRelayDevice \<Rightarrow> DDPDeviceModel \<Rightarrow> VirtualRelayDevice \<times> action list" where
  "ddp_OnSingleChannelControlCommand msg relays dm =
     (case SetVirtualRelayOn (uint (ChannelNo msg)) (Level msg > 0) relays of
        (relays', as) \<Rightarrow>
          (relays', as @ [SendTo (smartDev (ddp_base dm))
             (SingleChannelControlResponse (ChannelNo msg) True (Level msg) (VirtualRelayStatus relays'))]))"

definition button_mode :: "int \<Rightarrow> string" where
  "button_mode assignment =
     (if assignment \<le> 0 \<or> assignment > int NUM_VIRTUAL_RELAYS then ''Invalid'' else ''SingleOnOff'')"

definition set_modes ::
    "int \<Rightarrow> int \<Rightarrow> DDPDeviceModel \<Rightarrow> string list \<times> DDPDeviceModel" where
  "set_modes buttonNo newAssignment dm =
     (let asg = map (\<lambda>(i, assignment). if buttonNo = int i + 1 then newAssignment else assignment)
            (enumerate 0 (buttonAssignment dm))
      in (map button_mode asg, dm\<lparr>buttonAssignment := asg\<rparr>))"

text \<open>
  The array \<^verbatim>\<open>modes\<close> has an entry for each of the 16 buttons, and so has \<^verbatim>\<open>buttonAssignment\<close> that the
  loop runs over (\<open>ddp_inv\<close> below). The slice expressions panic where \<^verbatim>\<open>Button\<close> does not occur in the name.\<close>

definition ddp_AcceptOnValue ::
    "string \<Rightarrow> string \<Rightarrow> DDPDeviceModel \<Rightarrow> (bool \<times> DDPDeviceModel \<times> action list) go_result" where
  "ddp_AcceptOnValue name val dm =
     (if pendingAssignmentButtonNo dm > 0 then Ok (False, dm, [])
      else
        let s1 = TrimPrefix name ''Page''; idx = Index s1 ''Button'' in
        if idx < 0 then Panic SliceBounds
        else
          (case Atoi (take (nat idx) s1) of
             Ok pageNo \<Rightarrow>
               (case Atoi (drop (nat idx + 6) s1) of
                  Ok pageButtonNo \<Rightarrow>
                    let buttonNo = wrap_int ((pageNo - 1) * 4 + pageButtonNo) in
                    (case Atoi val of
                       Ok newAssignment \<Rightarrow>
                         if newAssignment \<le> 0 \<or> newAssignment > int NUM_VIRTUAL_RELAYS then Ok (False, dm, [])
                         else if \<not> list_all id (buttonAssignmentReceived dm) then Ok (False, dm, [])
                         else
                           let (modes, dm1) = set_modes buttonNo newAssignment dm in
                           Ok (False,
                               dm1\<lparr>pendingAssignmentButtonNo := buttonNo, pendingAssignment := newAssignment\<rparr>,
                               [EnqueueRequest (newRequest ''SetPanelButtonModes''
                                  (SetPanelButtonModesResponse False)
                                  (TSetPanelButtonModes (ddp_ref dm) modes))])
                     | _ \<Rightarrow> Ok (False, dm, []))
                | _ \<Rightarrow> Ok (False, dm, []))
           | _ \<Rightarrow> Ok (False, dm, [])))"

definition ddp_methods :: "string list" where
  "ddp_methods = [''OnReadMACAddressResponse'', ''OnQueryModules'',
     ''OnQueryPanelButtonAssignmentResponse'', ''OnSetPanelButtonModesResponse'',
     ''OnAssignPanelButtonResponse'', ''OnSingleChannelControlCommand'']"

definition ddp_call :: "byte \<Rightarrow> byte \<Rightarrow> string \<Rightarrow> message \<Rightarrow> VirtualRelayDevice \<times> DDPDeviceModel \<Rightarrow>
    (VirtualRelayDevice \<times> DDPDeviceModel) \<times> action list" where
  "ddp_call subnet device meth msg = (\<lambda>(relays, dm).
     let keep = (\<lambda>(dm', as). ((relays, dm'), as)) in
     if meth = ''OnReadMACAddressResponse'' then keep (ddp_OnReadMACAddressResponse msg dm)
     else if meth = ''OnQueryModules'' then keep (ddp_OnQueryModules msg dm)
     else if meth = ''OnQueryPanelButtonAssignmentResponse''
       then keep (ddp_OnQueryPanelButtonAssignmentResponse subnet device msg dm)
     else if meth = ''OnSetPanelButtonModesResponse'' then keep (ddp_OnSetPanelButtonModesResponse msg dm)
     else if meth = ''OnAssignPanelButtonResponse'' then keep (ddp_OnAssignPanelButtonResponse msg dm)
     else if meth = ''OnSingleChannelControlCommand''
       then (case ddp_OnSingleChannelControlCommand msg relays dm of (relays', as) \<Rightarrow> ((relays', dm), as))
     else ((relays, dm), []))"


section \<open>Button names\<close>

lemma unat_button:
  assumes "1 \<le> b" and "b \<le> 16"
  shows "unat (word_of_nat b - 1 :: byte) = b - 1" and "unat (word_of_nat b :: byte) = b"
proof -
  show "unat (word_of_nat b :: byte) = b"
    using assms by (simp add: unsigned_of_nat take_bit_nat_eq_self_iff)
  then have "unat (word_of_nat b :: byte) \<noteq> 0" using assms by simp
  then have "(word_of_nat b :: byte) \<noteq> 0" by force
  then show "unat (word_of_nat b - 1 :: byte) = b - 1"
    using \<open>unat (word_of_nat b :: byte) = b\<close> by (simp add: unat_minus_one)
qed

lemma control_name_button:
  assumes "1 \<le> b" and "b \<le> 16"
  shows "ddpControlName (word_of_nat b) =
     ''Page'' @ nat_digits ((b - 1) div 4 + 1) @ ''Button'' @ nat_digits ((b - 1) mod 4 + 1)"
proof -
  have div4: "unat ((x :: byte) div 4 + 1) = unat x div 4 + 1" for x
  proof -
    have "unat (x div 4) = unat x div 4" by (simp add: unat_div)
    moreover have "unat x div 4 < 64" using unat_byte_less [of x] by linarith
    ultimately show ?thesis by (subst unat_plus_simple [THEN iffD1]) (simp_all add: word_le_nat_alt unat_word_ariths)
  qed
  have mod4: "unat ((x :: byte) mod 4 + 1) = unat x mod 4 + 1" for x
    by (simp add: unat_mod unat_word_ariths)
  show ?thesis
    by (simp add: ddpControlName_def div4 mod4 unat_button(1) [OF assms])
qed

lemma div_mod_button: "4 * ((b - 1) div 4) + (b - 1) mod 4 = b - (1 :: nat)"
  by simp

lemma small_maxInt: "n \<le> 16 \<Longrightarrow> int n \<le> maxInt"
  by (simp add: maxInt_def)

text \<open>The name of a button's control leads back to the button.\<close>

lemma parse_button_name:
  assumes "1 \<le> b" and "b \<le> 16"
  defines "s1 \<equiv> TrimPrefix (ddpControlName (word_of_nat b)) ''Page''"
  shows "0 \<le> Index s1 ''Button''"
    and "Atoi (take (nat (Index s1 ''Button'')) s1) = Ok (int ((b - 1) div 4) + 1)"
    and "Atoi (drop (nat (Index s1 ''Button'') + 6) s1) = Ok (int ((b - 1) mod 4) + 1)"
proof -
  let ?p = "nat_digits ((b - 1) div 4 + 1)" and ?q = "nat_digits ((b - 1) mod 4 + 1)"
  have s1: "s1 = ?p @ ''Button'' @ ?q"
    unfolding s1_def control_name_button [OF assms(1,2)] TrimPrefix_append by simp
  have "CHR ''B'' \<notin> set ?p"
    using nat_digits_digits not_is_digit(3) by blast
  from Index_append [OF this, of "''utton''" ?q] have idx: "Index s1 ''Button'' = int (length ?p)"
    by (simp add: s1)
  show "0 \<le> Index s1 ''Button''" by (simp add: idx)
  have "(b - 1) div 4 + 1 \<le> 16" "(b - 1) mod 4 + 1 \<le> 16" using assms(2) by auto
  from this [THEN small_maxInt]
  have "Atoi ?p = Ok (int ((b - 1) div 4 + 1))" "Atoi ?q = Ok (int ((b - 1) mod 4 + 1))"
    by (simp_all only: Atoi_nat_digits)
  then show "Atoi (take (nat (Index s1 ''Button'')) s1) = Ok (int ((b - 1) div 4) + 1)"
    and "Atoi (drop (nat (Index s1 ''Button'') + 6) s1) = Ok (int ((b - 1) mod 4) + 1)"
    unfolding idx by (simp_all add: s1)
qed

lemma button_number:
  assumes "1 \<le> b" and "b \<le> 16"
  shows "wrap_int ((int ((b - 1) div 4) + 1 - 1) * 4 + (int ((b - 1) mod 4) + 1)) = int b"
proof -
  have "int (4 * ((b - 1) div 4) + (b - 1) mod 4) = int (b - 1)"
    by (simp only: div_mod_button)
  moreover have "4 * x + y = z \<Longrightarrow> (x + 1 - 1) * 4 + (y + 1) = z + 1" for x y z :: int by simp
  ultimately have "(int ((b - 1) div 4) + 1 - 1) * 4 + (int ((b - 1) mod 4) + 1) = int (b - 1) + 1"
    unfolding of_nat_add of_nat_mult of_nat_numeral by blast
  also have "\<dots> = int b" using assms(1) by simp
  finally show ?thesis using assms by (simp add: wrap_int_id maxInt_def)
qed

lemma control_name_inj:
  assumes "1 \<le> b" "b \<le> 16" "1 \<le> c" "c \<le> 16"
  shows "ddpControlName (word_of_nat b) = ddpControlName (word_of_nat c) \<longleftrightarrow> b = c"
proof
  assume eq: "ddpControlName (word_of_nat b) = ddpControlName (word_of_nat c)"
  have "(b - 1) div 4 = (c - 1) div 4" "(b - 1) mod 4 = (c - 1) mod 4"
    using parse_button_name(2,3) [OF assms(1,2)] parse_button_name(2,3) [OF assms(3,4)]
    unfolding eq by auto
  then have "b - 1 = c - 1" by (metis div_mod_button)
  with assms show "b = c" by simp
qed simp


section \<open>Assignments\<close>

lemma enumerate_update:
  "map (\<lambda>(i, x). if k = i then y else x) (enumerate m xs) = (if m \<le> k then xs[k - m := y] else xs)"
proof (induction xs arbitrary: m)
  case (Cons x xs)
  consider "k = m" | "k < m" | j where "k = m + Suc j"
    by (metis less_imp_Suc_add linorder_neqE_nat add_Suc_right)
  then show ?case using Cons by cases auto
qed simp

lemma set_modes_button:
  assumes "1 \<le> b"
  shows "set_modes (int b) k dm =
     (map button_mode ((buttonAssignment dm)[b - 1 := k]), dm\<lparr>buttonAssignment := (buttonAssignment dm)[b - 1 := k]\<rparr>)"
proof -
  have eq: "int b = int i + 1 \<longleftrightarrow> b - 1 = i" for i using assms by linarith
  show ?thesis
    using enumerate_update [of "b - 1" k 0 "buttonAssignment dm"]
    by (simp add: set_modes_def eq Let_def)
qed

lemma AcceptOnValue_name:
  assumes "1 \<le> b" and "b \<le> 16"
  shows "ddp_AcceptOnValue (ddpControlName (word_of_nat b)) val dm =
     Ok (False,
       if pendingAssignmentButtonNo dm \<le> 0 \<and> list_all id (buttonAssignmentReceived dm) \<and>
          (\<exists>k. Atoi val = Ok k \<and> 1 \<le> k \<and> k \<le> 15)
       then let k = (case Atoi val of Ok k \<Rightarrow> k | _ \<Rightarrow> 0) in
         (dm\<lparr>buttonAssignment := (buttonAssignment dm)[b - 1 := k], pendingAssignmentButtonNo := int b,
            pendingAssignment := k\<rparr>,
          [EnqueueRequest (newRequest ''SetPanelButtonModes'' (SetPanelButtonModesResponse False)
            (TSetPanelButtonModes (ddp_ref dm) (map button_mode ((buttonAssignment dm)[b - 1 := k]))))])
       else (dm, []))"
  using parse_button_name [OF assms] button_number [OF assms] set_modes_button [OF assms(1)]
  by (cases "Atoi val") (auto simp: ddp_AcceptOnValue_def Let_def NUM_VIRTUAL_RELAYS_def)

lemma AcceptOnValue_button:
  assumes "1 \<le> b" and "b \<le> 16" and "1 \<le> k" and "k \<le> 15"
    and "pendingAssignmentButtonNo dm \<le> 0" and "list_all id (buttonAssignmentReceived dm)"
  shows "ddp_AcceptOnValue (ddpControlName (word_of_nat b)) (Itoa k) dm =
     Ok (False,
       dm\<lparr>buttonAssignment := (buttonAssignment dm)[b - 1 := k], pendingAssignmentButtonNo := int b,
          pendingAssignment := k\<rparr>,
       [EnqueueRequest (newRequest ''SetPanelButtonModes'' (SetPanelButtonModesResponse False)
          (TSetPanelButtonModes (ddp_ref dm) (map button_mode ((buttonAssignment dm)[b - 1 := k]))))])"
proof -
  have "Atoi (Itoa k) = Ok k" using assms(3,4) by (intro Atoi_Itoa) (simp_all add: maxInt_def)
  then show ?thesis using assms by (simp add: AcceptOnValue_name)
qed


section \<open>What is published\<close>

text \<open>
  What happens to a panel: it receives a message, or the client sets the control of one of its
  buttons.
\<close>

datatype ddp_event = Receives string message | Sets nat string

fun ddp_serve :: "byte \<Rightarrow> byte \<Rightarrow> ddp_event \<Rightarrow> VirtualRelayDevice \<times> DDPDeviceModel \<Rightarrow>
    (VirtualRelayDevice \<times> DDPDeviceModel) \<times> action list" where
  "ddp_serve subnet device (Receives meth msg) s = ddp_call subnet device meth msg s"
| "ddp_serve subnet device (Sets b val) (relays, dm) =
     (if 1 \<le> b \<and> b \<le> 16
      then (case ddp_AcceptOnValue (ddpControlName (word_of_nat b)) val dm of
              Ok (_, dm', as) \<Rightarrow> ((relays, dm'), as)
            | _ \<Rightarrow> ((relays, dm), []))
      else ((relays, dm), []))"

definition ddp_inv :: "DDPDeviceModel \<Rightarrow> bool" where
  "ddp_inv dm =
     (length (buttonAssignmentReceived dm) = 16 \<and> length (buttonAssignment dm) = 16 \<and>
      (pendingAssignmentButtonNo dm = -1 \<or>
       1 \<le> pendingAssignmentButtonNo dm \<and> pendingAssignmentButtonNo dm \<le> 16 \<and>
       1 \<le> pendingAssignment dm \<and> pendingAssignment dm \<le> 15 \<and>
       list_all id (buttonAssignmentReceived dm)))"

definition ddp_rel :: "dev_ref \<Rightarrow> VirtualRelayDevice \<times> DDPDeviceModel \<Rightarrow> view \<Rightarrow> bool" where
  "ddp_rel r s v =
     (ddp_ref (snd s) = r \<and> ddp_inv (snd s) \<and> length (relayStatus (fst s)) = NUM_VIRTUAL_RELAYS \<and>
      (\<forall>b. 1 \<le> b \<and> b \<le> 16 \<longrightarrow>
         (v (ddpControlName (word_of_nat b)) \<noteq> None) = buttonAssignmentReceived (snd s) ! (b - 1)) \<and>
      (\<forall>c. v c \<noteq> None \<longrightarrow> (\<exists>b. 1 \<le> b \<and> b \<le> 16 \<and> c = ddpControlName (word_of_nat b))))"

text \<open>The relay a reply assigns to a button, -1 for anything that is not a relay of ours.\<close>

definition assigned :: "byte \<Rightarrow> byte \<Rightarrow> message \<Rightarrow> int" where
  "assigned subnet device msg =
     (if Command msg = BUTTON_COMMAND_SINGLE_CHANNEL_LIGHTING_CONTROL \<and>
         CommandSubnetID msg = subnet \<and> CommandDeviceID msg = device
      then uint (ChannelNo msg) else -1)"

lemma query_response_button:
  assumes "1 \<le> b" and "b \<le> 16" and "ButtonNo msg = word_of_nat b" and "FunctionNo msg = 1"
    and "length (buttonAssignment dm) = 16" and "length (buttonAssignmentReceived dm) = 16"
  shows "ddp_OnQueryPanelButtonAssignmentResponse subnet device msg dm =
     (let x = assigned subnet device msg;
          dm1 = dm\<lparr>buttonAssignment := (buttonAssignment dm)[b - 1 := x]\<rparr>;
          name = ddpControlName (word_of_nat b);
          next = (if b < 16 then queryButton (word_of_nat (b + 1)) dm else [])
      in if buttonAssignmentReceived dm ! (b - 1)
         then (dm1, [PassToQueue msg, Notify (OnValue (ddp_ref dm) name (Itoa x))] @ next)
         else (dm1\<lparr>buttonAssignmentReceived := (buttonAssignmentReceived dm)[b - 1 := True]\<rparr>,
               [PassToQueue msg, Notify (OnNewControl (ddp_ref dm) name ''text'' (Itoa x) False (-1) True)] @ next))"
proof -
  define j where "j = b - 1"
  have "(word_of_nat b :: byte) \<noteq> 0"
    using unat_button(2) [OF assms(1,2)] assms(1) by (metis not_one_le_zero unsigned_0)
  moreover have "uint (word_of_nat b - 1 :: byte) = int j"
    unfolding j_def using unat_button(1) [OF assms(1,2)] by (metis of_nat_unat)
  moreover have "j < 16" using assms(1,2) by (simp add: j_def)
  ultimately show ?thesis
    unfolding j_def [symmetric] using assms(2-) unat_button(2) [OF assms(1,2)]
    by (simp add: ddp_OnQueryPanelButtonAssignmentResponse_def setButtonAssignment_def PANEL_BUTTON_COUNT_def
        assigned_def Let_def queryButton_def add.commute)
qed

lemma publish_queryButton [simp]: "publish r v (queryButton n dm) = Some v"
  by (simp add: queryButton_def)

text \<open>Whether a message is a reply about one of the buttons.\<close>

definition about_button :: "message \<Rightarrow> bool" where
  "about_button msg = (1 \<le> unat (ButtonNo msg) \<and> unat (ButtonNo msg) \<le> 16 \<and> FunctionNo msg = 1)"

lemma not_about_button:
  "\<not> about_button msg \<Longrightarrow> ddp_OnQueryPanelButtonAssignmentResponse subnet device msg dm = (dm, [PassToQueue msg])"
  by (auto simp: about_button_def ddp_OnQueryPanelButtonAssignmentResponse_def PANEL_BUTTON_COUNT_def unat_eq_zero
      not_le)

lemma ddp_rel_query:
  assumes "ddp_rel r (relays, dm) v"
    and "ddp_OnQueryPanelButtonAssignmentResponse subnet device msg dm = (dm', as)"
  shows "publish r v as = Some (if about_button msg
       then v(ddpControlName (ButtonNo msg) \<mapsto> Itoa (assigned subnet device msg)) else v) \<and>
     ddp_rel r (relays, dm') (if about_button msg
       then v(ddpControlName (ButtonNo msg) \<mapsto> Itoa (assigned subnet device msg)) else v) \<and>
     pendingAssignmentButtonNo dm' = pendingAssignmentButtonNo dm \<and> pendingAssignment dm' = pendingAssignment dm"
proof (cases "about_button msg")
  case False
  then show ?thesis using assms not_about_button [OF False, of subnet device dm] by auto
next
  case True
  define b where "b = unat (ButtonNo msg)"
  have b: "1 \<le> b" "b \<le> 16" and w: "ButtonNo msg = word_of_nat b" and f: "FunctionNo msg = 1"
    using True by (auto simp: b_def about_button_def)
  have inv: "ddp_inv dm" and r: "ddp_ref dm = r" and
    v: "\<And>c. 1 \<le> c \<Longrightarrow> c \<le> 16 \<Longrightarrow> (v (ddpControlName (word_of_nat c)) \<noteq> None) = buttonAssignmentReceived dm ! (c - 1)"
    and relays: "length (relayStatus relays) = NUM_VIRTUAL_RELAYS"
    using assms(1) by (auto simp: ddp_rel_def)
  have only: "\<And>c. v c \<noteq> None \<Longrightarrow> \<exists>b. 1 \<le> b \<and> b \<le> 16 \<and> c = ddpControlName (word_of_nat b)"
    using assms(1) by (simp add: ddp_rel_def)
  have len: "length (buttonAssignment dm) = 16" "length (buttonAssignmentReceived dm) = 16"
    using inv by (simp_all add: ddp_inv_def)
  note resp = query_response_button [OF b w f len, of subnet device, unfolded assms(2)]
  have at: "c - 1 = b - 1 \<longleftrightarrow> c = b" if "1 \<le> c" for c using that b by linarith
  let ?name = "ddpControlName (word_of_nat b)" and ?x = "assigned subnet device msg"
  let ?dm = "dm\<lparr>buttonAssignment := (buttonAssignment dm)[b - 1 := ?x]\<rparr>"
  have inv': "ddp_inv ?dm" using inv by (simp add: ddp_inv_def)
  show ?thesis
  proof (cases "buttonAssignmentReceived dm ! (b - 1)")
    case received: True
    then have "v ?name \<noteq> None" using v [OF b] by simp
    then have "publish r v as = Some (v(?name \<mapsto> Itoa ?x))" and dm': "dm' = ?dm"
      using resp received r by (simp_all add: Let_def publish_append)
    moreover have "ddp_rel r (relays, ?dm) (v(?name \<mapsto> Itoa ?x))"
      using inv' r v received b only relays by (auto simp: ddp_rel_def control_name_inj)
    ultimately show ?thesis using True w by simp
  next
    case not: False
    let ?dm2 = "?dm\<lparr>buttonAssignmentReceived := (buttonAssignmentReceived dm)[b - 1 := True]\<rparr>"
    have "v ?name = None" using v [OF b] not by simp
    then have "publish r v as = Some (v(?name \<mapsto> Itoa ?x))" and dm': "dm' = ?dm2"
      using resp not r by (simp_all add: Let_def publish_append)
    moreover have "\<not> list_all id (buttonAssignmentReceived dm)"
      using not b len by (auto simp: list_all_length intro!: exI [of _ "b - 1"])
    then have "ddp_inv ?dm2" using inv by (auto simp: ddp_inv_def)
    then have "ddp_rel r (relays, ?dm2) (v(?name \<mapsto> Itoa ?x))"
      using r v b len only relays by (auto simp: ddp_rel_def control_name_inj nth_list_update at)
    ultimately show ?thesis using True w by simp
  qed
qed

lemma publish_SetRelayOn_other:
  "length (relayStatus relays) = NUM_VIRTUAL_RELAYS \<Longrightarrow> r \<noteq> VirtualRelays \<Longrightarrow>
     publish r v (snd (SetRelayOn c on relays)) = Some v"
  by (auto simp: SetRelayOn_def at_index_def)

lemma length_SetRelayOn: "length (relayStatus (fst (SetRelayOn c on relays))) = length (relayStatus relays)"
  by (simp add: SetRelayOn_def at_index_def)

lemma ref_not_relays [simp]: "dm_ref base \<noteq> VirtualRelays" "VirtualRelays \<noteq> dm_ref base"
  by (simp_all add: dm_ref_def)

lemma ddp_rel_command:
  assumes "ddp_rel r (relays, dm) v" and "ddp_OnSingleChannelControlCommand msg relays dm = (relays', as)"
  shows "publish r v as = Some v \<and> ddp_rel r (relays', dm) v"
proof -
  have "length (relayStatus relays) = NUM_VIRTUAL_RELAYS" "r \<noteq> VirtualRelays"
    using assms(1) by (auto simp: ddp_rel_def)
  note SetRelayOn = publish_SetRelayOn_other [OF this, of v "uint (ChannelNo msg)" "Level msg > 0"]
    length_SetRelayOn [of "uint (ChannelNo msg)" "Level msg > 0" relays]
  then show ?thesis
    using assms by (auto simp: ddp_OnSingleChannelControlCommand_def ddp_rel_def publish_append split: prod.splits)
qed

text \<open>Whether a message confirms the pending assignment.\<close>

definition confirms_pending :: "message \<Rightarrow> DDPDeviceModel \<Rightarrow> bool" where
  "confirms_pending msg dm =
     (pendingAssignmentButtonNo dm \<ge> 0 \<and> uint (ButtonNo msg) = pendingAssignmentButtonNo dm \<and> FunctionNo msg = 1)"

lemma ddp_rel_assign:
  assumes "ddp_rel r (relays, dm) v" and "ddp_OnAssignPanelButtonResponse msg dm = (dm', as)"
  shows "publish r v as = Some (if confirms_pending msg dm
       then v(ddpControlName (ButtonNo msg) \<mapsto> Itoa (pendingAssignment dm)) else v) \<and>
     ddp_rel r (relays, dm') (if confirms_pending msg dm
       then v(ddpControlName (ButtonNo msg) \<mapsto> Itoa (pendingAssignment dm)) else v) \<and>
     dm' = (if confirms_pending msg dm then dm\<lparr>pendingAssignmentButtonNo := -1, pendingAssignment := -1\<rparr> else dm)"
proof (cases "confirms_pending msg dm")
  case False
  then show ?thesis using assms by (auto simp: ddp_OnAssignPanelButtonResponse_def confirms_pending_def)
next
  case True
  define b where "b = unat (ButtonNo msg)"
  have all: "list_all id (buttonAssignmentReceived dm)" "length (buttonAssignmentReceived dm) = 16"
    and range: "1 \<le> uint (ButtonNo msg)" "uint (ButtonNo msg) \<le> 16"
    using True assms(1) by (auto simp: ddp_rel_def ddp_inv_def confirms_pending_def)
  moreover have u: "uint (ButtonNo msg) = int b" unfolding b_def by simp
  ultimately have b: "1 \<le> b" "b \<le> 16" by linarith+
  have w: "ButtonNo msg = word_of_nat b" unfolding b_def by simp
  have "buttonAssignmentReceived dm ! (b - 1)"
    using all b by (simp add: list_all_length)
  then have "v (ddpControlName (word_of_nat b)) \<noteq> None"
    using assms(1) b by (simp add: ddp_rel_def)
  moreover have dm': "dm' = dm\<lparr>pendingAssignmentButtonNo := -1, pendingAssignment := -1\<rparr>"
    using assms(2) True by (simp add: ddp_OnAssignPanelButtonResponse_def confirms_pending_def)
  moreover from this have "ddp_rel r (relays, dm') (v(ddpControlName (word_of_nat b) \<mapsto> y))" for y
    using assms(1) b all by (auto simp: ddp_rel_def ddp_inv_def control_name_inj list_all_length)
  ultimately show ?thesis
    using assms True w by (auto simp: ddp_OnAssignPanelButtonResponse_def ddp_rel_def confirms_pending_def)
qed

lemma ddp_rel_accept:
  assumes "ddp_rel r (relays, dm) v" and "ddp_serve subnet device (Sets b val) (relays, dm) = (s', as)"
  shows "publish r v as = Some v \<and> ddp_rel r s' v"
proof (cases "1 \<le> b \<and> b \<le> 16")
  case True
  then show ?thesis
    using assms by (auto simp: AcceptOnValue_name Let_def ddp_rel_def ddp_inv_def split: if_splits)
next
  case False
  then show ?thesis using assms by auto
qed

lemma ddp_rel_queryButtons:
  "ddp_rel r (relays, dm) v \<Longrightarrow> queryButtons dm = (dm', as) \<Longrightarrow> publish r v as = Some v \<and> ddp_rel r (relays, dm') v"
  by (auto simp: queryButtons_def Let_def ddp_rel_def ddp_inv_def split: if_splits)

lemma ddp_rel_modes:
  "ddp_rel r (relays, dm) v \<Longrightarrow> ddp_OnSetPanelButtonModesResponse msg dm = (dm', as) \<Longrightarrow>
     publish r v as = Some v \<and> ddp_rel r (relays, dm') v"
  by (auto simp: ddp_OnSetPanelButtonModesResponse_def split: if_splits)

text \<open>
  What an event makes of the published values: a reply about a button sets the button's value, the
  confirmation of the pending assignment sets the value of its button; nothing else changes any.
\<close>

definition ddp_shows :: "byte \<Rightarrow> byte \<Rightarrow> ddp_event \<Rightarrow> DDPDeviceModel \<Rightarrow> view \<Rightarrow> view" where
  "ddp_shows subnet device ev dm v =
     (case ev of
        Receives meth msg \<Rightarrow>
          if meth = ''OnQueryPanelButtonAssignmentResponse'' \<and> about_button msg
          then v(ddpControlName (ButtonNo msg) \<mapsto> Itoa (assigned subnet device msg))
          else if meth = ''OnAssignPanelButtonResponse'' \<and> confirms_pending msg dm
          then v(ddpControlName (ButtonNo msg) \<mapsto> Itoa (pendingAssignment dm)) else v
      | Sets b val \<Rightarrow> v)"

lemma ddp_serve_shows:
  assumes "ddp_rel r (relays, dm) v" and "ddp_serve subnet device ev (relays, dm) = (s', as)"
  shows "publish r v as = Some (ddp_shows subnet device ev dm v) \<and> ddp_rel r s' (ddp_shows subnet device ev dm v)"
proof (cases ev)
  case (Sets b val)
  then show ?thesis using assms ddp_rel_accept by (simp add: ddp_shows_def)
next
  case (Receives meth msg)
  then show ?thesis
    using assms
    by (auto simp: ddp_shows_def ddp_call_def Let_def ddp_OnReadMACAddressResponse_def ddp_OnQueryModules_def
        dest!: ddp_rel_query [OF assms(1)] ddp_rel_assign [OF assms(1)] ddp_rel_command [OF assms(1)]
          ddp_rel_queryButtons [OF assms(1)] ddp_rel_modes [OF assms(1)]
        split: if_splits prod.splits)
qed

lemma ddp_rel_serve:
  assumes "ddp_rel r s v" and "ddp_serve subnet device ev s = (s', as)"
  shows "\<exists>v'. publish r v as = Some v' \<and> ddp_rel r s' v'"
  using ddp_serve_shows assms by (cases s) blast

interpretation ddp: publisher "ddp_serve subnet device" r "ddp_rel r"
  by unfold_locales (rule ddp_rel_serve)

end
