(* ===== verification/DDPCorrect.thy ===== *)
theory DDPCorrect
  imports DDP
begin

text \<open>
  What the model of the DDP panel guarantees: it publishes its buttons as an abstract panel does
  that knows nothing but the values shown and the assignment under way, it reads all buttons,
  changes an assignment in two steps, and publishes what its buttons do to the virtual relays.
\<close>

section \<open>Relays\<close>

lemma publish_relays_setButton:
  "setButtonAssignment i x c dm = (dm', as) \<Longrightarrow> \<not> panics as \<Longrightarrow> publish VirtualRelays v as = Some v"
  by (auto simp: setButtonAssignment_def at_index_def Let_def split: if_splits)

lemma publish_relays_none:
  assumes "ddp_OnQueryPanelButtonAssignmentResponse subnet device msg dm = (dm', as)" and "\<not> panics as"
  shows "publish VirtualRelays v as = Some v"
  using assms
  by (auto simp: ddp_OnQueryPanelButtonAssignmentResponse_def Let_def publish_append publish_relays_setButton
      split: if_splits prod.splits)

lemma relays_rel_command:
  assumes "relays_rel relays v" and "ddp_OnSingleChannelControlCommand msg relays dm = (relays', as)"
  shows "\<exists>v'. publish VirtualRelays v as = Some v' \<and> relays_rel relays' v'"
proof -
  obtain as1 where s: "SetRelayOn (uint (ChannelNo msg)) (Level msg > 0) relays = (relays', as1)"
    and as: "as = as1 @ [SendTo (smartDev (ddp_base dm))
       (SingleChannelControlResponse (ChannelNo msg) True (Level msg) (RelayStatus relays'))]"
    using assms(2) by (auto simp: ddp_OnSingleChannelControlCommand_def split: prod.splits)
  from relays_publish_SetRelayOn [OF assms(1) s] show ?thesis
    unfolding as by (auto simp: publish_append)
qed

lemma relays_rel_serve:
  assumes "relays_rel (fst s) v" and "ddp_serve subnet device ev s = (s', as)" and "\<not> panics as"
  shows "\<exists>v'. publish VirtualRelays v as = Some v' \<and> relays_rel (fst s') v'"
proof -
  obtain relays dm where s: "s = (relays, dm)" by fastforce
  show ?thesis
  proof (cases ev)
    case (Sets b val)
    then show ?thesis
      using assms by (auto simp: s AcceptOnValue_name Let_def split: if_splits)
  next
    case (Receives meth msg)
    then show ?thesis
      using assms publish_relays_none relays_rel_command
      by (auto simp: s ddp_call_def Let_def ddp_OnReadMACAddressResponse_def ddp_OnQueryModules_def
          queryButtons_def queryButton_def ddp_OnSetPanelButtonModesResponse_def
          ddp_OnAssignPanelButtonResponse_def split: if_splits prod.splits)
  qed
qed


section \<open>The abstract panel\<close>

lemma ddp_rel_new:
  "length (relayStatus relays) = NUM_VIRTUAL_RELAYS \<Longrightarrow>
     ddp_rel (ddp_ref (NewDDPDeviceModel dev)) (relays, NewDDPDeviceModel dev) Map.empty"
  by (auto simp: ddp_rel_def ddp_inv_def NewDDPDeviceModel_def PANEL_BUTTON_COUNT_def)

text \<open>
  The panel as its user sees it: the value shown for each button whose assignment is known, and
  the button and the relay of an assignment that is under way.
\<close>

record panel =
  shown :: "nat \<rightharpoonup> int"
  under_way :: "(nat \<times> int) option"

definition new_panel :: panel where
  "new_panel = \<lparr>shown = Map.empty, under_way = None\<rparr>"

text \<open>
  The panel's reply about a button sets what is shown for it. A request to assign relay 1 to 15
  to a button is taken if all buttons are known and nothing is under way. The panel's confirmation for
  the button under way makes the new relay shown and ends the assignment.
\<close>

fun panel_step :: "byte \<Rightarrow> byte \<Rightarrow> ddp_event \<Rightarrow> panel \<Rightarrow> panel" where
  "panel_step subnet device (Receives meth msg) p =
     (if meth = ''OnQueryPanelButtonAssignmentResponse'' \<and> about_button msg
      then p\<lparr>shown := (shown p)(unat (ButtonNo msg) \<mapsto> assigned subnet device msg)\<rparr>
      else if meth = ''OnAssignPanelButtonResponse'' \<and> FunctionNo msg = 1
      then (case under_way p of
              Some (b, k) \<Rightarrow>
                if unat (ButtonNo msg) = b then p\<lparr>shown := (shown p)(b \<mapsto> k), under_way := None\<rparr> else p
            | None \<Rightarrow> p)
      else p)"
| "panel_step subnet device (Sets b val) p =
     (case Atoi val of
        Ok k \<Rightarrow>
          if b \<in> {1..16} \<and> k \<in> {1..15} \<and> under_way p = None \<and> {1..16} \<subseteq> dom (shown p)
          then p\<lparr>under_way := Some (b, k)\<rparr> else p
      | _ \<Rightarrow> p)"

definition panel_rel :: "dev_ref \<Rightarrow> VirtualRelayDevice \<times> DDPDeviceModel \<Rightarrow> panel \<Rightarrow> view \<Rightarrow> bool" where
  "panel_rel r s p v =
     (ddp_rel r s v \<and>
      (\<forall>b. 1 \<le> b \<and> b \<le> 16 \<longrightarrow> v (ddpControlName (word_of_nat b)) = map_option Itoa (shown p b)) \<and>
      under_way p = (if pendingAssignmentButtonNo (snd s) = -1 then None
        else Some (nat (pendingAssignmentButtonNo (snd s)), pendingAssignment (snd s))))"

lemma panel_rel_known:
  assumes "panel_rel r (relays, dm) p v"
  shows "{1..16} \<subseteq> dom (shown p) \<longleftrightarrow> list_all id (buttonAssignmentReceived dm)"
proof -
  have at: "buttonAssignmentReceived dm ! (b - 1) \<longleftrightarrow> b \<in> dom (shown p)" if "1 \<le> b" "b \<le> 16" for b
    using assms that by (auto simp: panel_rel_def ddp_rel_def)
  have len: "length (buttonAssignmentReceived dm) = 16"
    using assms by (simp add: panel_rel_def ddp_rel_def ddp_inv_def)
  show ?thesis
  proof
    assume all: "{1..16} \<subseteq> dom (shown p)"
    have "buttonAssignmentReceived dm ! i" if "i < 16" for i
      using at [of "Suc i"] subsetD [OF all, of "Suc i"] that by simp
    then show "list_all id (buttonAssignmentReceived dm)" by (simp add: list_all_length len)
  next
    assume "list_all id (buttonAssignmentReceived dm)"
    then have "buttonAssignmentReceived dm ! (b - 1)" if "1 \<le> b" "b \<le> 16" for b
      using that by (simp add: list_all_length len)
    then show "{1..16} \<subseteq> dom (shown p)" using at by (intro subsetI) simp
  qed
qed

lemma panel_rel_show:
  assumes "panel_rel r s p v" and "ButtonNo msg = word_of_nat c" and "1 \<le> c" and "c \<le> 16"
    and "ddp_rel r s' (v(ddpControlName (ButtonNo msg) \<mapsto> Itoa x))"
    and "u = (if pendingAssignmentButtonNo (snd s') = -1 then None
        else Some (nat (pendingAssignmentButtonNo (snd s')), pendingAssignment (snd s')))"
  shows "panel_rel r s' (p\<lparr>shown := (shown p)(c \<mapsto> x), under_way := u\<rparr>) (v(ddpControlName (ButtonNo msg) \<mapsto> Itoa x))"
  using assms by (auto simp: panel_rel_def control_name_inj)

lemma panel_rel_sets:
  assumes "panel_rel r (relays, dm) p v" and "ddp_serve subnet device (Sets b val) (relays, dm) = (s', as)"
  shows "panel_rel r s' (panel_step subnet device (Sets b val) p) v"
proof -
  have rel: "ddp_rel r (relays, dm) v" using assms(1) by (simp add: panel_rel_def)
  have "ddp_rel r s' v" using ddp_rel_accept [OF rel assms(2)] by simp
  moreover have "under_way p = None \<longleftrightarrow> pendingAssignmentButtonNo dm \<le> 0"
    using assms(1) by (auto simp: panel_rel_def ddp_rel_def ddp_inv_def)
  ultimately show ?thesis
    using assms panel_rel_known [OF assms(1)]
    by (cases "Atoi val"; cases "1 \<le> b \<and> b \<le> 16")
       (auto simp: panel_rel_def AcceptOnValue_name Let_def split: if_splits)
qed

lemma panel_rel_confirm:
  assumes "panel_rel r (relays, dm) p v" and "ddp_OnAssignPanelButtonResponse msg dm = (dm', as)"
  shows "panel_rel r (relays, dm') (panel_step subnet device (Receives ''OnAssignPanelButtonResponse'' msg) p)
     (ddp_shows subnet device (Receives ''OnAssignPanelButtonResponse'' msg) dm v)"
proof -
  have rel: "ddp_rel r (relays, dm) v" using assms(1) by (simp add: panel_rel_def)
  then have range: "pendingAssignmentButtonNo dm = -1 \<or>
      1 \<le> pendingAssignmentButtonNo dm \<and> pendingAssignmentButtonNo dm \<le> 16"
    by (auto simp: ddp_rel_def ddp_inv_def)
  have u: "uint (ButtonNo msg) = int (unat (ButtonNo msg))" by simp
  have confirms: "confirms_pending msg dm \<longleftrightarrow>
      FunctionNo msg = 1 \<and> under_way p = Some (unat (ButtonNo msg), pendingAssignment dm)"
  proof -
    have "int (unat (ButtonNo msg)) = q \<longleftrightarrow> nat q = unat (ButtonNo msg)" if "1 \<le> q" for q using that by linarith
    then have "uint (ButtonNo msg) = q \<longleftrightarrow> nat q = unat (ButtonNo msg)" if "1 \<le> q" for q using that u by presburger
    with assms(1) range show ?thesis by (auto simp: confirms_pending_def panel_rel_def)
  qed
  note step = ddp_rel_assign [OF rel assms(2)]
  show ?thesis
  proof (cases "confirms_pending msg dm")
    case True
    define c where "c = unat (ButtonNo msg)"
    have w: "ButtonNo msg = word_of_nat c" by (simp add: c_def)
    have c: "1 \<le> c" "c \<le> 16"
      using True range u unfolding confirms_pending_def c_def by linarith+
    have "panel_step subnet device (Receives ''OnAssignPanelButtonResponse'' msg) p =
        p\<lparr>shown := (shown p)(c \<mapsto> pendingAssignment dm), under_way := None\<rparr>"
      using True confirms by (simp add: c_def)
    moreover have "ddp_shows subnet device (Receives ''OnAssignPanelButtonResponse'' msg) dm v =
        v(ddpControlName (ButtonNo msg) \<mapsto> Itoa (pendingAssignment dm))"
      using True by (simp add: ddp_shows_def)
    moreover have "panel_rel r (relays, dm') (p\<lparr>shown := (shown p)(c \<mapsto> pendingAssignment dm), under_way := None\<rparr>)
        (v(ddpControlName (ButtonNo msg) \<mapsto> Itoa (pendingAssignment dm)))"
      using True step by (intro panel_rel_show [OF assms(1) w c]) auto
    ultimately show ?thesis by (simp only:)
  next
    case False
    then have "panel_step subnet device (Receives ''OnAssignPanelButtonResponse'' msg) p = p"
      using confirms assms(1) by (auto simp: panel_rel_def split: option.split)
    then show ?thesis using False step assms(1) by (simp add: ddp_shows_def)
  qed
qed

lemma panel_rel_serve:
  assumes "panel_rel r (relays, dm) p v" and "ddp_serve subnet device ev (relays, dm) = (s', as)"
  shows "publish r v as = Some (ddp_shows subnet device ev dm v) \<and>
     panel_rel r s' (panel_step subnet device ev p) (ddp_shows subnet device ev dm v)"
proof -
  have rel: "ddp_rel r (relays, dm) v" using assms(1) by (simp add: panel_rel_def)
  note serve = ddp_serve_shows [OF rel assms(2)]
  moreover have "panel_rel r s' (panel_step subnet device ev p) (ddp_shows subnet device ev dm v)"
  proof (cases ev)
    case (Sets b val)
    then show ?thesis using panel_rel_sets assms by (simp add: ddp_shows_def)
  next
    case (Receives meth msg)
    consider (query) "meth = ''OnQueryPanelButtonAssignmentResponse''" | (confirm) "meth = ''OnAssignPanelButtonResponse''"
      | (other) "meth \<noteq> ''OnQueryPanelButtonAssignmentResponse''" "meth \<noteq> ''OnAssignPanelButtonResponse''" by blast
    then show ?thesis
    proof cases
      case query
      then obtain dm' where dm': "ddp_OnQueryPanelButtonAssignmentResponse subnet device msg dm = (dm', as)" "s' = (relays, dm')"
        using assms(2) Receives by (auto simp: ddp_call_def split: prod.splits)
      define c where "c = unat (ButtonNo msg)"
      have w: "ButtonNo msg = word_of_nat c" by (simp add: c_def)
      note step = ddp_rel_query [OF rel dm'(1)]
      show ?thesis
      proof (cases "about_button msg")
        case True
        then have c: "1 \<le> c" "c \<le> 16" by (simp_all add: about_button_def c_def)
        have "panel_step subnet device ev p =
            p\<lparr>shown := (shown p)(c \<mapsto> assigned subnet device msg), under_way := under_way p\<rparr>"
          using True query Receives by (simp add: c_def)
        then show ?thesis
          using True query Receives step dm'(2) assms(1)
            panel_rel_show [OF assms(1) w c, of s' "assigned subnet device msg" "under_way p"]
          by (simp add: ddp_shows_def panel_rel_def)
      next
        case False
        then show ?thesis using query Receives step dm'(2) assms(1) by (simp add: ddp_shows_def panel_rel_def)
      qed
    next
      case confirm
      then obtain dm' where dm': "ddp_OnAssignPanelButtonResponse msg dm = (dm', as)" "s' = (relays, dm')"
        using assms(2) Receives by (auto simp: ddp_call_def split: prod.splits)
      then show ?thesis using panel_rel_confirm [OF assms(1) dm'(1)] confirm Receives by simp
    next
      case other
      then have "pendingAssignmentButtonNo (snd s') = pendingAssignmentButtonNo dm"
        "pendingAssignment (snd s') = pendingAssignment dm"
        using assms(2) Receives
        by (auto simp: ddp_call_def Let_def ddp_OnReadMACAddressResponse_def ddp_OnQueryModules_def
            queryButtons_def ddp_OnSetPanelButtonModesResponse_def split: if_splits prod.splits)
      then show ?thesis using other serve assms(1) Receives by (simp add: panel_rel_def ddp_shows_def)
    qed
  qed
  ultimately show ?thesis by blast
qed

lemma panel_rel_run:
  assumes "panel_rel r s p v" and "loop (ddp_serve subnet device) evs s = (s', as)"
  shows "\<exists>v'. publish r v as = Some v' \<and> panel_rel r s' (fold (panel_step subnet device) evs p) v'"
  using assms
proof (induction evs arbitrary: s p v as)
  case Nil
  then show ?case by simp
next
  case (Cons ev evs)
  obtain s1 as1 where ev: "ddp_serve subnet device ev s = (s1, as1)" by fastforce
  obtain as2 where evs: "loop (ddp_serve subnet device) evs s1 = (s', as2)" and as: "as = as1 @ as2"
    using Cons.prems(2) ev by (auto split: prod.splits)
  obtain v1 where "publish r v as1 = Some v1" "panel_rel r s1 (panel_step subnet device ev p) v1"
    using panel_rel_serve Cons.prems(1) ev by (cases s) blast
  with Cons.IH [OF this(2) evs] as show ?case by (auto simp: publish_append)
qed

text \<open>
  (C25) The panel's model refines the abstract panel. Whatever messages a panel receives and whatever
  its controls are set to, nothing panics, every control is announced once and updated only after
  that, and the controls that the client sees are exactly those of the buttons that the abstract
  panel shows, with the values it shows: the last reply about the button or the last confirmed
  assignment, whichever came later.
\<close>

theorem ddp_publishes_buttons:
  assumes "length (relayStatus relays) = NUM_VIRTUAL_RELAYS"
  shows "\<exists>v. publish (ddp_ref (NewDDPDeviceModel dev)) Map.empty
       (snd (loop (ddp_serve subnet device) evs (relays, NewDDPDeviceModel dev))) = Some v \<and>
     list_all (\<lambda>b. v (ddpControlName (word_of_nat b)) =
         map_option Itoa (shown (fold (panel_step subnet device) evs new_panel) b)) [1..<17] \<and>
     dom v \<subseteq> ddpControlName ` word_of_nat ` {1..16}"
proof -
  obtain s' as where
    run: "loop (ddp_serve subnet device) evs (relays, NewDDPDeviceModel dev) = (s', as)"
    by fastforce
  have "panel_rel (ddp_ref (NewDDPDeviceModel dev)) (relays, NewDDPDeviceModel dev) new_panel Map.empty"
    using ddp_rel_new [OF assms] by (simp add: panel_rel_def new_panel_def NewDDPDeviceModel_def)
  from panel_rel_run [OF this run] show ?thesis
    unfolding run image_image by (fastforce simp: panel_rel_def ddp_rel_def list_all_iff image_iff)
qed

theorem ddp_publishes_buttons_witness:
  "\<exists>v. publish (RealDevice (deviceKey 1 0x14)) Map.empty
       (snd (loop (ddp_serve 1 0x99)
         [Receives ''OnQueryPanelButtonAssignmentResponse'' (QueryPanelButtonAssignmentResponse 5 1 0x59 1 0x99 3 100 0)]
         (NewVirtualRelayDevice, NewDDPDeviceModel \<lparr>dev_SubnetID = 1, dev_DeviceID = 0x14, dev_DeviceType = 0\<rparr>))) = Some v \<and>
     v (ddpControlName 5) = Some (Itoa 3) \<and> v (ddpControlName 6) = None"
proof -
  let ?dev = "\<lparr>dev_SubnetID = 1, dev_DeviceID = 0x14, dev_DeviceType = 0\<rparr>"
  let ?evs = "[Receives ''OnQueryPanelButtonAssignmentResponse'' (QueryPanelButtonAssignmentResponse 5 1 0x59 1 0x99 3 100 0)]"
  have "length (relayStatus NewVirtualRelayDevice) = NUM_VIRTUAL_RELAYS" by (simp add: NewVirtualRelayDevice_def)
  from ddp_publishes_buttons [OF this, of ?dev 1 "0x99" ?evs] obtain v where
    v: "publish (ddp_ref (NewDDPDeviceModel ?dev)) Map.empty
       (snd (loop (ddp_serve 1 0x99) ?evs (NewVirtualRelayDevice, NewDDPDeviceModel ?dev))) = Some v" and
    at: "\<forall>b \<in> set [1..<17]. v (ddpControlName (word_of_nat b)) =
         map_option Itoa (shown (fold (panel_step 1 0x99) ?evs new_panel) b)"
    unfolding list_all_iff by blast
  have "shown (fold (panel_step 1 0x99) ?evs new_panel) = [5 \<mapsto> 3]"
    by (simp add: about_button_def assigned_def message_consts new_panel_def)
  then have "v (ddpControlName 5) = Some (Itoa 3)" "v (ddpControlName 6) = None"
    using bspec [OF at, of 5] bspec [OF at, of 6] by simp_all
  moreover have "ddp_ref (NewDDPDeviceModel ?dev) = RealDevice (deviceKey 1 0x14)"
    by (simp add: NewDDPDeviceModel_def dm_ref_def)
  ultimately show ?thesis using v by (intro exI [of _ v]) (simp only: simp_thms)
qed

section \<open>Reading the buttons\<close>

text \<open>What the reply about button \<open>b\<close> makes a panel do that did not know the button.\<close>

definition reply_effects :: "DDPDeviceModel \<Rightarrow> int \<Rightarrow> message \<Rightarrow> nat \<Rightarrow> action list" where
  "reply_effects dm x msg b =
     [PassToQueue msg,
      Notify (OnNewControl (ddp_ref dm) (ddpControlName (word_of_nat b)) ''text'' (Itoa x) False (-1) True)] @
     (if b < 16 then queryButton (word_of_nat (b + 1)) dm else [])"

lemma query_run:
  assumes "\<And>b. 1 \<le> b \<Longrightarrow> b \<le> n \<Longrightarrow> ButtonNo (msgs b) = word_of_nat b \<and> FunctionNo (msgs b) = 1"
    and "n \<le> 16" and "buttonAssignmentReceived dm = replicate 16 False" and "length (buttonAssignment dm) = 16"
  shows "loop (\<lambda>b. ddp_OnQueryPanelButtonAssignmentResponse subnet device (msgs b)) [1..<Suc n] dm =
     (dm\<lparr>buttonAssignment := map (\<lambda>b. assigned subnet device (msgs b)) [1..<Suc n] @ drop n (buttonAssignment dm),
         buttonAssignmentReceived := replicate n True @ replicate (16 - n) False\<rparr>,
      concat (map (\<lambda>b. reply_effects dm (assigned subnet device (msgs b)) (msgs b) b) [1..<Suc n]))"
  using assms(1,2)
proof (induction n)
  case 0
  then show ?case using assms(3) by simp
next
  case (Suc n)
  let ?asg = "\<lambda>n. map (\<lambda>b. assigned subnet device (msgs b)) [1..<Suc n] @ drop n (buttonAssignment dm)"
  let ?rec = "\<lambda>n. replicate n True @ replicate (16 - n) False"
  let ?dm = "\<lambda>n. dm\<lparr>buttonAssignment := ?asg n, buttonAssignmentReceived := ?rec n\<rparr>"
  let ?as = "\<lambda>b. reply_effects dm (assigned subnet device (msgs b)) (msgs b) b"
  let ?f = "\<lambda>b. ddp_OnQueryPanelButtonAssignmentResponse subnet device (msgs b)"
  have n: "n < 16" using Suc.prems(2) by simp
  have IH: "loop ?f [1..<Suc n] dm = (?dm n, concat (map ?as [1..<Suc n]))" using Suc by simp
  have "(?asg n)[n := assigned subnet device (msgs (Suc n))] = ?asg (Suc n)"
    using Suc.prems(2) assms(4) by (simp add: list_update_append Cons_nth_drop_Suc [symmetric])
  moreover have "(?rec n)[n := True] = ?rec (Suc n)"
    using Suc.prems(2)
    by (simp add: list_update_append replicate_append_same [symmetric] Suc_diff_Suc [symmetric]
        del: replicate_append_same)
  moreover have "\<not> ?rec n ! n" using Suc.prems(2) by (simp add: nth_append)
  moreover have "length (?asg n) = 16" "length (?rec n) = 16"
    using n assms(4) by (simp_all del: upt_Suc)
  ultimately have "?f (Suc n) (?dm n) = (?dm (Suc n), ?as (Suc n))"
    using query_response_button [of "Suc n" "msgs (Suc n)" "?dm n" subnet device] Suc.prems
    by (simp add: Let_def reply_effects_def queryButton_def)
  then show ?case
    using IH by (simp only: upt_Suc_append [of 1 "Suc n"] loop_snoc) simp
qed

lemma publish_replies:
  assumes "n \<le> 16"
  shows "\<exists>v. publish (ddp_ref dm) Map.empty (concat (map (\<lambda>b. reply_effects dm (x b) (msgs b) b) [1..<Suc n])) = Some v \<and>
     (\<forall>b. 1 \<le> b \<and> b \<le> 16 \<longrightarrow> v (ddpControlName (word_of_nat b)) = (if b \<le> n then Some (Itoa (x b)) else None))"
  using assms
proof (induction n)
  case 0
  then show ?case by simp
next
  case (Suc n)
  then obtain v where v: "publish (ddp_ref dm) Map.empty (concat (map (\<lambda>b. reply_effects dm (x b) (msgs b) b) [1..<Suc n])) = Some v"
    "\<And>b. 1 \<le> b \<Longrightarrow> b \<le> 16 \<Longrightarrow> v (ddpControlName (word_of_nat b)) = (if b \<le> n then Some (Itoa (x b)) else None)"
    by auto
  let ?v = "v(ddpControlName (word_of_nat (Suc n)) \<mapsto> Itoa (x (Suc n)))"
  have "v (ddpControlName (word_of_nat (Suc n))) = None" using v(2) [of "Suc n"] Suc.prems by simp
  then have "publish (ddp_ref dm) v (reply_effects dm (x (Suc n)) (msgs (Suc n)) (Suc n)) = Some ?v"
    by (simp add: reply_effects_def)
  moreover have "?v (ddpControlName (word_of_nat b)) = (if b \<le> Suc n then Some (Itoa (x b)) else None)"
    if "1 \<le> b" "b \<le> 16" for b
    using v(2) [OF that] control_name_inj [OF that, of "Suc n"] Suc.prems by auto
  ultimately show ?case using v(1) by (auto simp: publish_append)
qed

text \<open>
  (C12) A new panel asks for button 1. The replies for buttons 1 to 16, in order, then make all
  assignments known: the relay number where the button controls a relay of this driver, -1
  otherwise. Each reply announces the button's control with that value, and each but the last makes
  the driver ask for the next button; nothing else happens. So in the end the client sees all 16 controls with
  their values.
\<close>

theorem ddp_reads_all_buttons:
  assumes "\<And>b. 1 \<le> b \<Longrightarrow> b \<le> 16 \<Longrightarrow> ButtonNo (msgs b) = word_of_nat b \<and> FunctionNo (msgs b) = 1"
  shows "let dm = fst (queryButtons (NewDDPDeviceModel dev));
         (dm', as) = loop (\<lambda>b. ddp_OnQueryPanelButtonAssignmentResponse subnet device (msgs b)) [1..<17] dm
     in snd (queryButtons (NewDDPDeviceModel dev)) = queryButton 1 dm \<and>
        list_all id (buttonAssignmentReceived dm') \<and>
        buttonAssignment dm' = map (\<lambda>b. assigned subnet device (msgs b)) [1..<17] \<and>
        as = concat (map (\<lambda>b.
          [PassToQueue (msgs b),
           Notify (OnNewControl (ddp_ref dm) (ddpControlName (word_of_nat b)) ''text''
             (Itoa (assigned subnet device (msgs b))) False (-1) True)] @
          (if b < 16 then queryButton (word_of_nat (b + 1)) dm else [])) [1..<17]) \<and>
        (\<exists>v. publish (ddp_ref dm) Map.empty as = Some v \<and>
          list_all (\<lambda>b. v (ddpControlName (word_of_nat b)) = Some (Itoa (assigned subnet device (msgs b)))) [1..<17])"
proof -
  let ?dm = "fst (queryButtons (NewDDPDeviceModel dev))"
  let ?x = "\<lambda>b. assigned subnet device (msgs b)"
  have "buttonAssignmentReceived ?dm = replicate 16 False" "length (buttonAssignment ?dm) = 16"
    by (simp_all add: queryButtons_def NewDDPDeviceModel_def PANEL_BUTTON_COUNT_def Let_def)
  from query_run [of 16 msgs ?dm subnet device, OF assms order_refl this]
  have run: "loop (\<lambda>b. ddp_OnQueryPanelButtonAssignmentResponse subnet device (msgs b)) [1..<17] ?dm =
     (?dm\<lparr>buttonAssignment := map ?x [1..<17] @ drop 16 (buttonAssignment ?dm),
         buttonAssignmentReceived := replicate 16 True\<rparr>,
      concat (map (\<lambda>b. reply_effects ?dm (?x b) (msgs b) b) [1..<17]))"
    by (simp del: upt_rec_numeral)
  obtain v where "publish (ddp_ref ?dm) Map.empty (concat (map (\<lambda>b. reply_effects ?dm (?x b) (msgs b) b) [1..<17])) = Some v"
    "\<And>b. 1 \<le> b \<Longrightarrow> b \<le> 16 \<Longrightarrow> v (ddpControlName (word_of_nat b)) = Some (Itoa (?x b))"
    using publish_replies [of 16 ?dm ?x msgs] by (auto simp del: upt_rec_numeral)
  moreover have "snd (queryButtons (NewDDPDeviceModel dev)) = queryButton 1 ?dm"
    by (simp add: queryButtons_def NewDDPDeviceModel_def Let_def)
  moreover have "drop 16 (buttonAssignment ?dm) = []"
    by (simp add: queryButtons_def NewDDPDeviceModel_def PANEL_BUTTON_COUNT_def Let_def)
  ultimately show ?thesis
    unfolding Let_def run prod.case
    by (auto simp: list_all_iff reply_effects_def simp del: upt_rec_numeral)
qed

theorem ddp_reads_all_buttons_witness:
  "buttonAssignment (fst (loop (\<lambda>b. ddp_OnQueryPanelButtonAssignmentResponse 1 0x99
      (QueryPanelButtonAssignmentResponse (word_of_nat b) 1 0x59 1 0x99 3 100 0)) [1..<17]
      (fst (queryButtons (NewDDPDeviceModel \<lparr>dev_SubnetID = 1, dev_DeviceID = 0x14, dev_DeviceType = 0\<rparr>)))))
     = replicate 16 3"
  using ddp_reads_all_buttons [of "\<lambda>b. QueryPanelButtonAssignmentResponse (word_of_nat b) 1 0x59 1 0x99 3 100 0"
      "\<lparr>dev_SubnetID = 1, dev_DeviceID = 0x14, dev_DeviceType = 0\<rparr>" 1 "0x99"]
  by (simp add: Let_def assigned_def message_consts map_replicate_const split_def del: upt_rec_numeral)


section \<open>Changing an assignment\<close>

text \<open>
  (C11) Setting the control of button \<open>b\<close> to relay \<open>k\<close> asks the panel to enable exactly the buttons
  that have a relay; when it has done so, the panel is asked to assign the button; when it confirms
  that, the new value is published and the panel is ready for the next change.
\<close>

theorem ddp_assignment_handshake:
  assumes "1 \<le> b" and "b \<le> 16" and "1 \<le> k" and "k \<le> 15"
    and "pendingAssignmentButtonNo dm \<le> 0" and "list_all id (buttonAssignmentReceived dm)"
  shows "\<exists>dm1 req1 req2 dm2. 
     ddp_AcceptOnValue (ddpControlName (word_of_nat b)) (Itoa k) dm = Ok (False, dm1, [EnqueueRequest req1]) \<and>
     req_thunk req1 = TSetPanelButtonModes (ddp_ref dm)
       (map (\<lambda>a. if 1 \<le> a \<and> a \<le> 15 then ''SingleOnOff'' else ''Invalid'') ((buttonAssignment dm)[b - 1 := k])) \<and>
     ddp_OnSetPanelButtonModesResponse (SetPanelButtonModesResponse ok) dm1 =
       (dm1, [PassToQueue (SetPanelButtonModesResponse ok), EnqueueRequest req2]) \<and>
     req_thunk req2 = TAssignPanelButton (ddp_ref dm) \<and>
     assign_thunk_message subnet device dm1 =
       AssignPanelButton (word_of_nat b) 1 0x59 subnet device (word_of_int k) 100 0 0 \<and>
     ddp_OnAssignPanelButtonResponse (AssignPanelButtonResponse (word_of_nat b) 1) dm1 =
       (dm2, [PassToQueue (AssignPanelButtonResponse (word_of_nat b) 1),
              Notify (OnValue (ddp_ref dm) (ddpControlName (word_of_nat b)) (Itoa k))]) \<and>
     dm2 = dm\<lparr>buttonAssignment := (buttonAssignment dm)[b - 1 := k], pendingAssignmentButtonNo := -1,
              pendingAssignment := -1\<rparr>"
proof -
  let ?dm1 = "dm\<lparr>buttonAssignment := (buttonAssignment dm)[b - 1 := k], pendingAssignmentButtonNo := int b,
      pendingAssignment := k\<rparr>"
  have "uint (word_of_nat b :: byte) = int b"
    using unat_button(2) [OF assms(1,2)] by (metis of_nat_unat)
  moreover have "button_mode = (\<lambda>a. if 1 \<le> a \<and> a \<le> 15 then ''SingleOnOff'' else ''Invalid'')"
    by (auto simp: button_mode_def NUM_VIRTUAL_RELAYS_def)
  ultimately show ?thesis
    using assms
    by (intro exI [of _ ?dm1] exI)
       (auto simp: AcceptOnValue_button newRequest_def ddp_OnSetPanelButtonModesResponse_def
         ddp_OnAssignPanelButtonResponse_def assign_thunk_message_def message_consts)
qed

definition sample_ddp :: DDPDeviceModel where
  "sample_ddp = (NewDDPDeviceModel \<lparr>dev_SubnetID = 1, dev_DeviceID = 0x14, dev_DeviceType = 0\<rparr>)
     \<lparr>buttonAssignmentReceived := replicate 16 True\<rparr>"

theorem ddp_assignment_handshake_witness:
  "\<exists>dm1 req1. ddp_AcceptOnValue (ddpControlName (word_of_nat 5)) (Itoa 3) sample_ddp =
       Ok (False, dm1, [EnqueueRequest req1]) \<and>
     assign_thunk_message 1 0x99 dm1 = AssignPanelButton (word_of_nat 5) 1 0x59 1 0x99 (word_of_int 3) 100 0 0"
proof -
  have pre: "pendingAssignmentButtonNo sample_ddp \<le> 0" "list_all id (buttonAssignmentReceived sample_ddp)"
    by (simp_all add: sample_ddp_def NewDDPDeviceModel_def list_all_iff)
  from ddp_assignment_handshake [of 5 3, OF _ _ _ _ pre, of False 1 "0x99"] show ?thesis by auto
qed

text \<open>
  The panel answers twice when its first answer came after the request was repeated. Then two
  assignment requests are queued, and if the first is confirmed before the second is run, the second
  assigns relay 255 to button 255: the closure reads the fields that the confirmation has reset.
\<close>

theorem ddp_duplicate_reply_misassigns:
  assumes "1 \<le> pendingAssignmentButtonNo dm" and "pendingAssignmentButtonNo dm = uint b"
  shows "let (dm1, as1) = ddp_OnSetPanelButtonModesResponse (SetPanelButtonModesResponse True) dm;
         (dm2, as2) = ddp_OnSetPanelButtonModesResponse (SetPanelButtonModesResponse True) dm1;
         (dm3, as3) = ddp_OnAssignPanelButtonResponse (AssignPanelButtonResponse b 1) dm2
     in length (filter (\<lambda>a. \<exists>req. a = EnqueueRequest req \<and> req_thunk req = TAssignPanelButton (ddp_ref dm))
          (as1 @ as2 @ as3)) = 2 \<and>
        assign_thunk_message subnet device dm3 = AssignPanelButton 255 1 0x59 subnet device 255 100 0 0"
  using assms
  by (simp add: ddp_OnSetPanelButtonModesResponse_def ddp_OnAssignPanelButtonResponse_def
      assign_thunk_message_def newRequest_def message_consts)

theorem ddp_duplicate_reply_misassigns_witness:
  "let dm = sample_ddp\<lparr>pendingAssignmentButtonNo := 5, pendingAssignment := 3\<rparr>;
       (dm3, as3) = ddp_OnAssignPanelButtonResponse (AssignPanelButtonResponse 5 1)
         (fst (ddp_OnSetPanelButtonModesResponse (SetPanelButtonModesResponse True)
           (fst (ddp_OnSetPanelButtonModesResponse (SetPanelButtonModesResponse True) dm))))
   in assign_thunk_message 1 0x99 dm3 = AssignPanelButton 255 1 0x59 1 0x99 255 100 0 0"
  using ddp_duplicate_reply_misassigns [of "sample_ddp\<lparr>pendingAssignmentButtonNo := 5, pendingAssignment := 3\<rparr>" 5 1 "0x99"]
  by (simp add: Let_def split_def)

text \<open>
  Setting a control whose name has no \<^verbatim>\<open>Button\<close> after the optional \<^verbatim>\<open>Page\<close> crashes the
  driver while no assignment is pending; no other name or value does.
\<close>

theorem ddp_bad_name_panics:
  "(\<exists>p. ddp_AcceptOnValue name val dm = Panic p) \<longleftrightarrow>
     pendingAssignmentButtonNo dm \<le> 0 \<and> (\<nexists>xs ys. TrimPrefix name ''Page'' = xs @ ''Button'' @ ys)"
  unfolding Index_neg [symmetric]
  by (simp add: ddp_AcceptOnValue_def Let_def split_def split: go_result.split)

text \<open>
  (C26) A button press for relay \<open>n\<close> from 1 to 15 switches that relay and no other; if this changes
  the relay's state, the new state is published, and in any case the published values are then the
  states; a press for another number changes nothing. In every case the panel is told
  the resulting states, after they were published.
\<close>

theorem ddp_button_press:
  assumes "relays_rel relays v"
  shows "case ddp_OnSingleChannelControlCommand (SingleChannelControlCommand n l d) relays dm of
     (relays', as) \<Rightarrow>
       relayStatus relays' = (if 1 \<le> n \<and> n \<le> 15 then (relayStatus relays)[unat n - 1 := (l > 0)] else relayStatus relays) \<and>
       as = (if 1 \<le> n \<and> n \<le> 15 \<and> relayStatus relays ! (unat n - 1) \<noteq> (l > 0)
             then [Notify (OnValue VirtualRelays (relay_name (unat n)) (if l > 0 then ''1'' else ''0''))] else []) @
         [SendTo (smartDev (ddp_base dm)) (SingleChannelControlResponse n True l (relayStatus relays'))] \<and>
       (\<exists>v'. publish VirtualRelays v as = Some v' \<and>
          (\<forall>m. v' (relay_name m) = (if m = unat n \<and> 1 \<le> n \<and> n \<le> 15
             then Some (if l > 0 then ''1'' else ''0'') else v (relay_name m))))"
proof -
  define m where "m = unat n"
  have le: "1 \<le> n \<longleftrightarrow> 1 \<le> m" "n \<le> 15 \<longleftrightarrow> m \<le> 15" by (simp_all add: word_le_nat_alt m_def)
  have u: "uint n = int m" by (simp add: m_def)
  have len: "length (relayStatus relays) = NUM_VIRTUAL_RELAYS" using assms by (simp add: relays_rel_def)
  have "(relayStatus relays)[m - 1 := relayStatus relays ! (m - 1)] = relayStatus relays" by simp
  moreover have "v (relay_name m) = Some (switch_value (relayStatus relays ! (m - 1)))" if "1 \<le> m" "m \<le> 15"
    using assms that by (simp add: relays_rel_def NUM_VIRTUAL_RELAYS_def)
  ultimately show ?thesis
    unfolding le m_def [symmetric] ddp_OnSingleChannelControlCommand_def
    by (auto simp: u SetRelayOn_nat [OF len] NUM_VIRTUAL_RELAYS_def RelayStatus_def switch_value_def
        simp del: list_update_id)
qed

theorem ddp_button_press_witness:
  "\<exists>v v'. publish VirtualRelays Map.empty (relays_Publish NewVirtualRelayDevice) = Some v \<and>
     v (relay_name 2) = Some ''0'' \<and>
     publish VirtualRelays v (snd (ddp_OnSingleChannelControlCommand (SingleChannelControlCommand 2 100 0)
       NewVirtualRelayDevice sample_ddp)) = Some v' \<and> v' (relay_name 2) = Some ''1''"
proof -
  obtain v where v: "publish VirtualRelays Map.empty (relays_Publish NewVirtualRelayDevice) = Some v"
    "relays_rel NewVirtualRelayDevice v"
    using relays_Publish_fresh by blast
  moreover from v(2) have "v (relay_name 2) = Some ''0''"
    by (simp add: relays_rel_def NewVirtualRelayDevice_def NUM_VIRTUAL_RELAYS_def switch_value_def)
  ultimately show ?thesis
    using ddp_button_press [OF v(2), where n = 2 and l = 100 and d = 0 and dm = sample_ddp] by (auto simp: split_def)
qed

end
