(* ===== verification/Sensors.thy ===== *)
theory Sensors
  imports DeviceBase
begin

text \<open>
  The models of the 8-in-1 sensors, \<^verbatim>\<open>smartbus/smartbus_model.go\<close>: they are polled and publish
  what the reply says, announcing their five controls with the first one.
\<close>

record Sensor8in1 =
  sens_base :: DeviceModelBase
  sens_isNew :: bool

definition NewSensor8in1 :: "SmartbusDevice \<Rightarrow> Sensor8in1" where
  "NewSensor8in1 dev =
     \<lparr>sens_base = \<lparr>nameBase = ''8in1Sensor'', titleBase = ''8 in 1 Sensor'', smartDev = dev\<rparr>,
      sens_isNew = True\<rparr>"

abbreviation sens_ref :: "Sensor8in1 \<Rightarrow> dev_ref" where
  "sens_ref sens \<equiv> dm_ref (sens_base sens)"

definition sens_Type :: u16 where "sens_Type = 0x149"

definition sens_Poll :: "Sensor8in1 \<Rightarrow> action list" where
  "sens_Poll sens = [SendTo (smartDev (sens_base sens)) ReadSensorStatus]"

definition sens_AcceptOnValue :: "string \<Rightarrow> string \<Rightarrow> bool" where
  "sens_AcceptOnValue name val = False"

definition reportValue :: "string \<Rightarrow> string \<Rightarrow> string \<Rightarrow> Sensor8in1 \<Rightarrow> action list" where
  "reportValue name paramType val sens =
     (if sens_isNew sens then [Notify (OnNewControl (sens_ref sens) name paramType val True (-1) True)]
      else [Notify (OnValue (sens_ref sens) name val)])"

definition reportInt :: "string \<Rightarrow> string \<Rightarrow> int \<Rightarrow> Sensor8in1 \<Rightarrow> action list" where
  "reportInt name paramType val sens = reportValue name paramType (Itoa val) sens"

definition reportBool :: "string \<Rightarrow> string \<Rightarrow> bool \<Rightarrow> Sensor8in1 \<Rightarrow> action list" where
  "reportBool name paramType val sens = reportValue name paramType (if val then ''1'' else ''0'') sens"

definition sens_OnReadSensorStatusResponse :: "message \<Rightarrow> Sensor8in1 \<Rightarrow> Sensor8in1 \<times> action list" where
  "sens_OnReadSensorStatusResponse msg sens =
     (sens\<lparr>sens_isNew := False\<rparr>,
      reportInt ''Temperature'' ''temperature'' (Temperature msg) sens @
      reportInt ''Illuminance'' ''lux'' (uint (Illuminance msg)) sens @
      reportBool ''Movement'' ''switch'' (Movement msg) sens @
      reportBool ''DryContact1'' ''switch'' (DryContact1 msg) sens @
      reportBool ''DryContact2'' ''switch'' (DryContact2 msg) sens)"

definition sens_methods :: "string list" where
  "sens_methods = [''OnReadMACAddressResponse'', ''OnReadSensorStatusResponse'']"

definition sens_call :: "string \<Rightarrow> message \<Rightarrow> Sensor8in1 \<Rightarrow> Sensor8in1 \<times> action list" where
  "sens_call meth msg sens =
     (if meth = ''OnReadSensorStatusResponse'' then sens_OnReadSensorStatusResponse msg sens else (sens, []))"

text \<open>
  \<^verbatim>\<open>SensorSB_CMS_8in1\<close> embeds a \<^verbatim>\<open>Sensor8in1\<close> and inherits its methods, which use the field
  \<^verbatim>\<open>isNew\<close> of the embedded sensor; its own field of that name is not used.
\<close>

record SensorSB_CMS_8in1 =
  cms_Sensor8in1 :: Sensor8in1
  cms_isNew :: bool

definition NewSensorSB_CMS_8in1 :: "SmartbusDevice \<Rightarrow> SensorSB_CMS_8in1" where
  "NewSensorSB_CMS_8in1 dev =
     \<lparr>cms_Sensor8in1 =
        \<lparr>sens_base = \<lparr>nameBase = ''Sensor_SB_CMS_8in1_'', titleBase = ''SB CMS 8in1'', smartDev = dev\<rparr>,
         sens_isNew = True\<rparr>,
      cms_isNew = True\<rparr>"

definition cms_Type :: u16 where "cms_Type = 0x142"

definition cms_call :: "string \<Rightarrow> message \<Rightarrow> SensorSB_CMS_8in1 \<Rightarrow> SensorSB_CMS_8in1 \<times> action list" where
  "cms_call meth msg sens =
     (case sens_call meth msg (cms_Sensor8in1 sens) of (s, as) \<Rightarrow> (sens\<lparr>cms_Sensor8in1 := s\<rparr>, as))"


section \<open>What is published\<close>

definition sensor_controls :: "string list" where
  "sensor_controls = [''Temperature'', ''Illuminance'', ''Movement'', ''DryContact1'', ''DryContact2'']"

text \<open>The readings of a reply, as they are published.\<close>

definition readings :: "message \<Rightarrow> string list" where
  "readings msg = [Itoa (Temperature msg), Itoa (uint (Illuminance msg)), switch_value (Movement msg),
     switch_value (DryContact1 msg), switch_value (DryContact2 msg)]"

definition sens_rel :: "dev_ref \<Rightarrow> Sensor8in1 \<Rightarrow> view \<Rightarrow> bool" where
  "sens_rel r sens v =
     (sens_ref sens = r \<and> (\<forall>c \<in> set sensor_controls. (v c = None) = sens_isNew sens))"

lemma sens_response:
  assumes "sens_rel r sens v" and "sens_OnReadSensorStatusResponse msg sens = (sens', as)"
  shows "\<exists>v'. publish r v as = Some v' \<and> sens_rel r sens' v' \<and> map v' sensor_controls = map Some (readings msg)"
  using assms
  by (cases "sens_isNew sens")
     (auto simp: sens_rel_def sens_OnReadSensorStatusResponse_def reportInt_def reportBool_def reportValue_def
       sensor_controls_def readings_def switch_value_def)

lemma sens_rel_call:
  assumes "sens_rel r sens v" and "sens_call meth msg sens = (sens', as)"
  shows "\<exists>v'. publish r v as = Some v' \<and> sens_rel r sens' v'"
  using assms sens_response [OF assms(1), of msg sens' as] by (auto simp: sens_call_def split: if_splits)

interpretation sens: publisher "\<lambda>(meth, msg). sens_call meth msg" r "sens_rel r"
  by unfold_locales (auto intro: sens_rel_call)

lemma cms_rel_call:
  assumes "sens_rel r (cms_Sensor8in1 sens) v" and "cms_call meth msg sens = (sens', as)"
  shows "\<exists>v'. publish r v as = Some v' \<and> sens_rel r (cms_Sensor8in1 sens') v'"
  using assms sens_rel_call by (fastforce simp: cms_call_def split: prod.splits)

interpretation cms: publisher "\<lambda>(meth, msg). cms_call meth msg" r "\<lambda>s. sens_rel r (cms_Sensor8in1 s)"
  by unfold_locales (auto intro: cms_rel_call)

text \<open>
  (C27) Whatever an SB CMS sensor, and the 8-in-1 sensor it embeds, received before, what it
  publishes is well formed, and after a status reply its five controls show the readings of that
  reply.
\<close>

theorem sensor_publishes_readings:
  "case loop (\<lambda>(meth, msg). cms_call meth msg) (calls @ [(''OnReadSensorStatusResponse'', msg)])
       (NewSensorSB_CMS_8in1 dev) of (sens, as) \<Rightarrow>
     \<exists>v. publish (sens_ref (cms_Sensor8in1 (NewSensorSB_CMS_8in1 dev))) Map.empty as = Some v \<and>
       map v sensor_controls = map Some (readings msg)"
proof -
  let ?new = "NewSensorSB_CMS_8in1 dev"
  let ?r = "sens_ref (cms_Sensor8in1 ?new)"
  have new: "sens_rel ?r (cms_Sensor8in1 ?new) Map.empty"
    by (simp add: sens_rel_def NewSensorSB_CMS_8in1_def)
  obtain s1 as1 where run: "loop (\<lambda>(meth, msg). cms_call meth msg) calls ?new = (s1, as1)" by fastforce
  from cms.publishes_all [OF new run] obtain v1 where
    v1: "publish ?r Map.empty as1 = Some v1" "sens_rel ?r (cms_Sensor8in1 s1) v1" by blast
  obtain s2 as2 where resp: "sens_OnReadSensorStatusResponse msg (cms_Sensor8in1 s1) = (s2, as2)" by fastforce
  from sens_response [OF v1(2) resp] v1(1) show ?thesis
    by (auto simp: loop_snoc run cms_call_def sens_call_def resp publish_append)
qed

end
