(* ===== verification/Dump.thy ===== *)
theory Dump
  imports Connection GoStrings "HOL-Library.Monad_Syntax"
begin

text \<open>
  The message dumper, \<^verbatim>\<open>smartbus/dump.go\<close>: one method per message type, which formats the
  message and logs it with its header. \<open>fmt\<close>'s verbs: \<^verbatim>\<open>%v\<close> and \<^verbatim>\<open>%d\<close> of a number are
  decimal, \<^verbatim>\<open>%02x\<close> and \<^verbatim>\<open>%04x\<close> padded hexadecimal, \<^verbatim>\<open>%v\<close> of a byte slice is its
  elements in brackets.
\<close>

section \<open>Verbs\<close>

definition hex_digit :: "nat \<Rightarrow> char" where
  "hex_digit n = (if n < 10 then char_of (48 + n) else char_of (87 + n))"

definition hex2 :: "byte \<Rightarrow> string" where
  "hex2 b = [hex_digit (unat b div 16), hex_digit (unat b mod 16)]"

definition hex4 :: "u16 \<Rightarrow> string" where
  "hex4 w = [hex_digit (unat w div 4096), hex_digit (unat w div 256 mod 16),
     hex_digit (unat w div 16 mod 16), hex_digit (unat w mod 16)]"

definition dec :: "'a::len word \<Rightarrow> string" where
  "dec b = nat_digits (unat b)"

definition bool_str :: "bool \<Rightarrow> string" where
  "bool_str b = (if b then ''true'' else ''false'')"

fun Join :: "string list \<Rightarrow> string \<Rightarrow> string" where
  "Join [] sep = []"
| "Join [s] sep = s"
| "Join (s # ss) sep = s @ sep @ Join ss sep"

definition bytes_str :: "byte list \<Rightarrow> string" where
  "bytes_str bs = ''['' @ Join (map dec bs) '' '' @ '']''"


section \<open>The formatter\<close>

definition formatChannelStatus :: "bool list \<Rightarrow> string" where
  "formatChannelStatus status = map (\<lambda>s. if s then CHR ''x'' else CHR ''-'') status"

definition panelControlTypes :: "(byte \<times> string) list" where
  "panelControlTypes =
     [(0x00, ''Invalid''), (0x01, ''IR Receiver''), (0x02, ''Button Lock''), (0x03, ''AC On/Off''),
      (0x04, ''Cooling Set Point''), (0x05, ''Fan Speed''), (0x06, ''AC Mode''),
      (0x07, ''Heat Set Point''), (0x08, ''Auto Set Point''), (0x16, ''Go To Page'')]"

definition unit_str :: "bool \<Rightarrow> string" where
  "unit_str celsius = (if celsius then ''Celsius'' else ''Fahrenheit'')"

definition format_SetPanelButtonModes :: "string list \<Rightarrow> string" where
  "format_SetPanelButtonModes modes =
     ''<SetPanelButtonModes '' @
       Join (map (\<lambda>(i, mode). nat_digits (i div 4 + 1) @ ''/'' @ nat_digits (i mod 4 + 1) @ '':'' @ mode)
         (enumerate 0 modes)) '','' @ ''>''"

definition format_ReadMACAddressResponse :: "byte list \<Rightarrow> byte list \<Rightarrow> string" where
  "format_ReadMACAddressResponse mac remark =
     ''<ReadMACAddressResponse '' @ Join (map hex2 mac) '':'' @ '' ['' @ Join (map hex2 remark) '' '' @ '']>''"

definition format_ReadTemperatureValues :: "bool \<Rightarrow> string" where
  "format_ReadTemperatureValues useCelsius = ''<ReadTemperatureValues '' @ unit_str useCelsius @ ''>''"

definition format_ReadTemperatureValuesResponse :: "bool \<Rightarrow> byte list \<Rightarrow> string" where
  "format_ReadTemperatureValuesResponse useCelsius values =
     ''<ReadTemperatureValuesResponse '' @ unit_str useCelsius @ '' '' @
       Join (map (\<lambda>v. Itoa (sint v)) values) '','' @ ''>''"

definition format_ReadSensorStatusResponse :: "bool \<Rightarrow> int \<Rightarrow> u16 \<Rightarrow> bool \<Rightarrow> bool \<Rightarrow> bool \<Rightarrow> string" where
  "format_ReadSensorStatusResponse success temperature illuminance movement dryContact1 dryContact2 =
     ''<ReadSensorStatusResponse '' @ bool_str success @ '' '' @
       Join [Itoa temperature, dec illuminance, bool_str movement, bool_str dryContact1, bool_str dryContact2] ''/'' @ ''>''"

definition format_SensorStatusBroadcast :: "int \<Rightarrow> u16 \<Rightarrow> bool \<Rightarrow> bool \<Rightarrow> bool \<Rightarrow> string" where
  "format_SensorStatusBroadcast temperature illuminance movement dryContact1 dryContact2 =
     ''<SensorStatusBroadcast '' @
       Join [Itoa temperature, dec illuminance, bool_str movement, bool_str dryContact1, bool_str dryContact2] ''/'' @ ''>''"

lemmas format_defs = format_SetPanelButtonModes_def format_ReadMACAddressResponse_def format_ReadTemperatureValues_def
  format_ReadTemperatureValuesResponse_def format_ReadSensorStatusResponse_def format_SensorStatusBroadcast_def

fun format_message :: "message \<Rightarrow> string" where
  "format_message (SingleChannelControlCommand c l d) =
     ''<SingleChannelControlCommand '' @ Join [dec c, dec l, dec d] ''/'' @ ''>''"
| "format_message (SingleChannelControlResponse c s l st) =
     ''<SingleChannelControlResponse '' @ Join [dec c, bool_str s, dec l, formatChannelStatus st] ''/'' @ ''>''"
| "format_message (ZoneBeastBroadcast zs st) =
     ''<ZoneBeastBroadcast '' @ Join [bytes_str zs, formatChannelStatus st] ''/'' @ ''>''"
| "format_message (SceneControl z s) = ''<SceneControl '' @ Join [hex2 z, hex2 s] ''/'' @ ''>''"
| "format_message (SceneControlResponse z s st) =
     ''<SceneControlResponse '' @ Join [hex2 z, hex2 s, formatChannelStatus st] ''/'' @ ''>''"
| "format_message QueryModules = ''<QueryModules>''"
| "format_message (QueryModulesResponse s d cat ch hs hv) =
     ''<QueryModulesResponse '' @ Join [hex2 s, hex2 d, hex2 cat, dec ch, hex2 hs, hex2 hv] ''/'' @ ''>''"
| "format_message (PanelControlResponse t v) =
     ''<PanelControlResponse '' @
       (case map_of panelControlTypes t of Some n \<Rightarrow> n | None \<Rightarrow> ''<unknown type 0x'' @ hex2 t @ ''>'') @
       ''='' @ dec v @ ''>''"
| "format_message (QueryChannelStatuses i) = ''<QueryChannelStatuses '' @ dec i @ ''>''"
| "format_message (QueryChannelStatusesResponse st) =
     ''<QueryChannelStatusesResponse '' @ bytes_str st @ ''>''"
| "format_message (QueryPanelButtonAssignment b f) =
     ''<QueryPanelButtonAssignment '' @ Join [dec b, dec f] ''/'' @ ''>''"
| "format_message (QueryPanelButtonAssignmentResponse b f c s d ch l du) =
     ''<QueryPanelButtonAssignmentResponse '' @
       Join [dec b, dec f, hex2 c, hex2 s, hex2 d, dec ch, dec l, dec du] ''/'' @ ''>''"
| "format_message (AssignPanelButton b f c s d ch l du u) =
     ''<AssignPanelButton '' @
       Join [dec b, dec f, hex2 c, hex2 s, hex2 d, dec ch, dec l, dec du, dec u] ''/'' @ ''>''"
| "format_message (AssignPanelButtonResponse b f) =
     ''<AssignPanelButtonResponse '' @ Join [dec b, dec f] ''/'' @ ''>''"
| "format_message (SetPanelButtonModes ms) = format_SetPanelButtonModes ms"
| "format_message (SetPanelButtonModesResponse s) = ''<SetPanelButtonModesResponse '' @ bool_str s @ ''>''"
| "format_message ReadMACAddress = ''<ReadMACAddress>''"
| "format_message (ReadMACAddressResponse mac r) = format_ReadMACAddressResponse mac r"
| "format_message (ReadTemperatureValues c) = format_ReadTemperatureValues c"
| "format_message (ReadTemperatureValuesResponse c ts) = format_ReadTemperatureValuesResponse c ts"
| "format_message ReadSensorStatus = ''<ReadSensorStatus>''"
| "format_message (ReadSensorStatusResponse s t i m d1 d2 r1 r2) = format_ReadSensorStatusResponse s t i m d1 d2"
| "format_message (SensorStatusBroadcast t i m d1 d2 r1 r2) = format_SensorStatusBroadcast t i m d1 d2"

definition format_log :: "MessageHeader \<Rightarrow> string \<Rightarrow> string" where
  "format_log header text =
     hex2 (OrigSubnetID header) @ ''/'' @ hex2 (OrigDeviceID header) @
     '' (type '' @ hex4 (OrigDeviceType header) @ '') -> '' @
     hex2 (TargetSubnetID header) @ ''/'' @ hex2 (TargetDeviceID header) @ '': '' @ text"

definition dumper_line :: "string \<Rightarrow> SmartbusMessage \<Rightarrow> string" where
  "dumper_line prefix sm = prefix @ '': '' @ format_log (Header sm) (format_message (Message sm))"

definition dumper_methods :: "string list" where
  "dumper_methods =
     [''OnSingleChannelControlCommand'', ''OnSingleChannelControlResponse'', ''OnZoneBeastBroadcast'',
      ''OnSceneControl'', ''OnSceneControlResponse'', ''OnQueryModules'', ''OnQueryModulesResponse'',
      ''OnPanelControlResponse'', ''OnQueryChannelStatuses'', ''OnQueryChannelStatusesResponse'',
      ''OnQueryPanelButtonAssignment'', ''OnQueryPanelButtonAssignmentResponse'', ''OnAssignPanelButton'',
      ''OnAssignPanelButtonResponse'', ''OnSetPanelButtonModes'', ''OnSetPanelButtonModesResponse'',
      ''OnReadMACAddress'', ''OnReadMACAddressResponse'', ''OnReadTemperatureValues'',
      ''OnReadTemperatureValuesResponse'', ''OnReadSensorStatus'', ''OnReadSensorStatusResponse'',
      ''OnSensorStatusBroadcast'']"


section \<open>Properties\<close>

text \<open>Every message type has its method and is formatted under its own name.\<close>

lemma dumper_covers: "''On'' @ type_name m \<in> set dumper_methods"
  by (cases m) (simp_all add: dumper_methods_def)

lemma format_message_prefix: "HasPrefix (format_message m) (''<'' @ type_name m)"
  by (cases m) (simp_all add: HasPrefix_def format_defs)

section \<open>Reading the log\<close>

text \<open>
  The log can be read back. A reader of it, written from the layout of the lines: the header's
  numbers stand at fixed places; the text is a name and fields separated by slashes, in brackets.
\<close>

definition hex_val :: "char \<Rightarrow> nat option" where
  "hex_val c =
     (let v = of_char c in
      if 48 \<le> v \<and> v \<le> (57 :: nat) then Some (v - 48)
      else if 97 \<le> v \<and> v \<le> 102 then Some (v - 87) else None)"

fun parse_hex :: "nat \<Rightarrow> string \<Rightarrow> nat option" where
  "parse_hex acc [] = Some acc"
| "parse_hex acc (c # cs) = (case hex_val c of None \<Rightarrow> None | Some d \<Rightarrow> parse_hex (16 * acc + d) cs)"

definition hex_word :: "string \<Rightarrow> 'a::len word option" where
  "hex_word s = map_option word_of_nat (parse_hex 0 s)"

definition dec_word :: "string \<Rightarrow> 'a::len word option" where
  "dec_word s = map_option word_of_nat (parse_digits 0 s)"

definition parse_bool :: "string \<Rightarrow> bool option" where
  "parse_bool s = (if s = ''true'' then Some True else if s = ''false'' then Some False else None)"

definition parse_status :: "string \<Rightarrow> bool list option" where
  "parse_status s = (if set s \<subseteq> {CHR ''x'', CHR ''-''} then Some (map (\<lambda>c. c = CHR ''x'') s) else None)"

fun split_on :: "char \<Rightarrow> string \<Rightarrow> string list" where
  "split_on c [] = [[]]"
| "split_on c (x # xs) =
     (if x = c then [] # split_on c xs
      else (case split_on c xs of s # ss \<Rightarrow> (x # s) # ss | [] \<Rightarrow> [[x]]))"

record log_entry =
  log_from :: "byte \<times> byte"
  log_type :: u16
  log_to :: "byte \<times> byte"
  log_text :: string

definition parse_log :: "string \<Rightarrow> log_entry option" where
  "parse_log line =
     (case (hex_word (take 2 line), hex_word (take 2 (drop 3 line)), hex_word (take 4 (drop 12 line)),
            hex_word (take 2 (drop 21 line)), hex_word (take 2 (drop 24 line))) of
        (Some s, Some d, Some t, Some s', Some d') \<Rightarrow>
          Some \<lparr>log_from = (s, d), log_type = t, log_to = (s', d'), log_text = drop 28 line\<rparr>
      | _ \<Rightarrow> None)"

text \<open>The name and the fields of a text.\<close>

definition text_name :: "string \<Rightarrow> string" where
  "text_name t = takeWhile (\<lambda>c. c \<notin> {CHR '' '', CHR ''>''}) (drop 1 t)"

definition text_fields :: "string \<Rightarrow> string list" where
  "text_fields t = split_on CHR ''/'' (butlast (drop (length (text_name t) + 2) t))"

lemma hex_val_digit [simp]: "n < 16 \<Longrightarrow> hex_val (hex_digit n) = Some n"
  by (auto simp: hex_val_def hex_digit_def Let_def)

lemma hex_word_hex2 [simp]: "hex_word (hex2 b) = Some b"
proof -
  have "unat b div 16 < 16" using unat_byte_less [of b] by linarith
  then have "parse_hex 0 (hex2 b) = Some (unat b)" by (simp add: hex2_def)
  then show ?thesis by (simp add: hex_word_def)
qed

lemma hex_word_hex4 [simp]: "hex_word (hex4 w) = Some w"
proof -
  have "unat w div 4096 < 16" using unsigned_less [of w, where ?'a = nat] by simp
  then have parse: "parse_hex 0 (hex4 w) = Some (16 * (16 * (16 * (unat w div 4096) + unat w div 256 mod 16) +
      unat w div 16 mod 16) + unat w mod 16)" by (simp add: hex4_def)
  define x where "x = unat w"
  have "x div 16 div 16 = x div 256" "x div 256 div 16 = x div 4096"
    by (simp_all add: div_mult2_eq [symmetric])
  moreover have "16 * (x div 16) + x mod 16 = x" "16 * (x div 16 div 16) + x div 16 mod 16 = x div 16"
    "16 * (x div 256 div 16) + x div 256 mod 16 = x div 256" by simp_all
  ultimately have "16 * (16 * (16 * (x div 4096) + x div 256 mod 16) + x div 16 mod 16) + x mod 16 = x" by simp
  with parse show ?thesis by (simp add: hex_word_def x_def)
qed

lemma dec_word_dec [simp]: "dec_word (dec b) = Some b"
  by (simp add: dec_word_def dec_def parse_nat_digits)

lemma parse_bool_str [simp]: "parse_bool (bool_str b) = Some b"
  by (simp add: parse_bool_def bool_str_def)

lemma parse_status_format [simp]: "parse_status (formatChannelStatus st) = Some st"
  by (auto simp: parse_status_def formatChannelStatus_def comp_def intro!: map_idI)

lemma split_on_end: "c \<notin> set s \<Longrightarrow> split_on c s = [s]"
  by (induction s) auto

lemma split_on_append: "c \<notin> set s \<Longrightarrow> split_on c (s @ c # t) = s # split_on c t"
  by (induction s) auto

lemma split_on_Join: "ss \<noteq> [] \<Longrightarrow> \<forall>s \<in> set ss. c \<notin> set s \<Longrightarrow> split_on c (Join ss [c]) = ss"
  by (induction ss "[c]" rule: Join.induct) (auto simp: split_on_end split_on_append)

lemma length_hex [simp]: "length (hex2 b) = 2" "length (hex4 w) = 4"
  by (simp_all add: hex2_def hex4_def)

text \<open>Messages whose text has all their fields, apart from those with lists other than channel states.\<close>

definition parse_text :: "string \<Rightarrow> message option" where
  "parse_text t =
     (case (text_name t, text_fields t) of
        (name, fs) \<Rightarrow>
          if name = ''SingleChannelControlCommand'' then
            do { c \<leftarrow> dec_word (fs ! 0); l \<leftarrow> dec_word (fs ! 1); d \<leftarrow> dec_word (fs ! 2);
                 Some (SingleChannelControlCommand c l d) }
          else if name = ''SingleChannelControlResponse'' then
            do { c \<leftarrow> dec_word (fs ! 0); s \<leftarrow> parse_bool (fs ! 1); l \<leftarrow> dec_word (fs ! 2); st \<leftarrow> parse_status (fs ! 3);
                 Some (SingleChannelControlResponse c s l st) }
          else if name = ''SceneControl'' then
            do { z \<leftarrow> hex_word (fs ! 0); s \<leftarrow> hex_word (fs ! 1); Some (SceneControl z s) }
          else if name = ''SceneControlResponse'' then
            do { z \<leftarrow> hex_word (fs ! 0); s \<leftarrow> hex_word (fs ! 1); st \<leftarrow> parse_status (fs ! 2);
                 Some (SceneControlResponse z s st) }
          else if name = ''QueryModules'' then Some QueryModules
          else if name = ''QueryModulesResponse'' then
            do { s \<leftarrow> hex_word (fs ! 0); d \<leftarrow> hex_word (fs ! 1); cat \<leftarrow> hex_word (fs ! 2); ch \<leftarrow> dec_word (fs ! 3);
                 hs \<leftarrow> hex_word (fs ! 4); hv \<leftarrow> hex_word (fs ! 5); Some (QueryModulesResponse s d cat ch hs hv) }
          else if name = ''QueryChannelStatuses'' then
            do { i \<leftarrow> dec_word (fs ! 0); Some (QueryChannelStatuses i) }
          else if name = ''QueryPanelButtonAssignment'' then
            do { b \<leftarrow> dec_word (fs ! 0); f \<leftarrow> dec_word (fs ! 1); Some (QueryPanelButtonAssignment b f) }
          else if name = ''QueryPanelButtonAssignmentResponse'' then
            do { b \<leftarrow> dec_word (fs ! 0); f \<leftarrow> dec_word (fs ! 1); c \<leftarrow> hex_word (fs ! 2); s \<leftarrow> hex_word (fs ! 3);
                 d \<leftarrow> hex_word (fs ! 4); ch \<leftarrow> dec_word (fs ! 5); l \<leftarrow> dec_word (fs ! 6); du \<leftarrow> dec_word (fs ! 7);
                 Some (QueryPanelButtonAssignmentResponse b f c s d ch l du) }
          else if name = ''AssignPanelButton'' then
            do { b \<leftarrow> dec_word (fs ! 0); f \<leftarrow> dec_word (fs ! 1); c \<leftarrow> hex_word (fs ! 2); s \<leftarrow> hex_word (fs ! 3);
                 d \<leftarrow> hex_word (fs ! 4); ch \<leftarrow> dec_word (fs ! 5); l \<leftarrow> dec_word (fs ! 6); du \<leftarrow> dec_word (fs ! 7);
                 u \<leftarrow> dec_word (fs ! 8); Some (AssignPanelButton b f c s d ch l du u) }
          else if name = ''AssignPanelButtonResponse'' then
            do { b \<leftarrow> dec_word (fs ! 0); f \<leftarrow> dec_word (fs ! 1); Some (AssignPanelButtonResponse b f) }
          else if name = ''SetPanelButtonModesResponse'' then
            do { s \<leftarrow> parse_bool (fs ! 0); Some (SetPanelButtonModesResponse s) }
          else if name = ''ReadMACAddress'' then Some ReadMACAddress
          else if name = ''ReadTemperatureValues'' then Some (ReadTemperatureValues (fs ! 0 = ''Celsius''))
          else if name = ''ReadSensorStatus'' then Some ReadSensorStatus
          else None)"

fun logged_in_full :: "message \<Rightarrow> bool" where
  "logged_in_full (ZoneBeastBroadcast zs st) = False"
| "logged_in_full (PanelControlResponse t v) = False"
| "logged_in_full (QueryChannelStatusesResponse st) = False"
| "logged_in_full (SetPanelButtonModes ms) = False"
| "logged_in_full (ReadMACAddressResponse mac r) = False"
| "logged_in_full (ReadTemperatureValuesResponse c ts) = False"
| "logged_in_full (ReadSensorStatusResponse s t i m d1 d2 r1 r2) = False"
| "logged_in_full (SensorStatusBroadcast t i m d1 d2 r1 r2) = False"
| "logged_in_full _ = True"

lemma no_slash [simp]:
  "CHR ''/'' \<notin> set (dec b)" "CHR ''/'' \<notin> set (hex2 x)" "CHR ''/'' \<notin> set (bool_str y)"
  "CHR ''/'' \<notin> set (formatChannelStatus st)" "CHR ''/'' \<notin> set (unit_str y)"
proof -
  have "\<not> is_digit CHR ''/''" by (simp add: is_digit_def digit_val_def)
  then show "CHR ''/'' \<notin> set (dec b)" using nat_digits_digits by (auto simp: dec_def)
  have "hex_val CHR ''/'' = None" by (simp add: hex_val_def)
  then have "CHR ''/'' \<noteq> hex_digit n" if "n < 16" for n
    using hex_val_digit [OF that] by (metis option.distinct(1))
  moreover have "unat x div 16 < 16" using unat_byte_less [of x] by linarith
  ultimately show "CHR ''/'' \<notin> set (hex2 x)" by (simp add: hex2_def)
qed (auto simp: bool_str_def formatChannelStatus_def unit_str_def)

lemma text_parts:
  assumes "CHR '' '' \<notin> set name" and "CHR ''>'' \<notin> set name" and "ss \<noteq> []" and "\<forall>s \<in> set ss. CHR ''/'' \<notin> set s"
  shows "text_name (''<'' @ name @ '' '' @ Join ss ''/'' @ ''>'') = name"
    and "text_fields (''<'' @ name @ '' '' @ Join ss ''/'' @ ''>'') = ss"
proof -
  have ok: "\<And>c. c \<in> set name \<Longrightarrow> c \<notin> {CHR '' '', CHR ''>''}" using assms(1,2) by blast
  show n: "text_name (''<'' @ name @ '' '' @ Join ss ''/'' @ ''>'') = name"
    using takeWhile_append2 [of name "\<lambda>c. c \<notin> {CHR '' '', CHR ''>''}", OF ok] by (simp add: text_name_def)
  have "drop (length name + 2) (''<'' @ name @ '' '' @ Join ss ''/'' @ ''>'') = Join ss ''/'' @ ''>''"
    by simp
  then have "text_fields (''<'' @ name @ '' '' @ Join ss ''/'' @ ''>'') = split_on CHR ''/'' (butlast (Join ss ''/'' @ ''>''))"
    unfolding text_fields_def n by (simp only:)
  with split_on_Join [OF assms(3,4)] show "text_fields (''<'' @ name @ '' '' @ Join ss ''/'' @ ''>'') = ss"
    by simp
qed

lemma text_name_only: "text_name ''<QueryModules>'' = ''QueryModules''" "text_name ''<ReadMACAddress>'' = ''ReadMACAddress''"
  "text_name ''<ReadSensorStatus>'' = ''ReadSensorStatus''"
  by (simp_all add: text_name_def)

lemma parse_format: "logged_in_full m \<Longrightarrow> parse_text (format_message m) = Some m"
proof (cases m)
  case (SingleChannelControlCommand c l d)
  then show ?thesis
    using text_parts [of "''SingleChannelControlCommand''" "[dec c, dec l, dec d]"] by (simp add: parse_text_def)
next
  case (SingleChannelControlResponse c s l st)
  then show ?thesis
    using text_parts [of "''SingleChannelControlResponse''" "[dec c, bool_str s, dec l, formatChannelStatus st]"]
    by (simp add: parse_text_def)
next
  case (SceneControl z s)
  then show ?thesis using text_parts [of "''SceneControl''" "[hex2 z, hex2 s]"] by (simp add: parse_text_def)
next
  case (SceneControlResponse z s st)
  then show ?thesis
    using text_parts [of "''SceneControlResponse''" "[hex2 z, hex2 s, formatChannelStatus st]"] by (simp add: parse_text_def)
next
  case (QueryModulesResponse s d cat ch hs hv)
  then show ?thesis
    using text_parts [of "''QueryModulesResponse''" "[hex2 s, hex2 d, hex2 cat, dec ch, hex2 hs, hex2 hv]"]
    by (simp add: parse_text_def)
next
  case (QueryChannelStatuses i)
  then show ?thesis using text_parts [of "''QueryChannelStatuses''" "[dec i]"] by (simp add: parse_text_def)
next
  case (QueryPanelButtonAssignment b f)
  then show ?thesis
    using text_parts [of "''QueryPanelButtonAssignment''" "[dec b, dec f]"] by (simp add: parse_text_def)
next
  case (QueryPanelButtonAssignmentResponse b f c s d ch l du)
  then show ?thesis
    using text_parts [of "''QueryPanelButtonAssignmentResponse''"
        "[dec b, dec f, hex2 c, hex2 s, hex2 d, dec ch, dec l, dec du]"] by (simp add: parse_text_def)
next
  case (AssignPanelButton b f c s d ch l du u)
  then show ?thesis
    using text_parts [of "''AssignPanelButton''" "[dec b, dec f, hex2 c, hex2 s, hex2 d, dec ch, dec l, dec du, dec u]"]
    by (simp add: parse_text_def)
next
  case (AssignPanelButtonResponse b f)
  then show ?thesis
    using text_parts [of "''AssignPanelButtonResponse''" "[dec b, dec f]"] by (simp add: parse_text_def)
next
  case (SetPanelButtonModesResponse s)
  then show ?thesis
    using text_parts [of "''SetPanelButtonModesResponse''" "[bool_str s]"] by (simp add: parse_text_def)
next
  case (ReadTemperatureValues c)
  then show ?thesis
    using text_parts [of "''ReadTemperatureValues''" "[unit_str c]"]
    by (simp add: parse_text_def format_defs unit_str_def split: if_splits)
qed (simp_all add: parse_text_def text_name_only)

text \<open>
  (C40) The message log can be read back. From a line, the sender's address and type, the target's
  address and the text are recovered; and from the text the message with all its fields, for the
  fifteen message types whose text consists of a name and a fixed number of fields.
\<close>

theorem log_line_round_trip:
  "parse_log (format_log h t) =
     Some \<lparr>log_from = (OrigSubnetID h, OrigDeviceID h), log_type = OrigDeviceType h,
           log_to = (TargetSubnetID h, TargetDeviceID h), log_text = t\<rparr> \<and>
   (logged_in_full m \<longrightarrow> parse_text (format_message m) = Some m)"
  using parse_format by (simp add: parse_log_def format_log_def)

theorem log_line_round_trip_witness:
  "parse_log (format_log \<lparr>OrigSubnetID = 1, OrigDeviceID = 0x1c, OrigDeviceType = 0x139c, HeaderOpcode = 0xefff,
       TargetSubnetID = 0xff, TargetDeviceID = 0xff\<rparr> ''<QueryModules>'') =
     Some \<lparr>log_from = (1, 0x1c), log_type = 0x139c, log_to = (0xff, 0xff), log_text = ''<QueryModules>''\<rparr> \<and>
   parse_text (format_message (SingleChannelControlCommand 7 100 0)) = Some (SingleChannelControlCommand 7 100 0)"
  using log_line_round_trip [of "\<lparr>OrigSubnetID = 1, OrigDeviceID = 0x1c, OrigDeviceType = 0x139c, HeaderOpcode = 0xefff,
       TargetSubnetID = 0xff, TargetDeviceID = 0xff\<rparr>" "''<QueryModules>''" "SingleChannelControlCommand 7 100 0"] by simp

end
