(* ===== verification/SmartbusModel.thy ===== *)
theory SmartbusModel
  imports ZoneBeast DDP Sensors Dump QueueCorrect
begin

text \<open>
  The driver's model, \<^verbatim>\<open>SmartbusModel\<close> of \<^verbatim>\<open>smartbus/smartbus_model.go\<close>: it creates a device
  model for every known device that sends something, passes messages on to it, starts and stops
  the request queue and polls.

  The driver's goroutines are put together as a transition system (\<open>sys_step\<close>): the goroutine
  that delivers messages and executes calls of the client (the driver library executes both
  through one queue, \<^verbatim>\<open>CallSync\<close>, so they exclude each other), the goroutine of the request
  queue, and time. A handler that passes a message to the queue does this first, and may block
  there; the rest of it is a step of its own, so that the queue can go on in between.

  What the driver does to the outside is recorded in \<open>trace\<close>: calls of the observer and what the
  endpoint does to send a message. A panic in any of the goroutines ends the program: the driver's
  state is then \<open>Crashed\<close>, and nothing happens any more.
\<close>

section \<open>Device models\<close>

datatype RealDeviceModel =
    ZoneBeastM ZoneBeastDeviceModel
  | DDPM DDPDeviceModel
  | Hmix12M ZoneBeastDeviceModel
  | Sensor8in1M Sensor8in1
  | SensorCMSM SensorSB_CMS_8in1

datatype DeviceConstructor =
  ConsZoneBeast | ConsDDP | ConsHmix12 | ConsSensor8in1 | ConsSensorCMS

fun construct :: "DeviceConstructor \<Rightarrow> SmartbusDevice \<Rightarrow> RealDeviceModel" where
  "construct ConsZoneBeast dev = ZoneBeastM (NewZoneBeastDeviceModel dev)"
| "construct ConsDDP dev = DDPM (NewDDPDeviceModel dev)"
| "construct ConsHmix12 dev = Hmix12M (NewHmix12DeviceModel dev)"
| "construct ConsSensor8in1 dev = Sensor8in1M (NewSensor8in1 dev)"
| "construct ConsSensorCMS dev = SensorCMSM (NewSensorSB_CMS_8in1 dev)"

fun dm_Type :: "RealDeviceModel \<Rightarrow> u16" where
  "dm_Type (ZoneBeastM _) = zb_Type"
| "dm_Type (DDPM _) = ddp_Type"
| "dm_Type (Hmix12M _) = hm_Type"
| "dm_Type (Sensor8in1M _) = sens_Type"
| "dm_Type (SensorCMSM _) = cms_Type"

fun dm_base :: "RealDeviceModel \<Rightarrow> DeviceModelBase" where
  "dm_base (ZoneBeastM dm) = zb_base dm"
| "dm_base (DDPM dm) = ddp_base dm"
| "dm_base (Hmix12M dm) = zb_base dm"
| "dm_base (Sensor8in1M dm) = sens_base dm"
| "dm_base (SensorCMSM dm) = sens_base (cms_Sensor8in1 dm)"

definition nil_dev :: SmartbusDevice where
  "nil_dev = \<lparr>dev_SubnetID = 0, dev_DeviceID = 0, dev_DeviceType = 0\<rparr>"

definition RegisterDeviceModelType ::
    "DeviceConstructor \<Rightarrow> (u16 \<times> DeviceConstructor) list \<Rightarrow> (u16 \<times> DeviceConstructor) list" where
  "RegisterDeviceModelType c types = AList.update (dm_Type (construct c nil_dev)) c types"

definition smartbusDeviceModelTypes :: "(u16 \<times> DeviceConstructor) list" where
  "smartbusDeviceModelTypes =
     fold RegisterDeviceModelType [ConsZoneBeast, ConsDDP, ConsHmix12, ConsSensor8in1, ConsSensorCMS] []"

fun dm_methods :: "RealDeviceModel \<Rightarrow> string list" where
  "dm_methods (ZoneBeastM _) = zb_methods"
| "dm_methods (DDPM _) = ddp_methods"
| "dm_methods (Hmix12M _) = hm_methods"
| "dm_methods (Sensor8in1M _) = sens_methods"
| "dm_methods (SensorCMSM _) = sens_methods"

text \<open>A method called on a device model; the panel's methods also change the virtual relays.\<close>

fun dm_call :: "byte \<Rightarrow> byte \<Rightarrow> string \<Rightarrow> message \<Rightarrow> VirtualRelayDevice \<times> RealDeviceModel \<Rightarrow>
    (VirtualRelayDevice \<times> RealDeviceModel) \<times> action list" where
  "dm_call subnet device meth msg (relays, ZoneBeastM dm) =
     (case zb_call meth msg dm of (dm', as) \<Rightarrow> ((relays, ZoneBeastM dm'), as))"
| "dm_call subnet device meth msg (relays, DDPM dm) =
     (case ddp_call subnet device meth msg (relays, dm) of ((relays', dm'), as) \<Rightarrow> ((relays', DDPM dm'), as))"
| "dm_call subnet device meth msg (relays, Hmix12M dm) =
     (case hm_call meth msg dm of (dm', as) \<Rightarrow> ((relays, Hmix12M dm'), as))"
| "dm_call subnet device meth msg (relays, Sensor8in1M dm) =
     (case sens_call meth msg dm of (dm', as) \<Rightarrow> ((relays, Sensor8in1M dm'), as))"
| "dm_call subnet device meth msg (relays, SensorCMSM dm) =
     (case cms_call meth msg dm of (dm', as) \<Rightarrow> ((relays, SensorCMSM dm'), as))"

fun dm_Poll :: "RealDeviceModel \<Rightarrow> action list" where
  "dm_Poll (ZoneBeastM dm) = zb_Poll dm"
| "dm_Poll (DDPM dm) = []"
| "dm_Poll (Hmix12M dm) = hm_Poll dm"
| "dm_Poll (Sensor8in1M dm) = sens_Poll dm"
| "dm_Poll (SensorCMSM dm) = sens_Poll (cms_Sensor8in1 dm)"

fun dm_AcceptOnValue :: "string \<Rightarrow> string \<Rightarrow> RealDeviceModel \<Rightarrow> (bool \<times> RealDeviceModel \<times> action list) go_result" where
  "dm_AcceptOnValue name val (ZoneBeastM dm) =
     (case zb_AcceptOnValue name val dm of (b, as) \<Rightarrow> Ok (b, ZoneBeastM dm, as))"
| "dm_AcceptOnValue name val (DDPM dm) =
     gbind (ddp_AcceptOnValue name val dm) (\<lambda>(b, dm', as). Ok (b, DDPM dm', as))"
| "dm_AcceptOnValue name val (Hmix12M dm) =
     (case zb_AcceptOnValue name val dm of (b, as) \<Rightarrow> Ok (b, Hmix12M dm, as))"
| "dm_AcceptOnValue name val (Sensor8in1M dm) = Ok (sens_AcceptOnValue name val, Sensor8in1M dm, [])"
| "dm_AcceptOnValue name val (SensorCMSM dm) = Ok (sens_AcceptOnValue name val, SensorCMSM dm, [])"


section \<open>The state of the driver\<close>

datatype observer = TheModel | MessageDumper string

datatype out_event = Observed obs_event | Bus "observer conn_event"

text \<open>What the goroutine that executes handlers is doing.\<close>

datatype driver_pc =
    NotStarted | Starting | Idle
  | Passing string message u16     \<comment> \<open>in a handler: method, message, device; about to pass the message on\<close>
  | InHandler string message u16   \<comment> \<open>in the rest of that handler\<close>
  | Stopping | Stopped | Crashed go_panic

record SmartbusModel =
  queue :: "(Request, message) MessageQueue"
  deviceMap :: "(u16 \<times> RealDeviceModel) list"
  subnetID :: byte
  deviceID :: byte
  deviceType :: u16
  ep :: "observer SmartbusEndpoint"
  virtualRelays :: VirtualRelayDevice
  pc :: driver_pc
  trace :: "out_event list"

definition queue_config :: "bool \<Rightarrow> (Request, message) mq_config" where
  "queue_config hasTimer = \<lparr>IsResponse = Request_IsResponse, hasTimerFunc = hasTimer,
     numRetries = REQUEST_NUM_RETRIES, queueSize = REQUEST_QUEUE_SIZE\<rparr>"

definition no_endpoint :: "observer SmartbusEndpoint" where
  "no_endpoint = \<lparr>ep_SubnetID = 0, ep_DeviceID = 0, ep_DeviceType = 0, ep_deviceMap = [],
     observers = [], inputSniffers = [], outputSniffers = []\<rparr>"

definition NewSmartbusModel :: "byte \<Rightarrow> byte \<Rightarrow> u16 \<Rightarrow> SmartbusModel" where
  "NewSmartbusModel subnet device type =
     \<lparr>queue = NewMessageQueue, deviceMap = [], subnetID = subnet, deviceID = device, deviceType = type,
      ep = no_endpoint, virtualRelays = NewVirtualRelayDevice, pc = NotStarted, trace = []\<rparr>"

definition model_methods :: "string list" where
  "model_methods = [''OnAnything'']"

text \<open>
  The context of the connection; \<open>vis\<close> stands for \<^verbatim>\<open>wbgo.Visit\<close>.
\<close>

definition model_ctx ::
    "(string list \<Rightarrow> string \<Rightarrow> string \<Rightarrow> string option) \<Rightarrow> observer conn_ctx" where
  "model_ctx vis =
     \<lparr>visit = vis,
      methods = (\<lambda>ob. case ob of TheModel \<Rightarrow> model_methods | MessageDumper _ \<Rightarrow> dumper_methods)\<rparr>"


text \<open>
  What the driver depends on: \<^verbatim>\<open>wbgo.Visit\<close>, whether timers are used (they are, except in
  tests), and for which controls the driver library calls \<^verbatim>\<open>AcceptOnValue\<close>. It subscribes to the
  controls that were announced to it, which is \<open>env_spec\<close> below.
\<close>

record sys_env =
  env_visit :: "string list \<Rightarrow> string \<Rightarrow> string \<Rightarrow> string option"
  env_timer :: bool
  env_may_set :: "SmartbusModel \<Rightarrow> u16 \<Rightarrow> string \<Rightarrow> bool"

abbreviation env_ctx :: "sys_env \<Rightarrow> observer conn_ctx" where
  "env_ctx env \<equiv> model_ctx (env_visit env)"


section \<open>Effects\<close>

definition emit :: "out_event list \<Rightarrow> SmartbusModel \<Rightarrow> SmartbusModel" where
  "emit es m = m\<lparr>trace := trace m @ es\<rparr>"

text \<open>\<^verbatim>\<open>PassToQueue\<close> never occurs here: the handlers' first step deals with it.\<close>

fun perform :: "sys_env \<Rightarrow> action \<Rightarrow> SmartbusModel \<Rightarrow> SmartbusModel" where
  "perform env (Notify e) m = emit [Observed e] m"
| "perform env (SendTo dev msg) m = emit (map Bus (dev_Send (env_ctx env) (ep m) dev msg)) m"
| "perform env (EnqueueRequest req) m =
     m\<lparr>queue := snd (Enqueue (queue_config (env_timer env)) req (queue m))\<rparr>"
| "perform env (PassToQueue msg) m = m"
| "perform env (RaisePanic p) m = m\<lparr>pc := Crashed p\<rparr>"

text \<open>After a panic nothing is performed any more.\<close>

fun perform_all :: "sys_env \<Rightarrow> action list \<Rightarrow> SmartbusModel \<Rightarrow> SmartbusModel" where
  "perform_all env [] m = m"
| "perform_all env (RaisePanic p # as) m = perform env (RaisePanic p) m"
| "perform_all env (a # as) m = perform_all env as (perform env a m)"

text \<open>The device models' smart devices, for a closure that refers to a device model.\<close>

definition ref_dev :: "dev_ref \<Rightarrow> SmartbusModel \<Rightarrow> RealDeviceModel option" where
  "ref_dev r m = (case r of RealDevice k \<Rightarrow> map_of (deviceMap m) k | VirtualRelays \<Rightarrow> None)"

definition run_thunk :: "sys_env \<Rightarrow> thunk \<Rightarrow> SmartbusModel \<Rightarrow> out_event list" where
  "run_thunk env th m =
     (case th of
        TSingleChannelControl r c l d \<Rightarrow>
          (case ref_dev r m of Some dm \<Rightarrow>
             map Bus (dev_SingleChannelControl (env_ctx env) (ep m) (smartDev (dm_base dm)) c l d) | None \<Rightarrow> [])
      | TQueryPanelButtonAssignment r b f \<Rightarrow>
          (case ref_dev r m of Some dm \<Rightarrow>
             map Bus (dev_QueryPanelButtonAssignment (env_ctx env) (ep m) (smartDev (dm_base dm)) b f) | None \<Rightarrow> [])
      | TAssignPanelButton r \<Rightarrow>
          (case ref_dev r m of Some (DDPM dm) \<Rightarrow>
             map Bus (dev_Send (env_ctx env) (ep m) (smartDev (ddp_base dm))
               (assign_thunk_message (subnetID m) (deviceID m) dm)) | _ \<Rightarrow> [])
      | TSetPanelButtonModes r modes \<Rightarrow>
          (case ref_dev r m of Some dm \<Rightarrow>
             map Bus (dev_SetPanelButtonModes (env_ctx env) (ep m) (smartDev (dm_base dm)) modes) | None \<Rightarrow> []))"

text \<open>A step of the queue, with the closures of the requests it ran.\<close>

fun ran :: "'i mq_event list \<Rightarrow> 'i list" where
  "ran [] = []"
| "ran (Ran i # es) = i # ran es"
| "ran (_ # es) = ran es"

definition queue_step :: "sys_env \<Rightarrow> (Request, message) mq_label \<Rightarrow> SmartbusModel \<Rightarrow>
    SmartbusModel option" where
  "queue_step env l m =
     (case mq_step (queue_config (env_timer env)) l (queue m) of
        None \<Rightarrow> None
      | Some q \<Rightarrow>
          let reqs = ran (drop (length (events (queue m))) (events q));
              m' = m\<lparr>queue := q\<rparr>
          in Some (emit (concat (map (\<lambda>req. run_thunk env (req_thunk req) m') reqs)) m'))"


section \<open>Operations\<close>

text \<open>\<^verbatim>\<open>Start\<close> up to \<^verbatim>\<open>queue.Start\<close>, which then flushes the queue before it returns.\<close>

definition make_endpoint :: "SmartbusModel \<Rightarrow> observer SmartbusEndpoint" where
  "make_endpoint m =
     snd (GetBroadcastDevice
       (AddOutputSniffer (MessageDumper ''OUTGOING'')
         (AddInputSniffer (MessageDumper ''NOT FOR US'')
           (Observe (MessageDumper ''MESSAGE FOR US'')
             (Observe TheModel
               (fst (MakeSmartbusEndpoint NewSmartbusConnection (subnetID m) (deviceID m) (deviceType m))))))))"

definition model_Start :: "sys_env \<Rightarrow> unit go_result \<Rightarrow> SmartbusModel \<Rightarrow> SmartbusModel option" where
  "model_Start env connector m =
     (if pc m \<noteq> NotStarted then None
      else (case connector of
        Ok _ \<Rightarrow>
          (case Start (queue m) of
             None \<Rightarrow> None
           | Some q \<Rightarrow>
               Some (perform_all env
                 (Notify (OnNewDevice VirtualRelays ''sbusvrelay'' ''Smartbus Virtual Relays'') #
                  relays_Publish (virtualRelays m))
                 (m\<lparr>ep := make_endpoint m, queue := q, pc := Starting\<rparr>)))
      | _ \<Rightarrow> Some m))"

definition broadcastDev :: "SmartbusModel \<Rightarrow> SmartbusDevice" where
  "broadcastDev m = fst (GetBroadcastDevice (ep m))"

definition model_Start_finish :: "sys_env \<Rightarrow> SmartbusModel \<Rightarrow> SmartbusModel option" where
  "model_Start_finish env m =
     (if pc m = Starting \<and> lock (queue m) = Unlocked
      then Some (emit (map Bus (dev_ReadMACAddress (env_ctx env) (ep m) (broadcastDev m))) (m\<lparr>pc := Idle\<rparr>))
      else None)"

definition model_Stop :: "SmartbusModel \<Rightarrow> SmartbusModel option" where
  "model_Stop m =
     (if pc m \<noteq> Idle then None
      else (case Stop (queue m) of None \<Rightarrow> None | Some q \<Rightarrow> Some (m\<lparr>queue := q, pc := Stopping\<rparr>)))"

definition model_Stop_finish :: "SmartbusModel \<Rightarrow> SmartbusModel option" where
  "model_Stop_finish m =
     (if pc m = Stopping \<and> lock (queue m) = Unlocked then Some (m\<lparr>pc := Stopped\<rparr>) else None)"

text \<open>\<^verbatim>\<open>Poll\<close> iterates over a map, in an order of its own each time: \<open>order\<close>.\<close>

definition model_Poll :: "sys_env \<Rightarrow> u16 list \<Rightarrow> SmartbusModel \<Rightarrow> SmartbusModel option" where
  "model_Poll env order m =
     (if pc m = Idle \<and> distinct order \<and> set order = set (map fst (deviceMap m))
      then Some (perform_all env
        (concat (map (\<lambda>k. case map_of (deviceMap m) k of Some dm \<Rightarrow> dm_Poll dm | None \<Rightarrow> []) order)) m)
      else None)"

definition ensureDevice :: "MessageHeader \<Rightarrow> SmartbusModel \<Rightarrow> u16 option \<times> SmartbusModel" where
  "ensureDevice header m =
     (let key = deviceKey (OrigSubnetID header) (OrigDeviceID header) in
      case map_of (deviceMap m) key of
        Some dm \<Rightarrow> (Some key, m)
      | None \<Rightarrow>
          (case map_of smartbusDeviceModelTypes (OrigDeviceType header) of
             None \<Rightarrow> (None, m)
           | Some cons \<Rightarrow>
               let (dev, ep') = GetSmartbusDevice (ep m) (OrigSubnetID header) (OrigDeviceID header);
                   dm = construct cons dev
               in (Some key,
                   emit [Observed (OnNewDevice (RealDevice key) (dm_Name (dm_base dm)) (dm_Title (dm_base dm)))]
                     (m\<lparr>ep := ep', deviceMap := deviceMap m @ [(key, dm)]\<rparr>))))"

definition finish_handler :: "sys_env \<Rightarrow> string \<Rightarrow> message \<Rightarrow> u16 \<Rightarrow> SmartbusModel \<Rightarrow> SmartbusModel" where
  "finish_handler env meth msg k m =
     (case map_of (deviceMap m) k of
        None \<Rightarrow> m\<lparr>pc := Idle\<rparr>
      | Some dm \<Rightarrow>
          (case dm_call (subnetID m) (deviceID m) meth msg (virtualRelays m, dm) of
             ((relays, dm'), as) \<Rightarrow>
               perform_all env as
                 (m\<lparr>virtualRelays := relays, deviceMap := AList.update k dm' (deviceMap m), pc := Idle\<rparr>)))"

text \<open>A handler that passes its message to the queue does so before anything else.\<close>

definition passes_message :: "action list \<Rightarrow> bool" where
  "passes_message as = (case as of PassToQueue _ # _ \<Rightarrow> True | _ \<Rightarrow> False)"

definition OnAnything :: "sys_env \<Rightarrow> SmartbusMessage \<Rightarrow> SmartbusModel \<Rightarrow> SmartbusModel" where
  "OnAnything env sm m =
     (case ensureDevice (Header sm) m of
        (None, m') \<Rightarrow> m'
      | (Some k, m') \<Rightarrow>
          (case map_of (deviceMap m') k of
             None \<Rightarrow> m'
           | Some dm \<Rightarrow>
               (case env_visit env (dm_methods dm) ''On'' (type_name (Message sm)) of
                  None \<Rightarrow> m'
                | Some meth \<Rightarrow>
                    if passes_message (snd (dm_call (subnetID m') (deviceID m') meth (Message sm)
                         (virtualRelays m', dm)))
                    then m'\<lparr>pc := Passing meth (Message sm) k\<rparr>
                    else finish_handler env meth (Message sm) k m')))"

text \<open>The connection delivers a message: observers and sniffers are called, the model is one.\<close>

definition deliver :: "sys_env \<Rightarrow> SmartbusMessage \<Rightarrow> SmartbusModel \<Rightarrow> SmartbusModel option" where
  "deliver env sm m =
     (if pc m \<noteq> Idle then None
      else
        let calls = maybeHandleMessage (env_ctx env) (ep m) sm;
            m' = emit (map Bus calls) m
        in Some (if Called TheModel ''OnAnything'' sm \<in> set calls then OnAnything env sm m' else m'))"

definition pass_message :: "SmartbusModel \<Rightarrow> SmartbusModel option" where
  "pass_message m =
     (case pc m of
        Passing meth msg k \<Rightarrow>
          (case HandleReceivedMessage msg (queue m) of
             None \<Rightarrow> None
           | Some q \<Rightarrow> Some (m\<lparr>queue := q, pc := InHandler meth msg k\<rparr>))
      | _ \<Rightarrow> None)"

definition AcceptOnValue :: "sys_env \<Rightarrow> u16 \<Rightarrow> string \<Rightarrow> string \<Rightarrow> SmartbusModel \<Rightarrow> SmartbusModel option" where
  "AcceptOnValue env k name val m =
     (if pc m \<noteq> Idle \<or> \<not> env_may_set env m k name then None
      else (case map_of (deviceMap m) k of
        None \<Rightarrow> None
      | Some dm \<Rightarrow>
          (case dm_AcceptOnValue name val dm of
             Ok (echo, dm', as) \<Rightarrow>
               Some (perform_all env as (m\<lparr>deviceMap := AList.update k dm' (deviceMap m)\<rparr>))
           | Err e \<Rightarrow> Some m
           | Panic p \<Rightarrow> Some (m\<lparr>pc := Crashed p\<rparr>))))"


section \<open>The system\<close>

datatype sys_label =
    SysStart "unit go_result" | SysStartFinish | SysStop | SysStopFinish
  | Poll "u16 list" | Deliver SmartbusMessage | PassMessage | FinishHandler
  | SetControl u16 string string
  | QueueStep "(Request, message) mq_label"

definition crashed :: "SmartbusModel \<Rightarrow> bool" where
  [simp]: "crashed m = (case pc m of Crashed _ \<Rightarrow> True | _ \<Rightarrow> False)"

fun sys_step :: "sys_env \<Rightarrow> sys_label \<Rightarrow> SmartbusModel \<Rightarrow> SmartbusModel option" where
  "sys_step env (SysStart connector) m = model_Start env connector m"
| "sys_step env SysStartFinish m = model_Start_finish env m"
| "sys_step env SysStop m = model_Stop m"
| "sys_step env SysStopFinish m = model_Stop_finish m"
| "sys_step env (Poll order) m = model_Poll env order m"
| "sys_step env (Deliver sm) m = deliver env sm m"
| "sys_step env PassMessage m = pass_message m"
| "sys_step env FinishHandler m =
     (case pc m of InHandler meth msg k \<Rightarrow> Some (finish_handler env meth msg k m) | _ \<Rightarrow> None)"
| "sys_step env (SetControl k name val) m = AcceptOnValue env k name val m"
| "sys_step env (QueueStep l) m = (if internal l \<and> \<not> crashed m then queue_step env l m else None)"

abbreviation sys_reach :: "sys_env \<Rightarrow> byte \<Rightarrow> byte \<Rightarrow> u16 \<Rightarrow> SmartbusModel \<Rightarrow> bool" where
  "sys_reach env s d t \<equiv> reach (sys_step env) (NewSmartbusModel s d t)"

end
