(* ===== verification/SystemPublish.thy ===== *)
theory SystemPublish
  imports SystemCorrect
begin

text \<open>
  What the driver as a whole publishes: for every device, the controls that were announced and
  their last values agree with the device's model; and the same for the virtual relays.
\<close>

section \<open>Which device an effect concerns\<close>

fun event_ref :: "obs_event \<Rightarrow> dev_ref" where
  "event_ref (OnNewDevice r n t) = r"
| "event_ref (OnNewControl r c t x ro mx rt) = r"
| "event_ref (OnValue r c x) = r"

definition refs :: "action list \<Rightarrow> dev_ref set" where
  "refs as = {event_ref e | e. Notify e \<in> set as}"

lemma refs_simps [simp]:
  "refs [] = {}"
  "refs (as @ bs) = refs as \<union> refs bs"
  "refs (Notify e # as) = insert (event_ref e) (refs as)"
  "refs (SendTo dev msg # as) = refs as"
  "refs (EnqueueRequest req # as) = refs as"
  "refs (PassToQueue msg # as) = refs as"
  "refs (RaisePanic p # as) = refs as"
  by (auto simp: refs_def)

lemma publish_other: "r \<notin> refs as \<Longrightarrow> \<not> panics as \<Longrightarrow> publish r v as = Some v"
proof (induction as)
  case (Cons a as)
  then show ?case by (auto split: action.splits obs_event.splits)
qed simp

lemma loop_invariant:
  assumes "\<And>i s. P s \<Longrightarrow> P (fst (f i s)) \<and> refs (snd (f i s)) \<subseteq> R" and "P s"
  shows "P (fst (loop f is s)) \<and> refs (snd (loop f is s)) \<subseteq> R"
  using assms(2)
proof (induction "is" arbitrary: s)
  case (Cons i "is")
  obtain s1 as1 where f: "f i s = (s1, as1)" by fastforce
  with assms(1) [OF Cons.prems, of i] have "P s1" "refs as1 \<subseteq> R" by auto
  with Cons.IH [of s1] f show ?case by (auto split: prod.splits)
qed simp

abbreviation zb_own :: "DeviceModelBase \<Rightarrow> ZoneBeastDeviceModel \<times> action list \<Rightarrow> bool" where
  "zb_own base r \<equiv> zb_base (fst r) = base \<and> refs (snd r) \<subseteq> {dm_ref base}"

lemma own_updateSingleChannel: "zb_own (zb_base dm) (updateSingleChannel n b dm)"
  by (simp add: updateSingleChannel_def at_index_def)

lemma own_addChannel: "zb_own (zb_base dm) (addChannel st i dm)"
  unfolding addChannel_def by (rule at_index_cases) (simp_all add: Let_def at_index_def)

lemma own_updateChannel: "zb_own (zb_base dm) (updateChannel st i dm)"
  unfolding updateChannel_def by (rule at_index_cases) (simp_all add: own_updateSingleChannel)

lemma own_updateChannelStatus: "zb_own (zb_base dm) (updateChannelStatus st dm)"
proof -
  let ?n = "min (length (channelStatus dm)) (length st)"
  obtain dm1 as1 where l1: "loop (updateChannel st) [0..<?n] dm = (dm1, as1)" by fastforce
  have "zb_own (zb_base dm) (dm1, as1)"
    using loop_invariant [of "\<lambda>s. zb_base s = zb_base dm" "updateChannel st"
        "{dm_ref (zb_base dm)}" dm "[0..<?n]"] own_updateChannel l1
    by (metis (mono_tags, lifting))
  moreover have "zb_own (zb_base dm) (loop (addChannel st) [?n..<length st] dm1)"
    using loop_invariant [of "\<lambda>s. zb_base s = zb_base dm" "addChannel st" "{dm_ref (zb_base dm)}" dm1 "[?n..<length st]"]
      calculation own_addChannel by (metis (mono_tags, lifting) fst_conv)
  ultimately show ?thesis
    by (auto simp: updateChannelStatus_def Let_def l1 split_def)
qed

lemma own_temps:
  "zb_own (zb_base dm) (loop (\<lambda>(i, v). updateTemperatureValue (i + 1) v) xs dm)"
  by (rule loop_invariant) (auto simp: updateTemperatureValue_def split: if_splits)

lemma own_hm_call: "zb_own (zb_base dm) (hm_call meth msg dm)"
  using own_updateSingleChannel [where dm = dm] own_updateChannelStatus [where dm = dm] own_temps [where dm = dm]
  by (auto simp: hm_call_def zb_call_def hm_OnQueryChannelStatusesResponse_def
      zb_OnSingleChannelControlResponse_def zb_OnZoneBeastBroadcast_def
      zb_OnReadTemperatureValuesResponse_def split_def)

lemma own_zb_call: "zb_own (zb_base dm) (zb_call meth msg dm)"
  using own_hm_call [where dm = dm and meth = meth and msg = msg]
  by (cases "meth = ''OnQueryChannelStatusesResponse''") (auto simp: hm_call_def zb_call_def)

lemma refs_queryButton [simp]: "refs (queryButton n dm) = {}"
  by (simp add: queryButton_def)

lemma refs_SetRelayOn: "refs (snd (SetRelayOn c on relays)) \<subseteq> {VirtualRelays}"
  by (simp add: SetRelayOn_def at_index_def)

abbreviation ddp_own :: "DDPDeviceModel \<Rightarrow> DDPDeviceModel \<times> action list \<Rightarrow> bool" where
  "ddp_own dm r \<equiv> ddp_base (fst r) = ddp_base dm \<and> refs (snd r) \<subseteq> {ddp_ref dm, VirtualRelays}"

lemma own_setButtonAssignment: "ddp_own dm (setButtonAssignment i v c dm)"
  by (simp add: setButtonAssignment_def at_index_def Let_def)

lemma own_query: "ddp_own dm (ddp_OnQueryPanelButtonAssignmentResponse subnet device msg dm)"
  using own_setButtonAssignment by (auto simp: ddp_OnQueryPanelButtonAssignmentResponse_def Let_def split_def)

lemma own_command:
  "refs (snd (ddp_OnSingleChannelControlCommand msg relays dm)) \<subseteq> {ddp_ref dm, VirtualRelays}"
  using refs_SetRelayOn [of "uint (ChannelNo msg)" "Level msg > 0" relays]
  by (auto simp: ddp_OnSingleChannelControlCommand_def split_def)

lemma own_ddp_call:
  "case ddp_call subnet device meth msg (relays, dm) of ((relays', dm'), as) \<Rightarrow>
     ddp_base dm' = ddp_base dm \<and> refs as \<subseteq> {ddp_ref dm, VirtualRelays}"
proof -
  have "ddp_own dm (queryButtons dm)"
    by (simp add: queryButtons_def Let_def)
  moreover have "ddp_own dm (ddp_OnSetPanelButtonModesResponse msg dm)"
    by (simp add: ddp_OnSetPanelButtonModesResponse_def)
  moreover have "ddp_own dm (ddp_OnAssignPanelButtonResponse msg dm)"
    by (simp add: ddp_OnAssignPanelButtonResponse_def)
  ultimately show ?thesis
    using own_query [where dm = dm] own_command [of msg relays dm]
    by (simp add: ddp_call_def Let_def ddp_OnReadMACAddressResponse_def ddp_OnQueryModules_def split_def)
qed

lemma own_sens_call:
  "sens_base (fst (sens_call meth msg sens)) = sens_base sens \<and> refs (snd (sens_call meth msg sens)) \<subseteq> {sens_ref sens}"
  by (auto simp: sens_call_def sens_OnReadSensorStatusResponse_def reportInt_def reportBool_def reportValue_def)

lemma own_dm_call:
  assumes "dm_call subnet device meth msg (relays, dm) = ((relays', dm'), as)"
  shows "dm_base dm' = dm_base dm \<and> refs as \<subseteq> {dm_ref (dm_base dm), VirtualRelays}"
proof (cases dm)
  case (ZoneBeastM x)
  then show ?thesis using assms own_zb_call [where dm = x and meth = meth and msg = msg] by (auto split: prod.splits)
next
  case (DDPM x)
  then show ?thesis using assms own_ddp_call [where subnet = subnet and device = device and meth = meth and msg = msg and relays = relays and dm = x] by (auto split: prod.splits)
next
  case (Hmix12M x)
  then show ?thesis using assms own_hm_call [where dm = x and meth = meth and msg = msg] by (auto split: prod.splits)
next
  case (Sensor8in1M x)
  then show ?thesis using assms own_sens_call [where meth = meth and msg = msg and sens = x] by (auto split: prod.splits)
next
  case (SensorCMSM x)
  then show ?thesis using assms own_sens_call [where meth = meth and msg = msg and sens = "cms_Sensor8in1 x"]
    by (auto simp: cms_call_def split: prod.splits)
qed


section \<open>Device models and what they publish\<close>

fun dm_rel :: "dev_ref \<Rightarrow> RealDeviceModel \<Rightarrow> view \<Rightarrow> bool" where
  "dm_rel r (ZoneBeastM dm) v = zb_rel r dm v"
| "dm_rel r (DDPM dm) v = ddp_rel r (NewVirtualRelayDevice, dm) v"
| "dm_rel r (Hmix12M dm) v = zb_rel r dm v"
| "dm_rel r (Sensor8in1M dm) v = sens_rel r dm v"
| "dm_rel r (SensorCMSM dm) v = sens_rel r (cms_Sensor8in1 dm) v"

text \<open>Of the relays, the relation of a panel says only how many there are.\<close>

lemma ddp_rel_new_relays:
  "ddp_rel r (relays, dm) v \<longleftrightarrow>
     length (relayStatus relays) = NUM_VIRTUAL_RELAYS \<and> ddp_rel r (NewVirtualRelayDevice, dm) v"
  by (auto simp: ddp_rel_def NewVirtualRelayDevice_def)

lemma dm_rel_ref: "dm_rel r dm v \<Longrightarrow> dm_ref (dm_base dm) = r"
  by (cases dm) (auto simp: zb_rel_def ddp_rel_def sens_rel_def)

lemma dm_rel_call:
  assumes "dm_rel r dm v" and "dm_call subnet device meth msg (relays, dm) = ((relays', dm'), as)"
    and "length (relayStatus relays) = NUM_VIRTUAL_RELAYS"
  shows "\<exists>v'. publish r v as = Some v' \<and> dm_rel r dm' v'"
proof (cases dm)
  case (DDPM x)
  then have "ddp_rel r (relays, x) v"
    using assms(1,3) ddp_rel_new_relays [of r relays x v] by simp
  moreover obtain x' where "ddp_serve subnet device (Receives meth msg) (relays, x) = ((relays', x'), as)"
    and "dm' = DDPM x'"
    using assms(2) DDPM by (auto split: prod.splits)
  ultimately show ?thesis using ddp_rel_serve ddp_rel_new_relays [of r relays'] by (metis dm_rel.simps(2))
qed (use assms(1,2) zb_rel_call zb_rel_hm_call sens_rel_call cms_rel_call in \<open>fastforce split: prod.splits\<close>)+

lemma dm_rel_accept:
  assumes "dm_rel r dm v" and "v name \<noteq> None"
  shows "\<exists>b dm' as. dm_AcceptOnValue name val dm = Ok (b, dm', as) \<and> publish r v as = Some v \<and>
     dm_rel r dm' v \<and> dm_base dm' = dm_base dm \<and> refs as = {}"
proof (cases dm)
  case (DDPM x)
  then have rel: "ddp_rel r (NewVirtualRelayDevice, x) v" using assms(1) by simp
  then obtain b where b: "1 \<le> b" "b \<le> 16" and name: "name = ddpControlName (word_of_nat b)"
    using assms(2) by (auto simp: ddp_rel_def)
  have "\<exists>x' as. Ok (False, p) = Ok (False, x', as)" for p :: "DDPDeviceModel \<times> action list" by simp
  then obtain x' as where acc: "ddp_AcceptOnValue name val x = Ok (False, x', as)"
    unfolding name AcceptOnValue_name [OF b] by blast
  then have x': "ddp_base x' = ddp_base x" "refs as = {}"
    unfolding name AcceptOnValue_name [OF b] by (auto simp: Let_def split: if_splits)
  have "ddp_serve s d (Sets b val) (NewVirtualRelayDevice, x) = ((NewVirtualRelayDevice, x'), as)" for s d
    using acc name b by simp
  from ddp_rel_accept [OF rel this] have "publish r v as = Some v \<and> ddp_rel r (NewVirtualRelayDevice, x') v" .
  with acc x' DDPM show ?thesis by auto
qed (use assms in \<open>auto simp: zb_AcceptOnValue_def Let_def split: go_result.splits\<close>)

lemma dm_rel_construct: "dm_rel (dm_ref (dm_base (construct c dev))) (construct c dev) Map.empty"
  using zb_rel_new ddp_rel_new [of NewVirtualRelayDevice dev]
  by (cases c) (auto simp: NewVirtualRelayDevice_def NewHmix12DeviceModel_def sens_rel_def NewSensor8in1_def NewSensorSB_CMS_8in1_def)

lemma base_construct [simp]: "smartDev (dm_base (construct c dev)) = dev"
  by (cases c) (simp_all add: NewZoneBeastDeviceModel_def NewDDPDeviceModel_def NewHmix12DeviceModel_def
      NewSensor8in1_def NewSensorSB_CMS_8in1_def)

lemma publish_relays_own: "refs as \<subseteq> {dm_ref base} \<Longrightarrow> \<not> panics as \<Longrightarrow> publish VirtualRelays v as = Some v"
  by (rule publish_other) auto

lemma relays_rel_dm_call:
  assumes "relays_rel relays v" and "dm_call subnet device meth msg (relays, dm) = ((relays', dm'), as)"
    and "\<not> panics as"
  shows "\<exists>v'. publish VirtualRelays v as = Some v' \<and> relays_rel relays' v'"
proof (cases dm)
  case (DDPM x)
  then obtain x' where "ddp_serve subnet device (Receives meth msg) (relays, x) = ((relays', x'), as)"
    using assms(2) by (auto split: prod.splits)
  then show ?thesis using relays_rel_serve [of "(relays, x)"] assms(1,3) by fastforce
next
  case (ZoneBeastM x)
  then show ?thesis using assms own_zb_call [where dm = x and meth = meth and msg = msg] publish_relays_own [of as _ v]
    by (auto split: prod.splits)
next
  case (Hmix12M x)
  then show ?thesis using assms own_hm_call [where dm = x and meth = meth and msg = msg] publish_relays_own [of as _ v]
    by (auto split: prod.splits)
next
  case (Sensor8in1M x)
  then show ?thesis using assms own_sens_call [where sens = x and meth = meth and msg = msg] publish_relays_own [of as _ v]
    by (auto split: prod.splits)
next
  case (SensorCMSM x)
  then show ?thesis
    using assms own_sens_call [where sens = "cms_Sensor8in1 x" and meth = meth and msg = msg]
      publish_relays_own [of as _ v] by (auto simp: cms_call_def split: prod.splits)
qed


section \<open>The invariant of the driver\<close>

text \<open>The calls of the observer among what the driver did.\<close>

fun observed :: "out_event list \<Rightarrow> action list" where
  "observed [] = []"
| "observed (Observed e # es) = Notify e # observed es"
| "observed (Bus e # es) = observed es"

lemma observed_append [simp]: "observed (es @ es') = observed es @ observed es'"
  by (induction es rule: observed.induct) auto

lemma observed_Bus [simp]: "observed (map Bus es) = []"
  by (induction es) auto

lemma observed_concat_Bus: "(\<And>x. x \<in> set xs \<Longrightarrow> observed (f x) = []) \<Longrightarrow> observed (concat (map f xs)) = []"
  by (induction xs) auto

definition published :: "dev_ref \<Rightarrow> SmartbusModel \<Rightarrow> view option" where
  "published r m = publish r Map.empty (observed (trace m))"

lemma published_emit [simp]:
  "published r (emit es m) = (case published r m of None \<Rightarrow> None | Some v \<Rightarrow> publish r v (observed es))"
  by (simp add: published_def emit_def publish_append)

lemma published_updates [simp]:
  "published r (m\<lparr>queue := q\<rparr>) = published r m"
  "published r (m\<lparr>deviceMap := d\<rparr>) = published r m"
  "published r (m\<lparr>ep := e\<rparr>) = published r m"
  "published r (m\<lparr>virtualRelays := relays\<rparr>) = published r m"
  "published r (m\<lparr>pc := p\<rparr>) = published r m"
  by (simp_all add: published_def)

text \<open>The part of the state that effects leave alone.\<close>

definition same_state :: "SmartbusModel \<Rightarrow> SmartbusModel \<Rightarrow> bool" where
  "same_state m m' = (deviceMap m' = deviceMap m \<and> virtualRelays m' = virtualRelays m \<and> pc m' = pc m \<and>
     ep m' = ep m \<and> subnetID m' = subnetID m \<and> deviceID m' = deviceID m)"

lemma perform_effect:
  assumes "\<not> panics [a]"
  shows "same_state m (perform env a m) \<and>
   published r (perform env a m) = (case published r m of None \<Rightarrow> None | Some v \<Rightarrow> publish r v [a])"
  using assms
  by (cases a) (auto simp: same_state_def emit_def published_def publish_append split: option.splits)

lemma perform_all_Cons: "\<not> panics [a] \<Longrightarrow> perform_all env (a # as) m = perform_all env as (perform env a m)"
  by (cases a) simp_all

lemma perform_all_effect:
  assumes "\<not> panics as"
  shows "same_state m (perform_all env as m) \<and>
   published r (perform_all env as m) = (case published r m of None \<Rightarrow> None | Some v \<Rightarrow> publish r v as)"
  using assms
proof (induction as arbitrary: m)
  case Nil
  then show ?case by (simp add: same_state_def split: option.split)
next
  case (Cons a as)
  have "publish r v (a # as) = (case publish r v [a] of None \<Rightarrow> None | Some v' \<Rightarrow> publish r v' as)" for v
    using publish_append [of r v "[a]" as] by simp
  moreover have np: "\<not> panics [a]" "\<not> panics as"
    using Cons.prems panics_simps(2) [of "[a]" as] by simp_all
  ultimately show ?case
    using Cons.IH [OF np(2), of "perform env a m"] perform_effect [OF np(1), of m env r]
    by (auto simp: perform_all_Cons [OF np(1)] same_state_def split: option.splits)
qed

text \<open>A device that does not exist has published nothing.\<close>

definition view_ok :: "dev_ref \<Rightarrow> RealDeviceModel option \<Rightarrow> view option \<Rightarrow> bool" where
  "view_ok r dmo vo =
     (case dmo of None \<Rightarrow> vo = Some Map.empty | Some dm \<Rightarrow> \<exists>v. vo = Some v \<and> dm_rel r dm v)"

definition sys_inv :: "SmartbusModel \<Rightarrow> bool" where
  "sys_inv m =
     (distinct (map fst (deviceMap m)) \<and> map_ok (ep m) \<and>
      (\<forall>k. view_ok (RealDevice k) (map_of (deviceMap m) k) (published (RealDevice k) m)) \<and>
      (if pc m = NotStarted
       then virtualRelays m = NewVirtualRelayDevice \<and> published VirtualRelays m = Some Map.empty
       else \<exists>v. published VirtualRelays m = Some v \<and> relays_rel (virtualRelays m) v) \<and>
      (\<forall>p. pc m \<noteq> Crashed p))"

lemma sys_invI_same:
  assumes "sys_inv m" and "deviceMap m' = deviceMap m" and "virtualRelays m' = virtualRelays m"
    and "ep m' = ep m" and "\<And>r. published r m' = published r m"
    and "pc m' = NotStarted \<longleftrightarrow> pc m = NotStarted" and "\<And>p. pc m' \<noteq> Crashed p"
  shows "sys_inv m'"
  using assms by (simp add: sys_inv_def)

lemma sys_inv_view:
  assumes "sys_inv m" and "map_of (deviceMap m) k = Some dm"
  shows "\<exists>v. published (RealDevice k) m = Some v \<and> dm_rel (RealDevice k) dm v"
proof -
  have "view_ok (RealDevice k) (map_of (deviceMap m) k) (published (RealDevice k) m)"
    using assms(1) by (simp add: sys_inv_def)
  then show ?thesis by (simp add: assms(2) view_ok_def)
qed

text \<open>A device model replaced by its successor, with the effects that lead there.\<close>

lemma sys_inv_device_step:
  assumes inv: "sys_inv m" and dm: "map_of (deviceMap m) k = Some dm" and started: "pc m \<noteq> NotStarted"
    and own: "\<And>v. dm_rel (RealDevice k) dm v \<Longrightarrow> published (RealDevice k) m = Some v \<Longrightarrow>
      \<exists>v'. publish (RealDevice k) v as = Some v' \<and> dm_rel (RealDevice k) dm' v'"
    and relays: "\<And>v. relays_rel (virtualRelays m) v \<Longrightarrow>
      \<exists>v'. publish VirtualRelays v as = Some v' \<and> relays_rel relays v'"
    and refs: "refs as \<subseteq> {RealDevice k, VirtualRelays}" and pc: "pc' \<noteq> NotStarted" "\<And>p. pc' \<noteq> Crashed p"
  shows "sys_inv (perform_all env as
     (m\<lparr>virtualRelays := relays, deviceMap := AList.update k dm' (deviceMap m), pc := pc'\<rparr>))"
proof -
  let ?m = "m\<lparr>virtualRelays := relays, deviceMap := AList.update k dm' (deviceMap m), pc := pc'\<rparr>"
  let ?m' = "perform_all env as ?m"
  obtain v0 where "published (RealDevice k) m = Some v0" "dm_rel (RealDevice k) dm v0"
    using sys_inv_view [OF inv dm] by blast
  with own [of v0] publish_not_panics have np: "\<not> panics as" by blast
  have pub: "published r ?m' = (case published r m of None \<Rightarrow> None | Some v \<Rightarrow> publish r v as)" for r
    using perform_all_effect [OF np, of ?m env r] by simp
  have same: "deviceMap ?m' = AList.update k dm' (deviceMap m)" "virtualRelays ?m' = relays" "ep ?m' = ep m" "pc ?m' = pc'"
    using perform_all_effect [OF np, of ?m env] by (auto simp: same_state_def)
  have k: "k \<in> set (map fst (deviceMap m))" using map_of_SomeD [OF dm] by force
  have views: "view_ok (RealDevice k') (map_of (deviceMap ?m') k') (published (RealDevice k') ?m')" for k'
  proof (cases "k' = k")
    case True
    obtain v where "published (RealDevice k) m = Some v" "dm_rel (RealDevice k) dm v"
      using sys_inv_view [OF inv dm] by blast
    with own [of v] True show ?thesis by (auto simp: pub same update_conv' view_ok_def)
  next
    case False
    then have "publish (RealDevice k') v as = Some v" for v
      using refs np by (intro publish_other) auto
    then have "published (RealDevice k') ?m' = published (RealDevice k') m"
      by (simp add: pub split: option.split)
    then show ?thesis using False inv by (simp add: same update_conv' sys_inv_def)
  qed
  obtain v where "published VirtualRelays m = Some v" "relays_rel (virtualRelays m) v"
    using inv started by (auto simp: sys_inv_def)
  then have "\<exists>v. published VirtualRelays ?m' = Some v \<and> relays_rel relays v"
    using relays [of v] by (simp add: pub)
  then show ?thesis
    using inv k pc views unfolding sys_inv_def by (simp add: same update_keys)
qed

lemma sys_inv_finish_handler:
  assumes "sys_inv m" and "pc m \<noteq> NotStarted"
  shows "sys_inv (finish_handler env meth msg k m)"
proof (cases "map_of (deviceMap m) k")
  case None
  then show ?thesis
    using sys_invI_same [OF assms(1), of "m\<lparr>pc := Idle\<rparr>"] assms(2)
    by (simp add: finish_handler_def)
next
  case (Some dm)
  obtain relays dm' as where call: "dm_call (subnetID m) (deviceID m) meth msg (virtualRelays m, dm) = ((relays, dm'), as)"
    by (metis surj_pair)
  have ref: "dm_ref (dm_base dm) = RealDevice k"
    using sys_inv_view [OF assms(1) Some] dm_rel_ref by blast
  have len: "length (relayStatus (virtualRelays m)) = NUM_VIRTUAL_RELAYS"
    using assms by (auto simp: sys_inv_def relays_rel_def)
  have "\<not> panics as"
    using sys_inv_view [OF assms(1) Some] dm_rel_call [OF _ call len] publish_not_panics by blast
  then have "sys_inv (perform_all env as
     (m\<lparr>virtualRelays := relays, deviceMap := AList.update k dm' (deviceMap m), pc := Idle\<rparr>))"
    using own_dm_call [OF call] ref dm_rel_call [OF _ call len] relays_rel_dm_call [OF _ call]
    by (intro sys_inv_device_step [OF assms(1) Some assms(2)]) auto
  then show ?thesis using Some call by (simp add: finish_handler_def)
qed

lemma sys_inv_ensureDevice:
  assumes "sys_inv m" and "pc m \<noteq> NotStarted" and "ensureDevice h m = (ko, m')"
  shows "sys_inv m' \<and> pc m' = pc m"
proof (cases "map_of (deviceMap m) (deviceKey (OrigSubnetID h) (OrigDeviceID h))")
  case (Some dm)
  then show ?thesis using assms by (auto simp: ensureDevice_def)
next
  case None
  let ?k = "deviceKey (OrigSubnetID h) (OrigDeviceID h)"
  show ?thesis
  proof (cases "map_of smartbusDeviceModelTypes (OrigDeviceType h)")
    case unknown: None
    then show ?thesis using assms None by (auto simp: ensureDevice_def)
  next
    case (Some c)
    obtain dev ep' where g: "GetSmartbusDevice (ep m) (OrigSubnetID h) (OrigDeviceID h) = (dev, ep')" by fastforce
    have "map_ok (ep m)" using assms(1) by (simp add: sys_inv_def)
    then have dev: "dev_SubnetID dev = OrigSubnetID h" "dev_DeviceID dev = OrigDeviceID h" "map_ok ep'"
      using get_address [of "ep m" "OrigSubnetID h" "OrigDeviceID h" dev ep'] g by (simp_all add: ep_get_def)
    let ?dm = "construct c dev"
    have rel: "dm_rel (RealDevice ?k) ?dm Map.empty"
      using dm_rel_construct [of c dev] dev by (simp add: dm_ref_def)
    obtain n t where m': "m' = emit [Observed (OnNewDevice (RealDevice ?k) n t)]
        (m\<lparr>ep := ep', deviceMap := deviceMap m @ [(?k, ?dm)]\<rparr>)"
      using assms(3) None Some g by (auto simp: ensureDevice_def Let_def)
    have pub: "published r m' = published r m" for r
      by (simp add: m' split: option.split)
    have new: "?k \<notin> fst ` set (deviceMap m)" using None by (simp add: map_of_eq_None_iff)
    have "view_ok (RealDevice ?k) None (published (RealDevice ?k) m)"
      using assms(1) None unfolding sys_inv_def by metis
    then have "view_ok (RealDevice ?k) (Some ?dm) (published (RealDevice ?k) m)"
      using rel by (simp add: view_ok_def)
    moreover have all: "\<And>k. view_ok (RealDevice k) (map_of (deviceMap m) k) (published (RealDevice k) m)"
      using assms(1) by (simp add: sys_inv_def)
    moreover have at: "map_of (deviceMap m @ [(?k, ?dm)]) k = (if k = ?k then Some ?dm else map_of (deviceMap m) k)" for k
      using None by (auto simp: map_add_def split: option.split)
    moreover have same: "deviceMap m' = deviceMap m @ [(?k, ?dm)]" "ep m' = ep'" "pc m' = pc m"
      "virtualRelays m' = virtualRelays m"
      by (simp_all add: m' emit_def)
    ultimately have "view_ok (RealDevice k) (map_of (deviceMap m') k) (published (RealDevice k) m')" for k
      unfolding pub same at by simp
    then show ?thesis
      using assms(1) dev(3) new unfolding sys_inv_def pub by (simp add: same)
  qed
qed

lemma sys_inv_emit_Bus: "observed es = [] \<Longrightarrow> sys_inv (emit es m) = sys_inv m"
  by (simp add: sys_inv_def emit_def published_def)

lemma pc_emit [simp]: "pc (emit es m) = pc m"
  by (simp add: emit_def)

lemma sys_inv_queue [simp]: "sys_inv (m\<lparr>queue := q\<rparr>) = sys_inv m"
  by (simp add: sys_inv_def)

lemma sys_inv_pc:
  "sys_inv m \<Longrightarrow> pc m \<noteq> NotStarted \<Longrightarrow> p \<noteq> NotStarted \<Longrightarrow> (\<And>x. p \<noteq> Crashed x) \<Longrightarrow> sys_inv (m\<lparr>pc := p\<rparr>)"
  by (simp add: sys_inv_def)

lemma sys_inv_OnAnything:
  assumes "sys_inv m" and "pc m \<noteq> NotStarted"
  shows "sys_inv (OnAnything env sm m)"
proof -
  obtain ko m' where e: "ensureDevice (Header sm) m = (ko, m')" by fastforce
  from sys_inv_ensureDevice [OF assms e] have m': "sys_inv m'" "pc m' \<noteq> NotStarted" using assms(2) by auto
  then show ?thesis
    by (auto simp: OnAnything_def e intro: sys_inv_pc sys_inv_finish_handler split: option.split)
qed

lemma sys_inv_effects:
  assumes "sys_inv m" and "refs as = {}" and "\<not> panics as"
  shows "sys_inv (perform_all env as m)"
proof -
  have "published r (perform_all env as m) = published r m" for r
    using perform_all_effect [OF assms(3), of m env r] assms(2,3) publish_other [of r as] by (auto split: option.split)
  with assms(1) perform_all_effect [OF assms(3), of m env] show ?thesis
    by (auto simp: same_state_def sys_inv_def)
qed

lemma refs_Poll: "refs (dm_Poll dm) = {}" "\<not> panics (dm_Poll dm)"
  by (cases dm; simp add: zb_Poll_def hm_Poll_def sens_Poll_def panics_def)+

lemma refs_concat: "(\<And>x. x \<in> set xs \<Longrightarrow> refs (f x) = {}) \<Longrightarrow> refs (concat (map f xs)) = {}"
  by (induction xs) auto

lemma panics_concat: "(\<And>x. x \<in> set xs \<Longrightarrow> \<not> panics (f x)) \<Longrightarrow> \<not> panics (concat (map f xs))"
  by (induction xs) auto

lemma observed_run_thunk [simp]: "observed (run_thunk env th m) = []"
  by (simp add: run_thunk_def split: thunk.split option.split RealDeviceModel.split)

lemma map_ok_make_endpoint: "map_ok (make_endpoint m)"
proof -
  let ?ep = "AddOutputSniffer (MessageDumper ''OUTGOING'') (AddInputSniffer (MessageDumper ''NOT FOR US'')
      (Observe (MessageDumper ''MESSAGE FOR US'') (Observe TheModel
        (fst (MakeSmartbusEndpoint NewSmartbusConnection (subnetID m) (deviceID m) (deviceType m))))))"
  have "map_ok ?ep"
    by (simp add: map_ok_def AddOutputSniffer_def AddInputSniffer_def Observe_def MakeSmartbusEndpoint_def Let_def)
  moreover obtain d ep' where "GetBroadcastDevice ?ep = (d, ep')" by fastforce
  ultimately show ?thesis
    using get_address [of ?ep BROADCAST_SUBNET BROADCAST_DEVICE d ep']
    by (simp add: make_endpoint_def GetBroadcastDevice_def ep_get_def)
qed

lemma sys_inv_Start:
  assumes "sys_inv m" and "model_Start env connector m = Some m'"
  shows "sys_inv m'"
proof (cases "connector = Ok ()")
  case False
  then have "m' = m" using assms(2) by (cases connector) (auto simp: model_Start_def split: if_splits)
  then show ?thesis using assms(1) by simp
next
  case True
  let ?as = "Notify (OnNewDevice VirtualRelays ''sbusvrelay'' ''Smartbus Virtual Relays'') # relays_Publish (virtualRelays m)"
  obtain q where ns: "pc m = NotStarted" and
    m': "m' = perform_all env ?as (m\<lparr>ep := make_endpoint m, queue := q, pc := Starting\<rparr>)"
    using assms(2) True by (auto simp: model_Start_def split: if_splits option.splits)
  let ?m = "m\<lparr>ep := make_endpoint m, queue := q, pc := Starting\<rparr>"
  have new: "virtualRelays m = NewVirtualRelayDevice" "published VirtualRelays m = Some Map.empty"
    using assms(1) ns by (auto simp: sys_inv_def)
  have refs: "refs ?as \<subseteq> {VirtualRelays}"
    by (auto simp: relays_Publish_def refs_def)
  moreover have np: "\<not> panics ?as"
    by (auto simp: relays_Publish_def panics_def list_ex_iff)
  ultimately have "publish (RealDevice k) v ?as = Some v" for k v
    by (intro publish_other) auto
  then have dev: "published (RealDevice k) m' = published (RealDevice k) m" for k
    using perform_all_effect [OF np, of ?m env "RealDevice k"] unfolding m' by (simp split: option.split)
  obtain v where "publish VirtualRelays Map.empty (relays_Publish NewVirtualRelayDevice) = Some v"
    "relays_rel NewVirtualRelayDevice v" using relays_Publish_fresh by blast
  then have "\<exists>v. published VirtualRelays m' = Some v \<and> relays_rel NewVirtualRelayDevice v"
    using perform_all_effect [OF np, of ?m env VirtualRelays] new unfolding m' by simp
  then show ?thesis
    using assms(1) perform_all_effect [OF np, of ?m env] new map_ok_make_endpoint [of m] dev
    by (auto simp: m' same_state_def sys_inv_def)
qed

text \<open>
  What the driver library promises about the client's requests: it passes on only those for
  controls that were announced to it.
\<close>

definition env_spec :: "sys_env \<Rightarrow> bool" where
  "env_spec env =
     (\<forall>m k name. env_may_set env m k name \<longrightarrow>
        (\<exists>v. publish (RealDevice k) Map.empty (observed (trace m)) = Some v \<and> v name \<noteq> None))"

lemma sys_inv_AcceptOnValue:
  assumes "env_spec env" and "sys_inv m" and "AcceptOnValue env k name val m = Some m'"
  shows "sys_inv m'"
proof -
  obtain dm where idle: "pc m = Idle" and may: "env_may_set env m k name" and dm: "map_of (deviceMap m) k = Some dm"
    using assms(3) by (auto simp: AcceptOnValue_def split: if_splits option.splits)
  obtain v where v: "published (RealDevice k) m = Some v" "dm_rel (RealDevice k) dm v"
    using sys_inv_view [OF assms(2) dm] by blast
  obtain v' where "publish (RealDevice k) Map.empty (observed (trace m)) = Some v'" "v' name \<noteq> None"
    using assms(1) may unfolding env_spec_def by blast
  with v(1) have "v name \<noteq> None" by (simp add: published_def)
  from dm_rel_accept [OF v(2) this, of val] obtain b dm' as where
    acc: "dm_AcceptOnValue name val dm = Ok (b, dm', as)" "publish (RealDevice k) v as = Some v"
      "dm_rel (RealDevice k) dm' v" "refs as = {}" by blast
  then have m': "m' = perform_all env as (m\<lparr>deviceMap := AList.update k dm' (deviceMap m)\<rparr>)"
    using assms(3) idle may dm by (simp add: AcceptOnValue_def)
  have "sys_inv (perform_all env as (m\<lparr>virtualRelays := virtualRelays m,
      deviceMap := AList.update k dm' (deviceMap m), pc := Idle\<rparr>))"
    using acc v publish_other [of VirtualRelays as] publish_not_panics [OF acc(2)] idle
    by (intro sys_inv_device_step [OF assms(2) dm]) auto
  moreover have "m\<lparr>virtualRelays := virtualRelays m, deviceMap := AList.update k dm' (deviceMap m), pc := Idle\<rparr> =
      m\<lparr>deviceMap := AList.update k dm' (deviceMap m)\<rparr>"
    using idle by simp
  ultimately show ?thesis using m' by simp
qed

lemma sys_inv_step:
  assumes "env_spec env" and "sys_inv m" and "sys_step env l m = Some m'"
  shows "sys_inv m'"
proof (cases l)
  case (SysStart c)
  then show ?thesis using assms sys_inv_Start by simp
next
  case (Poll order)
  have "refs (case map_of (deviceMap m) k of Some dm \<Rightarrow> dm_Poll dm | None \<Rightarrow> []) = {}"
    "\<not> panics (case map_of (deviceMap m) k of Some dm \<Rightarrow> dm_Poll dm | None \<Rightarrow> [])" for k
    by (simp_all add: refs_Poll split: option.split)
  then show ?thesis
    using assms Poll by (auto simp: model_Poll_def intro!: sys_inv_effects refs_concat panics_concat split: if_splits)
next
  case (Deliver sm)
  then show ?thesis
    using assms sys_inv_OnAnything [of "emit (map Bus (maybeHandleMessage (env_ctx env) (ep m) sm)) m" env sm]
    by (auto simp: deliver_def Let_def sys_inv_emit_Bus split: if_splits)
next
  case (SetControl k name val)
  then show ?thesis using assms sys_inv_AcceptOnValue by simp
next
  case (QueueStep ql)
  then show ?thesis
    using assms by (auto simp: queue_step_def Let_def sys_inv_emit_Bus observed_concat_Bus split: if_splits option.splits)
qed (use assms sys_inv_finish_handler in
    \<open>auto simp: model_Start_finish_def model_Stop_def model_Stop_finish_def pass_message_def sys_inv_emit_Bus
       intro!: sys_inv_pc split: if_splits option.splits driver_pc.splits\<close>)

interpretation driver: ts_invariant "sys_step env" "NewSmartbusModel s d t" "\<lambda>m. env_spec env \<longrightarrow> sys_inv m"
proof unfold_locales
  show "env_spec env \<longrightarrow> sys_inv (NewSmartbusModel s d t)"
    by (simp add: sys_inv_def NewSmartbusModel_def published_def view_ok_def map_ok_def no_endpoint_def)
qed (use sys_inv_step in blast)

end
