(* ===== verification/DriverCorrect.thy ===== *)
theory DriverCorrect
  imports SystemPublish
begin

text \<open>
  The properties of the driver as a whole, from the invariants of its parts.
\<close>

section \<open>Device models persist\<close>

text \<open>The device model of an address may change its state but is never replaced.\<close>

definition keeps_devices :: "SmartbusModel \<Rightarrow> SmartbusModel \<Rightarrow> bool" where
  "keeps_devices m m' =
     (\<forall>k dm. map_of (deviceMap m) k = Some dm \<longrightarrow>
        (\<exists>dm'. map_of (deviceMap m') k = Some dm' \<and> dm_base dm' = dm_base dm))"

lemma keeps_same: "deviceMap m' = deviceMap m \<Longrightarrow> keeps_devices m m'"
  by (simp add: keeps_devices_def)

lemma keeps_trans: "keeps_devices m1 m2 \<Longrightarrow> keeps_devices m2 m3 \<Longrightarrow> keeps_devices m1 m3"
  unfolding keeps_devices_def by metis

lemma keeps_update:
  assumes "map_of (deviceMap m) k = Some dm" and "dm_base dm' = dm_base dm"
    and "deviceMap m' = AList.update k dm' (deviceMap m)"
  shows "keeps_devices m m'"
  using assms by (auto simp: keeps_devices_def update_conv')

lemma deviceMap_emit [simp]: "deviceMap (emit es m) = deviceMap m"
  by (simp add: emit_def)

lemma deviceMap_perform_all [simp]: "deviceMap (perform_all env as m) = deviceMap m"
  by (induction env as m rule: perform_all.induct) simp_all

lemma keeps_finish_handler: "keeps_devices m (finish_handler env meth msg k m)"
proof (cases "map_of (deviceMap m) k")
  case None
  then show ?thesis by (simp add: finish_handler_def keeps_same)
next
  case (Some dm)
  obtain relays dm' as where call: "dm_call (subnetID m) (deviceID m) meth msg (virtualRelays m, dm) = ((relays, dm'), as)"
    by (metis surj_pair)
  show ?thesis
    by (rule keeps_update [OF Some, of dm']) (use own_dm_call [OF call] Some call in \<open>simp_all add: finish_handler_def\<close>)
qed

lemma keeps_ensureDevice: "keeps_devices m (snd (ensureDevice h m))"
  by (auto simp: keeps_devices_def ensureDevice_def Let_def split_def map_add_def split: option.splits)

lemma keeps_OnAnything: "keeps_devices m (OnAnything env sm m)"
proof -
  obtain ko m' where e: "ensureDevice (Header sm) m = (ko, m')" by fastforce
  then have "keeps_devices m m'" using keeps_ensureDevice [of m "Header sm"] by simp
  moreover have "keeps_devices m' (OnAnything env sm m)"
    using keeps_finish_handler
    by (auto simp: OnAnything_def e keeps_same split: option.split)
  ultimately show ?thesis by (rule keeps_trans)
qed

lemma ddp_base_accept:
  "ddp_AcceptOnValue name val dm = Ok (b, dm', as) \<Longrightarrow> ddp_base dm' = ddp_base dm"
  by (auto simp: ddp_AcceptOnValue_def set_modes_def Let_def split: if_splits go_result.splits)

lemma base_accept:
  "dm_AcceptOnValue name val dm = Ok (b, dm', as) \<Longrightarrow> dm_base dm' = dm_base dm"
  by (cases dm) (auto simp: gbind_Ok_iff dest: ddp_base_accept split: prod.splits)

lemma keeps_step:
  assumes "sys_step env l m = Some m'"
  shows "keeps_devices m m'"
proof (cases l)
  case (Deliver sm)
  have "keeps_devices m (OnAnything env sm (emit es m))" for es
    using keeps_OnAnything [of "emit es m" env sm] by (simp add: keeps_devices_def)
  then show ?thesis
    using assms Deliver by (auto simp: deliver_def Let_def keeps_same split: if_splits)
next
  case (SetControl k name val)
  then show ?thesis
    using assms
    by (auto simp: AcceptOnValue_def keeps_same intro: keeps_update base_accept
        split: if_splits option.splits go_result.splits)
next
  case FinishHandler
  then show ?thesis
    using assms keeps_finish_handler by (auto split: driver_pc.splits)
qed (use assms in
    \<open>auto simp: model_Start_def model_Start_finish_def model_Stop_def model_Stop_finish_def model_Poll_def
       pass_message_def queue_step_def Let_def intro!: keeps_same
       split: if_splits option.splits go_result.splits driver_pc.splits\<close>)


section \<open>Device names\<close>

lemma digits_split:
  assumes "nat_digits a @ CHR ''_'' # xs = nat_digits b @ CHR ''_'' # ys"
  shows "a = b \<and> xs = ys"
proof -
  have "\<not> is_digit CHR ''_''" by (simp add: is_digit_def digit_val_def)
  then have take: "takeWhile is_digit (nat_digits n @ CHR ''_'' # zs) = nat_digits n" for n zs
    using nat_digits_digits by (subst takeWhile_append2) auto
  have "nat_digits a = nat_digits b" using assms take by metis
  with assms show ?thesis by (simp add: nat_digits_inj)
qed

definition known_bases :: "string set" where
  "known_bases = {''zonebeast'', ''ddp'', ''8in1Sensor'', ''Sensor_SB_CMS_8in1_''}"

lemma Name_inj:
  assumes "dm_Name x = dm_Name y" and "nameBase x \<in> known_bases" and "nameBase y \<in> known_bases"
  shows "dm_ref x = dm_ref y"
proof -
  have "nameBase x = nameBase y"
    using assms by (auto simp: dm_Name_def known_bases_def)
  then have "nat_digits (unat (dev_SubnetID (smartDev x))) @ CHR ''_'' # nat_digits (unat (dev_DeviceID (smartDev x))) =
      nat_digits (unat (dev_SubnetID (smartDev y))) @ CHR ''_'' # nat_digits (unat (dev_DeviceID (smartDev y)))"
    using assms(1) by (simp add: dm_Name_def)
  from digits_split [OF this] show ?thesis
    by (simp add: dm_ref_def nat_digits_inj word_unat_eq_iff [symmetric])
qed

lemma known_construct: "nameBase (dm_base (construct c dev)) \<in> known_bases"
  by (cases c) (simp_all add: known_bases_def NewZoneBeastDeviceModel_def NewDDPDeviceModel_def
      NewHmix12DeviceModel_def NewSensor8in1_def NewSensorSB_CMS_8in1_def)

definition bases_known :: "SmartbusModel \<Rightarrow> bool" where
  "bases_known m = (\<forall>k dm. map_of (deviceMap m) k = Some dm \<longrightarrow> nameBase (dm_base dm) \<in> known_bases)"

lemma bases_known_update:
  "bases_known m \<Longrightarrow> map_of (deviceMap m) k = Some dm \<Longrightarrow> dm_base dm' = dm_base dm \<Longrightarrow>
     deviceMap m' = AList.update k dm' (deviceMap m) \<Longrightarrow> bases_known m'"
  by (auto simp: bases_known_def update_conv')

lemma bases_known_same: "bases_known m \<Longrightarrow> deviceMap m' = deviceMap m \<Longrightarrow> bases_known m'"
  by (simp add: bases_known_def)

lemma bases_known_finish: "bases_known m \<Longrightarrow> bases_known (finish_handler env meth msg k m)"
proof (cases "map_of (deviceMap m) k")
  case None
  then show "bases_known m \<Longrightarrow> ?thesis" by (simp add: finish_handler_def bases_known_def)
next
  case (Some dm)
  obtain relays dm' as where call: "dm_call (subnetID m) (deviceID m) meth msg (virtualRelays m, dm) = ((relays, dm'), as)"
    by (metis surj_pair)
  assume "bases_known m"
  then show ?thesis
    by (rule bases_known_update [OF _ Some, of dm']) (use own_dm_call [OF call] Some call in \<open>simp_all add: finish_handler_def\<close>)
qed

lemma bases_known_ensure: "bases_known m \<Longrightarrow> ensureDevice h m = (ko, m') \<Longrightarrow> bases_known m'"
  using known_construct
  by (auto simp: bases_known_def ensureDevice_def Let_def split_def map_add_def split: option.splits if_splits)

lemma bases_known_OnAnything: "bases_known m \<Longrightarrow> bases_known (OnAnything env sm m)"
proof -
  assume m: "bases_known m"
  obtain ko m' where e: "ensureDevice (Header sm) m = (ko, m')" by fastforce
  note m' = bases_known_ensure [OF m e]
  then show ?thesis
    by (auto simp: OnAnything_def e intro: bases_known_finish bases_known_same [OF m'] split: option.split)
qed

lemma bases_known_step:
  assumes "bases_known m" and "sys_step env l m = Some m'"
  shows "bases_known m'"
proof (cases l)
  case (Deliver sm)
  then show ?thesis
    using assms bases_known_OnAnything bases_known_same [OF assms(1)]
    by (auto simp: deliver_def Let_def split: if_splits)
next
  case (SetControl k name val)
  then show ?thesis
    using assms
    by (auto simp: AcceptOnValue_def intro: bases_known_same bases_known_update base_accept
        split: if_splits option.splits go_result.splits)
next
  case FinishHandler
  then show ?thesis
    using assms bases_known_finish by (auto split: driver_pc.splits)
qed (use assms in
    \<open>auto simp: model_Start_def model_Start_finish_def model_Stop_def model_Stop_finish_def model_Poll_def
       pass_message_def queue_step_def Let_def intro!: bases_known_same [OF assms(1)]
       split: if_splits option.splits go_result.splits driver_pc.splits\<close>)

interpretation names: ts_invariant "sys_step env" "NewSmartbusModel s d t" bases_known
  by unfold_locales (simp add: bases_known_def NewSmartbusModel_def, rule bases_known_step)

end
