(* ===== verification/DriverProperties.thy ===== *)
theory DriverProperties
  imports DriverCorrect
begin

text \<open>
  What the driver guarantees as a whole, in every interleaving of message delivery, requests of
  the client, polling, the request queue and its timers.
\<close>

section \<open>An environment for examples\<close>

text \<open>It passes on exactly the client's requests for controls that were announced.\<close>

definition sample_env :: sys_env where
  "sample_env = \<lparr>env_visit = sample_visit, env_timer = True,
     env_may_set = (\<lambda>m k name. case publish (RealDevice k) Map.empty (observed (trace m)) of
        Some v \<Rightarrow> v name \<noteq> None | None \<Rightarrow> False)\<rparr>"

lemma sample_env_spec: "env_spec sample_env"
  by (auto simp: env_spec_def sample_env_def split: option.splits)

definition startup :: "sys_label list" where
  "startup = [SysStart (Ok ()), QueueStep FlushDefault, SysStartFinish]"


section \<open>Start-up\<close>

lemma lock_Enqueue [simp]:
  "lock (snd (Enqueue cfg i q)) = lock q" "active (snd (Enqueue cfg i q)) = active q"
  by (simp_all add: Enqueue_def record_event_def)

lemma trace_Notify:
  "perform_all env (map Notify es) m = m\<lparr>trace := trace m @ map Observed es\<rparr>"
  by (induction es arbitrary: m) (simp_all add: emit_def)

definition relay_controls :: "obs_event list" where
  "relay_controls = map (\<lambda>i. OnNewControl VirtualRelays (relay_name (i + 1)) ''switch'' ''0'' True (-1) True) [0..<15]"

lemma relays_Publish_new: "relays_Publish NewVirtualRelayDevice = map Notify relay_controls"
  by (simp add: relays_Publish_def NewVirtualRelayDevice_def relay_controls_def NUM_VIRTUAL_RELAYS_def
      switch_value_def upt_rec [of 0] eval_nat_numeral)

lemma GetBroadcastDevice_endpoint:
  "fst (GetBroadcastDevice (make_endpoint m)) = \<lparr>dev_SubnetID = 0xff, dev_DeviceID = 0xff, dev_DeviceType = 0\<rparr>"
  by (simp add: make_endpoint_def GetBroadcastDevice_def GetSmartbusDevice_def AddOutputSniffer_def
      AddInputSniffer_def Observe_def MakeSmartbusEndpoint_def Let_def BROADCAST_SUBNET_def BROADCAST_DEVICE_def)

lemma startup_run:
  "\<exists>m. exec (sys_step env) startup (NewSmartbusModel s d t) = Some m \<and> pc m = Idle \<and> deviceMap m = [] \<and>
     subnetID m = s \<and> deviceID m = d \<and> virtualRelays m = NewVirtualRelayDevice \<and>
     ep m = make_endpoint (NewSmartbusModel s d t) \<and>
     queue m = NewMessageQueue\<lparr>active := True, quit := ChanOpen, runners := [AtLoop]\<rparr> \<and>
     trace m = map Observed (OnNewDevice VirtualRelays ''sbusvrelay'' ''Smartbus Virtual Relays'' # relay_controls) @
       map Bus (dev_ReadMACAddress (env_ctx env) (ep m)
         \<lparr>dev_SubnetID = 0xff, dev_DeviceID = 0xff, dev_DeviceType = 0\<rparr>)"
  unfolding startup_def
  by (simp add: model_Start_def NewSmartbusModel_def Start_def NewMessageQueue_def relays_Publish_new
      trace_Notify queue_step_def flush_default_def Let_def model_Start_finish_def emit_def broadcastDev_def
      GetBroadcastDevice_endpoint)


section \<open>The driver's endpoint\<close>

text \<open>Once started, the endpoint has the driver's address, and its observers stay the same.\<close>

definition address :: "SmartbusModel \<Rightarrow> byte \<times> byte \<times> u16" where
  "address m = (subnetID m, deviceID m, deviceType m)"

definition endpoint_ok :: "byte \<times> byte \<times> u16 \<Rightarrow> observer SmartbusEndpoint \<Rightarrow> bool" where
  "endpoint_ok a e = (case a of (s, d, t) \<Rightarrow>
     ep_SubnetID e = s \<and> ep_DeviceID e = d \<and> ep_DeviceType e = t \<and>
     observers e = [TheModel, MessageDumper ''MESSAGE FOR US''] \<and>
     inputSniffers e = [MessageDumper ''NOT FOR US''] \<and> outputSniffers e = [MessageDumper ''OUTGOING''])"

definition ep_inv :: "byte \<times> byte \<times> u16 \<Rightarrow> SmartbusModel \<Rightarrow> bool" where
  "ep_inv a m = (address m = a \<and> (pc m \<noteq> NotStarted \<longrightarrow> endpoint_ok a (ep m)))"

lemma ep_inv_effects [simp]:
  "pc m \<noteq> NotStarted \<Longrightarrow> ep_inv a (perform_all env as m) = ep_inv a m"
  by (induction env as m rule: perform_all.induct) (simp_all add: ep_inv_def address_def emit_def)

lemma emit_fields [simp]:
  "pc (emit es m) = pc m" "ep (emit es m) = ep m" "queue (emit es m) = queue m"
  "subnetID (emit es m) = subnetID m" "deviceID (emit es m) = deviceID m"
  "virtualRelays (emit es m) = virtualRelays m" "trace (emit es m) = trace m @ es"
  by (simp_all add: emit_def)

lemma ep_inv_updates [simp]:
  "ep_inv a (emit es m) = ep_inv a m"
  "ep_inv a (m\<lparr>queue := q\<rparr>) = ep_inv a m"
  "ep_inv a (m\<lparr>deviceMap := dm\<rparr>) = ep_inv a m"
  "ep_inv a (m\<lparr>virtualRelays := relays\<rparr>) = ep_inv a m"
  by (simp_all add: ep_inv_def address_def emit_def)

lemma ep_inv_pc: "ep_inv a m \<Longrightarrow> pc m \<noteq> NotStarted \<Longrightarrow> ep_inv a (m\<lparr>pc := p\<rparr>)"
  by (simp add: ep_inv_def address_def)

lemma ep_inv_finish_handler: "ep_inv a m \<Longrightarrow> pc m \<noteq> NotStarted \<Longrightarrow> ep_inv a (finish_handler env meth msg k m)"
  by (auto simp: finish_handler_def ep_inv_pc split: option.split prod.split)

lemma ensureDevice_pc: "pc (snd (ensureDevice h m)) = pc m"
  by (simp add: ensureDevice_def emit_def Let_def split_def split: option.split)

lemma ep_inv_ensureDevice: "ep_inv a m \<Longrightarrow> ep_inv a (snd (ensureDevice h m))"
  by (auto simp: ensureDevice_def ep_inv_def address_def endpoint_ok_def GetSmartbusDevice_def emit_def Let_def
      split: option.split)

lemma ep_inv_OnAnything:
  assumes "ep_inv a m" and "pc m \<noteq> NotStarted"
  shows "ep_inv a (OnAnything env sm m)"
proof -
  obtain ko m' where e: "ensureDevice (Header sm) m = (ko, m')" by fastforce
  with assms have "ep_inv a m'" "pc m' \<noteq> NotStarted"
    using ep_inv_ensureDevice [of a m "Header sm"] ensureDevice_pc [of "Header sm" m] by simp_all
  then show ?thesis
    by (auto simp: OnAnything_def e intro: ep_inv_pc ep_inv_finish_handler split: option.split)
qed

lemma ep_inv_step:
  assumes "ep_inv a m" and "sys_step env l m = Some m'"
  shows "ep_inv a m'"
proof (cases l)
  case (SysStart c)
  show ?thesis
  proof (cases "\<exists>u. c = Ok u")
    case True
    then obtain q where m': "m' = perform_all env
        (Notify (OnNewDevice VirtualRelays ''sbusvrelay'' ''Smartbus Virtual Relays'') # relays_Publish (virtualRelays m))
        (m\<lparr>ep := make_endpoint m, queue := q, pc := Starting\<rparr>)"
      using assms SysStart by (auto simp: model_Start_def split: if_splits option.splits)
    have "ep_inv a m' = ep_inv a (m\<lparr>ep := make_endpoint m, queue := q, pc := Starting\<rparr>)"
      unfolding m' by (rule ep_inv_effects) simp
    then show ?thesis
      using assms(1)
      by (auto simp: ep_inv_def address_def endpoint_ok_def make_endpoint_def GetBroadcastDevice_def
          GetSmartbusDevice_def AddOutputSniffer_def AddInputSniffer_def Observe_def MakeSmartbusEndpoint_def Let_def)
  next
    case False
    then show ?thesis
      using assms SysStart by (auto simp: model_Start_def split: if_splits go_result.splits)
  qed
next
  case (Deliver sm)
  then show ?thesis
    using assms ep_inv_OnAnything [of a "emit es m" env sm for es]
    by (auto simp: deliver_def Let_def split: if_splits)
next
  case FinishHandler
  then show ?thesis
    using assms by (auto intro: ep_inv_finish_handler split: driver_pc.splits)
qed (use assms in
    \<open>auto simp: model_Start_finish_def model_Stop_def model_Stop_finish_def model_Poll_def AcceptOnValue_def
       pass_message_def queue_step_def Let_def intro!: ep_inv_pc
       split: if_splits option.splits go_result.splits driver_pc.splits\<close>)

interpretation endpoint: ts_invariant "sys_step env" "NewSmartbusModel s d t" "ep_inv (s, d, t)"
  by unfold_locales (simp add: ep_inv_def address_def NewSmartbusModel_def, rule ep_inv_step)


section \<open>Discovery of devices\<close>

lemma dm_Type_call:
  "dm_call subnet device meth msg (relays, dm) = ((relays', dm'), as) \<Longrightarrow> dm_Type dm' = dm_Type dm"
  by (cases dm) (auto split: prod.splits)

definition dm_types :: "SmartbusModel \<Rightarrow> u16 \<rightharpoonup> u16" where
  "dm_types m k = map_option dm_Type (map_of (deviceMap m) k)"

lemma dm_types_finish_handler [simp]: "dm_types (finish_handler env meth msg k m) = dm_types m"
proof (cases "map_of (deviceMap m) k")
  case None
  then show ?thesis by (simp add: finish_handler_def dm_types_def fun_eq_iff)
next
  case (Some dm)
  obtain relays dm' as where call: "dm_call (subnetID m) (deviceID m) meth msg (virtualRelays m, dm) = ((relays, dm'), as)"
    by (metis surj_pair)
  show ?thesis
    using Some call dm_Type_call [OF call]
    by (simp add: finish_handler_def dm_types_def fun_eq_iff update_conv')
qed

lemma dm_types_OnAnything: "dm_types (OnAnything env sm m) = dm_types (snd (ensureDevice (Header sm) m))"
proof -
  obtain ko m' where "ensureDevice (Header sm) m = (ko, m')" by fastforce
  then show ?thesis
    by (auto simp: OnAnything_def dm_types_def [of "_\<lparr>pc := _\<rparr>"] dm_types_def [of m', abs_def] fun_eq_iff
        split: option.split)
qed

text \<open>The device types the driver knows.\<close>

lemma known_types:
  "map_of smartbusDeviceModelTypes ty =
     map_of [(0x139c, ConsZoneBeast), (0x95, ConsDDP), (0x257, ConsHmix12), (0x149, ConsSensor8in1), (0x142, ConsSensorCMS)] ty"
  by (simp add: smartbusDeviceModelTypes_def RegisterDeviceModelType_def zb_Type_def ddp_Type_def hm_Type_def
      sens_Type_def cms_Type_def)

lemma dm_Type_construct:
  "map_of smartbusDeviceModelTypes ty = Some c \<Longrightarrow> dm_Type (construct c dev) = ty"
  by (auto simp: known_types zb_Type_def ddp_Type_def hm_Type_def sens_Type_def cms_Type_def split: if_splits)

lemma dm_types_ensureDevice:
  "dm_types (snd (ensureDevice h m)) =
     (let key = deviceKey (OrigSubnetID h) (OrigDeviceID h) in
      if dm_types m key = None \<and> OrigDeviceType h \<in> {0x139c, 0x95, 0x257, 0x149, 0x142}
      then (dm_types m)(key \<mapsto> OrigDeviceType h) else dm_types m)"
proof -
  have "(OrigDeviceType h \<in> {0x139c, 0x95, 0x257, 0x149, 0x142}) =
      (map_of smartbusDeviceModelTypes (OrigDeviceType h) \<noteq> None)"
    by (simp add: known_types)
  then show ?thesis
    by (auto simp: ensureDevice_def dm_types_def fun_eq_iff Let_def map_add_def dm_Type_construct
        split: option.splits prod.splits)
qed

lemma deliver_to_model:
  assumes "visit_spec (env_visit env)" and "sys_reach env s d t m" and "pc m = Idle"
  shows "Called TheModel ''OnAnything'' sm \<in> set (maybeHandleMessage (env_ctx env) (ep m) sm) \<longleftrightarrow>
     TargetSubnetID (Header sm) \<in> {s, 0xff} \<and> TargetDeviceID (Header sm) \<in> {d, 0xff}"
proof -
  have ep: "endpoint_ok (s, d, t) (ep m)"
    using endpoint.reach_inv [OF assms(2)] assms(3) by (simp add: ep_inv_def)
  have vis: "visit_spec (visit (env_ctx env))" using assms(1) by (simp add: model_ctx_def)
  have meths: "methods (env_ctx env) TheModel = [''OnAnything'']" by (simp add: model_ctx_def model_methods_def)
  have "''On'' @ type_name (Message sm) \<noteq> ''OnAnything''" by (cases "Message sm") simp_all
  then have called: "Called TheModel ''OnAnything'' sm \<in> set (notify (env_ctx env) obs sm) \<longleftrightarrow> TheModel \<in> set obs" for obs
    unfolding notify_Called [OF vis] by (simp add: meths)
  show ?thesis
    using ep by (auto simp: maybeHandleMessage_def isMessageForUs_iff addressed_to_def called endpoint_ok_def)
qed


section \<open>Properties\<close>

text \<open>
  (C23) Start-up. If the connection cannot be made, \<^verbatim>\<open>Start\<close> leaves the driver as it was. If it
  can, the driver ends up idle with an active queue and no devices; it has published the fifteen
  virtual relays, all off, and the last thing it did was to send \<^verbatim>\<open>ReadMACAddress\<close> to the
  broadcast address with its own address as the origin.
\<close>

theorem driver_starts:
  "model_Start env (Err e) (NewSmartbusModel s d t) = Some (NewSmartbusModel s d t) \<and>
   (\<exists>m. exec (sys_step env) [SysStart (Ok ()), QueueStep FlushDefault, SysStartFinish] (NewSmartbusModel s d t) = Some m \<and>
     pc m = Idle \<and> active (queue m) \<and> deviceMap m = [] \<and>
     (\<exists>v. published VirtualRelays m = Some v \<and>
        (\<forall>n. v (relay_name n) = (if 1 \<le> n \<and> n \<le> 15 then Some ''0'' else None))) \<and>
     last (trace m) = Bus (SentToIO
       \<lparr>Header = \<lparr>OrigSubnetID = s, OrigDeviceID = d, OrigDeviceType = t, HeaderOpcode = 0,
          TargetSubnetID = 0xff, TargetDeviceID = 0xff\<rparr>,
        Message = ReadMACAddress\<rparr>))"
proof -
  obtain m where m: "exec (sys_step env) startup (NewSmartbusModel s d t) = Some m" "pc m = Idle"
    "deviceMap m = []" "virtualRelays m = NewVirtualRelayDevice" "ep m = make_endpoint (NewSmartbusModel s d t)"
    "queue m = NewMessageQueue\<lparr>active := True, quit := ChanOpen, runners := [AtLoop]\<rparr>"
    and tr: "trace m = map Observed (OnNewDevice VirtualRelays ''sbusvrelay'' ''Smartbus Virtual Relays'' # relay_controls) @
       map Bus (dev_ReadMACAddress (env_ctx env) (ep m)
         \<lparr>dev_SubnetID = 0xff, dev_DeviceID = 0xff, dev_DeviceType = 0\<rparr>)"
    using startup_run [of env s d t] by blast
  have notify: "observed (map Observed es) = map Notify es" for es by (induction es) auto
  obtain v where v: "publish VirtualRelays Map.empty (relays_Publish NewVirtualRelayDevice) = Some v"
    "relays_rel NewVirtualRelayDevice v" using relays_Publish_fresh by blast
  then have "published VirtualRelays m = Some v"
    by (simp add: published_def tr notify relays_Publish_new)
  moreover have "v (relay_name n) = (if 1 \<le> n \<and> n \<le> 15 then Some ''0'' else None)" for n
    using v(2) nth_replicate [of "n - 1" 15 False]
    by (auto simp: relays_rel_def NewVirtualRelayDevice_def NUM_VIRTUAL_RELAYS_def switch_value_def)
  moreover have "endpoint_ok (s, d, t) (ep m)"
    using endpoint.exec_inv [OF m(1)] m(2) by (simp add: ep_inv_def)
  then have "last (trace m) = Bus (SentToIO
       \<lparr>Header = \<lparr>OrigSubnetID = s, OrigDeviceID = d, OrigDeviceType = t, HeaderOpcode = 0,
          TargetSubnetID = 0xff, TargetDeviceID = 0xff\<rparr>, Message = ReadMACAddress\<rparr>)"
    by (simp add: tr dev_ReadMACAddress_def dev_Send_stamped stamped_def endpoint_ok_def)
  moreover have "model_Start env (Err e) (NewSmartbusModel s d t) = Some (NewSmartbusModel s d t)"
    by (simp add: model_Start_def NewSmartbusModel_def)
  ultimately show ?thesis using m by (auto simp: startup_def)
qed

text \<open>
  (C2) What the client sees is the state of the device models. In every reachable state, each
  device has published exactly the controls of its model with consistent announcements, the
  channels of a Zone Beast with their status; a device that does not exist has published nothing;
  and the virtual relays have published their status. The only assumption is that the driver
  library passes on requests for announced controls only.
\<close>

theorem driver_publishes_state:
  assumes "env_spec env" and "sys_reach env s d t m"
  shows "(case map_of (deviceMap m) k of
       None \<Rightarrow> published (RealDevice k) m = Some Map.empty
     | Some dm \<Rightarrow> \<exists>v. published (RealDevice k) m = Some v \<and> dm_rel (RealDevice k) dm v) \<and>
     (pc m \<noteq> NotStarted \<longrightarrow>
       (\<exists>v. published VirtualRelays m = Some v \<and> relays_rel (virtualRelays m) v))"
proof -
  have inv: "sys_inv m" using driver.reach_inv [OF assms(2)] assms(1) by blast
  then have "view_ok (RealDevice k) (map_of (deviceMap m) k) (published (RealDevice k) m)"
    by (simp add: sys_inv_def)
  then show ?thesis using inv by (simp add: view_ok_def sys_inv_def)
qed

theorem driver_publishes_state_witness:
  "\<exists>m v. exec (sys_step sample_env) startup (NewSmartbusModel 1 0x99 0x1234) = Some m \<and>
     published VirtualRelays m = Some v \<and> relays_rel NewVirtualRelayDevice v"
proof -
  obtain m where m: "exec (sys_step sample_env) startup (NewSmartbusModel 1 0x99 0x1234) = Some m"
    and "pc m = Idle" "virtualRelays m = NewVirtualRelayDevice"
    using startup_run [of sample_env 1 "0x99" "0x1234"] by blast
  with driver_publishes_state [OF sample_env_spec exec_reach [OF m]] show ?thesis by auto
qed

text \<open>
  (C21) No message from the bus, no request of the client and no time-out makes a device model or
  the virtual relays panic: no index of a channel, a button or a relay is out of range, and no
  slice of a control's name out of bounds.
\<close>

theorem driver_never_panics:
  assumes "env_spec env" and "sys_reach env s d t m"
  shows "pc m \<noteq> Crashed p"
  using driver.reach_inv [OF assms(2)] assms(1) by (auto simp: sys_inv_def)

theorem driver_never_panics_witness:
  "\<exists>m. exec (sys_step sample_env) startup (NewSmartbusModel 1 0x99 0x1234) = Some m \<and> pc m \<noteq> Crashed SliceBounds"
proof -
  obtain m where m: "exec (sys_step sample_env) startup (NewSmartbusModel 1 0x99 0x1234) = Some m"
    using startup_run [of sample_env 1 "0x99" "0x1234"] by blast
  with driver_never_panics [OF sample_env_spec exec_reach [OF m]] show ?thesis by blast
qed

text \<open>
  (C8) The driver keeps to the queue's contract, and so its requests are bounded: at most sixteen
  wait, one goroutine at most runs them, in the order in which they were accepted, and each that
  was taken is sent at least once and at most 21 times.
\<close>

theorem driver_requests_bounded:
  assumes "sys_reach env s d t m"
  shows "mq_reach (queue_config (env_timer env)) (queue m) \<and>
     length (items (queue m)) \<le> 16 \<and> length (runners (queue m)) \<le> 1 \<and>
     accepted (events (queue m)) = taken_out (events (queue m)) @ items (queue m) \<and>
     (\<exists>as. attempts (events (queue m)) = Some as \<and> (\<forall>(req, c) \<in> set as. 1 \<le> c \<and> c \<le> 21))"
proof -
  let ?cfg = "queue_config (env_timer env)"
  have q: "mq_reach ?cfg (queue m)" by (rule driver_queue.reach_part [OF assms])
  have cfg: "numRetries ?cfg = 20" "queueSize ?cfg = 16"
    by (simp_all add: queue_config_def REQUEST_NUM_RETRIES_def REQUEST_QUEUE_SIZE_def)
  have inv: "mq_inv ?cfg (queue m)" by (rule mq.reach_inv [OF q])
  obtain as where "attempts (events (queue m)) = Some as" "\<forall>(i, c) \<in> set as. 1 \<le> c \<and> int c \<le> 21"
    using attempts_bounded [OF q] cfg by auto
  moreover have "accepted (events (queue m)) = taken_out (events (queue m)) @ items (queue m)"
    using fifo.reach_inv [OF q] by (simp add: mq_fifo_def)
  ultimately show ?thesis
    using q inv cfg by (auto simp: mq_inv_def dest: runners_ok_short)
qed

theorem driver_requests_bounded_witness:
  "\<exists>m. exec (sys_step sample_env) startup (NewSmartbusModel 1 0x99 0x1234) = Some m \<and>
     length (runners (queue m)) = 1 \<and> length (items (queue m)) \<le> 16"
proof -
  obtain m where m: "exec (sys_step sample_env) startup (NewSmartbusModel 1 0x99 0x1234) = Some m"
    and "queue m = NewMessageQueue\<lparr>active := True, quit := ChanOpen, runners := [AtLoop]\<rparr>"
    using startup_run [of sample_env 1 "0x99" "0x1234"] by blast
  with driver_requests_bounded [OF exec_reach [OF m]] show ?thesis by auto
qed

text \<open>
  (C13) Discovery. A message that arrives makes a device model exactly if it is addressed to the
  driver or broadcast, comes from an address without a model and from a device of one of the five
  known types; the model is then one for that type. No message removes a model or changes its type.
\<close>

theorem driver_discovers:
  assumes "visit_spec (env_visit env)" and "sys_reach env s d t m" and "pc m = Idle"
  shows "\<exists>m'. sys_step env (Deliver sm) m = Some m' \<and>
     (\<forall>k. map_option dm_Type (map_of (deviceMap m') k) =
        (if k = deviceKey (OrigSubnetID (Header sm)) (OrigDeviceID (Header sm)) \<and> map_of (deviceMap m) k = None \<and>
            TargetSubnetID (Header sm) \<in> {s, 0xff} \<and> TargetDeviceID (Header sm) \<in> {d, 0xff} \<and>
            OrigDeviceType (Header sm) \<in> {0x139c, 0x95, 0x257, 0x149, 0x142}
         then Some (OrigDeviceType (Header sm)) else map_option dm_Type (map_of (deviceMap m) k)))"
proof -
  let ?c = "maybeHandleMessage (env_ctx env) (ep m) sm"
  let ?m = "emit (map Bus ?c) m"
  let ?m' = "if Called TheModel ''OnAnything'' sm \<in> set ?c then OnAnything env sm ?m else ?m"
  have "sys_step env (Deliver sm) m = Some ?m'"
    using assms(3) by (simp add: deliver_def Let_def)
  moreover have "dm_types ?m = dm_types m" by (simp add: dm_types_def fun_eq_iff)
  then have "dm_types ?m' k =
        (if k = deviceKey (OrigSubnetID (Header sm)) (OrigDeviceID (Header sm)) \<and> dm_types m k = None \<and>
            TargetSubnetID (Header sm) \<in> {s, 0xff} \<and> TargetDeviceID (Header sm) \<in> {d, 0xff} \<and>
            OrigDeviceType (Header sm) \<in> {0x139c, 0x95, 0x257, 0x149, 0x142}
         then Some (OrigDeviceType (Header sm)) else dm_types m k)" for k
    using deliver_to_model [OF assms, of sm]
    by (auto simp: dm_types_OnAnything dm_types_ensureDevice Let_def)
  ultimately show ?thesis by (auto simp: dm_types_def)
qed

text \<open>A Zone Beast's broadcast.\<close>

definition zonebeast_hello :: SmartbusMessage where
  "zonebeast_hello =
     \<lparr>Header = \<lparr>OrigSubnetID = 1, OrigDeviceID = 28, OrigDeviceType = 0x139c, HeaderOpcode = 0xefff,
        TargetSubnetID = 0xff, TargetDeviceID = 0xff\<rparr>,
      Message = ZoneBeastBroadcast [0] [False, True]\<rparr>"

theorem driver_discovers_witness:
  "\<exists>m m'. exec (sys_step sample_env) startup (NewSmartbusModel 1 0x99 0x1234) = Some m \<and>
     sys_step sample_env (Deliver zonebeast_hello) m = Some m' \<and>
     map_option dm_Type (map_of (deviceMap m') (deviceKey 1 28)) = Some 0x139c"
proof -
  obtain m where m: "exec (sys_step sample_env) startup (NewSmartbusModel 1 0x99 0x1234) = Some m"
    and idle: "pc m = Idle" "deviceMap m = []"
    using startup_run [of sample_env 1 "0x99" "0x1234"] by blast
  have "visit_spec (env_visit sample_env)" by (simp add: sample_env_def sample_visit_spec)
  from driver_discovers [OF this exec_reach [OF m] idle(1), of zonebeast_hello] obtain m' where
    m': "sys_step sample_env (Deliver zonebeast_hello) m = Some m'" and
    types: "\<And>k. map_option dm_Type (map_of (deviceMap m') k) =
        (if k = deviceKey 1 28 then Some 0x139c else map_option dm_Type (map_of (deviceMap m) k))"
    using idle(2) by (auto simp: zonebeast_hello_def)
  from types [of "deviceKey 1 28"] m m' show ?thesis by auto
qed

definition with_zonebeast :: "sys_label list" where
  "with_zonebeast = startup @ [Deliver zonebeast_hello]"

lemma with_zonebeast_run:
  "\<exists>m dm. exec (sys_step sample_env) with_zonebeast (NewSmartbusModel 1 0x99 0x1234) = Some m \<and> pc m = Idle \<and>
     map_of (deviceMap m) (deviceKey 1 28) = Some (ZoneBeastM dm) \<and> channelStatus dm = [False, True] \<and>
     zb_base dm = \<lparr>nameBase = ''zonebeast'', titleBase = ''Zone Beast'',
       smartDev = \<lparr>dev_SubnetID = 1, dev_DeviceID = 28, dev_DeviceType = 0\<rparr>\<rparr> \<and>
     queue m = NewMessageQueue\<lparr>active := True, quit := ChanOpen, runners := [AtLoop]\<rparr>"
proof -
  obtain m where m: "exec (sys_step sample_env) startup (NewSmartbusModel 1 0x99 0x1234) = Some m" "pc m = Idle"
    "deviceMap m = []" "ep m = make_endpoint (NewSmartbusModel 1 0x99 0x1234)"
    "queue m = NewMessageQueue\<lparr>active := True, quit := ChanOpen, runners := [AtLoop]\<rparr>"
    using startup_run [of sample_env 1 "0x99" "0x1234"] by blast
  let ?dev = "\<lparr>dev_SubnetID = 1, dev_DeviceID = 28, dev_DeviceType = 0\<rparr>"
  have vis: "visit_spec (env_visit sample_env)" by (simp add: sample_env_def sample_visit_spec)
  have called: "Called TheModel ''OnAnything'' zonebeast_hello \<in> set (maybeHandleMessage (env_ctx sample_env) (ep m) zonebeast_hello)"
    using deliver_to_model [OF vis exec_reach [OF m(1)] m(2), of zonebeast_hello] by (simp add: zonebeast_hello_def)
  have dev: "fst (GetSmartbusDevice (make_endpoint x) 1 28) = ?dev" for x
    by (simp add: make_endpoint_def GetBroadcastDevice_def GetSmartbusDevice_def AddOutputSniffer_def
      AddInputSniffer_def Observe_def MakeSmartbusEndpoint_def Let_def BROADCAST_SUBNET_def BROADCAST_DEVICE_def
      deviceKey_def)
  have meth: "env_visit sample_env zb_methods ''On'' ''ZoneBeastBroadcast'' = Some ''OnZoneBeastBroadcast''"
    by (simp add: sample_env_def sample_visit_def zb_methods_def)
  show ?thesis
    unfolding with_zonebeast_def exec_append m(1) using called m(2-5)
    by (simp add: deliver_def Let_def OnAnything_def ensureDevice_def zonebeast_hello_def known_types split_def dev meth
        zb_call_def zb_OnZoneBeastBroadcast_def NewZoneBeastDeviceModel_def updateChannelStatus_def addChannel_next
        passes_message_def finish_handler_def upt_rec)
qed

text \<open>
  (C22) Identity. A device model, once made, is there for good, for the same device and under the
  same name; and names identify devices: no two device models have the same name.
\<close>

theorem device_models_persist:
  assumes "env_spec env" and "sys_reach env s d t m" and "map_of (deviceMap m) k = Some dm"
    and "exec (sys_step env) ls m = Some m'"
  shows "\<exists>dm'. map_of (deviceMap m') k = Some dm' \<and> dm_base dm' = dm_base dm \<and>
     (\<forall>k' dm2. map_of (deviceMap m') k' = Some dm2 \<longrightarrow> dm_Name (dm_base dm2) = dm_Name (dm_base dm) \<longrightarrow> k' = k)"
proof -
  have "keeps_devices m m'"
    by (rule exec_preserves [where P = "keeps_devices m", OF _ _ assms(4)])
       (auto intro: keeps_trans keeps_step keeps_same)
  with assms(3) obtain dm' where dm': "map_of (deviceMap m') k = Some dm'" "dm_base dm' = dm_base dm"
    unfolding keeps_devices_def by blast
  have reach: "sys_reach env s d t m'" using reach_trans [OF exec_reach [OF assms(4)] assms(2)] .
  have known: "bases_known m'" by (rule names.reach_inv [OF reach])
  have inv: "sys_inv m'" using driver.reach_inv [OF reach] assms(1) by blast
  have ref: "dm_ref (dm_base x) = RealDevice j" if "map_of (deviceMap m') j = Some x" for j x
    using sys_inv_view [OF inv that] dm_rel_ref by blast
  have "k' = k" if dm2: "map_of (deviceMap m') k' = Some dm2" "dm_Name (dm_base dm2) = dm_Name (dm_base dm)" for k' dm2
  proof -
    have "nameBase (dm_base dm2) \<in> known_bases" "nameBase (dm_base dm') \<in> known_bases"
      using known dm2(1) dm'(1) unfolding bases_known_def by blast+
    then have "dm_ref (dm_base dm2) = dm_ref (dm_base dm')"
      using Name_inj dm2(2) dm'(2) by metis
    then show ?thesis using ref [OF dm2(1)] ref [OF dm'(1)] by simp
  qed
  with dm' show ?thesis by blast
qed

theorem device_models_persist_witness:
  "\<exists>m m' dm'. exec (sys_step sample_env) with_zonebeast (NewSmartbusModel 1 0x99 0x1234) = Some m \<and>
     exec (sys_step sample_env) [Deliver zonebeast_hello] m = Some m' \<and>
     map_of (deviceMap m') (deviceKey 1 28) = Some dm' \<and> dm_Name (dm_base dm') = ''zonebeast1_28''"
proof -
  obtain m dm where m: "exec (sys_step sample_env) with_zonebeast (NewSmartbusModel 1 0x99 0x1234) = Some m"
    "map_of (deviceMap m) (deviceKey 1 28) = Some (ZoneBeastM dm)" "pc m = Idle" and
    base: "zb_base dm = \<lparr>nameBase = ''zonebeast'', titleBase = ''Zone Beast'',
       smartDev = \<lparr>dev_SubnetID = 1, dev_DeviceID = 28, dev_DeviceType = 0\<rparr>\<rparr>"
    using with_zonebeast_run by blast
  obtain m' where m': "exec (sys_step sample_env) [Deliver zonebeast_hello] m = Some m'"
    using m(3) by (simp add: deliver_def Let_def)
  have "dm_Name (dm_base (ZoneBeastM dm)) = ''zonebeast1_28''"
    by (simp add: base dm_Name_def nat_digits.simps digit_char_def char_of_def bit_0)
  with device_models_persist [OF sample_env_spec exec_reach [OF m(1)] m(2) m'] m(1) m' show ?thesis by metis
qed

text \<open>The command for a channel, as the driver sends it, and the device's confirmation.\<close>

definition switch_level :: "string \<Rightarrow> byte" where
  "switch_level val = (if val = ''1'' then 100 else 0)"

definition switch_command :: "byte \<Rightarrow> byte \<Rightarrow> u16 \<Rightarrow> SmartbusDevice \<Rightarrow> nat \<Rightarrow> string \<Rightarrow> SmartbusMessage" where
  "switch_command s d t dev n val =
     \<lparr>Header = \<lparr>OrigSubnetID = s, OrigDeviceID = d, OrigDeviceType = t, HeaderOpcode = 0,
        TargetSubnetID = dev_SubnetID dev, TargetDeviceID = dev_DeviceID dev\<rparr>,
      Message = SingleChannelControlCommand (word_of_nat n) (switch_level val) 0\<rparr>"

definition switch_confirmation :: "byte \<Rightarrow> byte \<Rightarrow> u16 \<Rightarrow> SmartbusDevice \<Rightarrow> nat \<Rightarrow> string \<Rightarrow> bool list \<Rightarrow> SmartbusMessage" where
  "switch_confirmation s d ty dev n val st =
     \<lparr>Header = \<lparr>OrigSubnetID = dev_SubnetID dev, OrigDeviceID = dev_DeviceID dev, OrigDeviceType = ty,
        HeaderOpcode = 0x32, TargetSubnetID = s, TargetDeviceID = d\<rparr>,
      Message = SingleChannelControlResponse (word_of_nat n) True (switch_level val) st\<rparr>"

definition switch_req :: "ZoneBeastDeviceModel \<Rightarrow> nat \<Rightarrow> string \<Rightarrow> Request" where
  "switch_req dm n val = newRequest ''SingleChannelControl'' (SingleChannelControlResponse 0 False 0 [])
     (TSingleChannelControl (zb_ref dm) (word_of_nat n) (switch_level val) 0)"

lemma zb_Accept_channel:
  assumes "n \<le> 255"
  shows "zb_AcceptOnValue (channel_name n) val dm = (False, [EnqueueRequest (switch_req dm n val)])"
proof -
  have "int n \<le> maxInt" using assms by (simp add: maxInt_def)
  then have "Atoi (TrimPrefix (channel_name n) ''Channel '') = Ok (int n)"
    unfolding channel_name_def TrimPrefix_append by (rule Atoi_nat_digits)
  then show ?thesis
    by (simp add: zb_AcceptOnValue_def switch_req_def switch_level_def message_consts)
qed

lemma switch_send:
  assumes "env_timer env" and "endpoint_ok (s, d, t) (ep m)"
    and "pc m = Idle" and "map_of (deviceMap m) k = Some (ZoneBeastM dm)" and "zb_ref dm = RealDevice k"
    and "n \<le> 255" and "env_may_set env m k (channel_name n)"
    and "runners (queue m) = [AtLoop]" and "items (queue m) = []" and "messages (queue m) = []" and "timers (queue m) = []"
  shows "\<exists>m1. exec (sys_step env) [SetControl k (channel_name n) val, QueueStep (RunTake 0)] m = Some m1 \<and>
     trace m1 = trace m @ map Bus (notify (env_ctx env) [MessageDumper ''OUTGOING'']
         (switch_command s d t (smartDev (zb_base dm)) n val) @
       [SentToIO (switch_command s d t (smartDev (zb_base dm)) n val)]) \<and>
     pc m1 = Idle \<and> map_of (deviceMap m1) k = Some (ZoneBeastM dm) \<and>
     (\<exists>tm. runners (queue m1) = [AtItem (switch_req dm n val) 20 tm] \<and> timers (queue m1) = [tm]) \<and>
     messages (queue m1) = []"
proof -
  have sent: "dev_SingleChannelControl (env_ctx env) (ep m) (smartDev (zb_base dm)) (word_of_nat n) (switch_level val) 0 =
      notify (env_ctx env) [MessageDumper ''OUTGOING''] (switch_command s d t (smartDev (zb_base dm)) n val) @
      [SentToIO (switch_command s d t (smartDev (zb_base dm)) n val)]"
    using assms(2) by (simp add: dev_SingleChannelControl_def dev_Send_stamped stamped_def switch_command_def endpoint_ok_def)
  have cfg: "hasTimerFunc (queue_config True)" "numRetries (queue_config True) = 20" "queueSize (queue_config True) = 16"
    by (simp_all add: queue_config_def REQUEST_NUM_RETRIES_def REQUEST_QUEUE_SIZE_def)
  have thunk: "req_thunk (switch_req dm n val) = TSingleChannelControl (RealDevice k) (word_of_nat n) (switch_level val) 0"
    using assms(5) by (simp add: switch_req_def newRequest_def)
  show ?thesis
    using assms
    by (simp add: AcceptOnValue_def zb_Accept_channel Enqueue_def cfg queue_step_def mq_ops mq_updates
        Let_def thunk run_thunk_def ref_dev_def update_conv' sent)
qed

lemma unat_channel:
  assumes "1 \<le> n" and "n \<le> 255"
  shows "unat (word_of_nat n - 1 :: byte) = n - 1"
proof -
  have n: "unat (word_of_nat n :: byte) = n"
    using assms by (simp add: unsigned_of_nat take_bit_nat_eq_self_iff)
  then have "(word_of_nat n :: byte) \<noteq> 0" using assms(1) by (metis not_one_le_zero unsigned_0)
  with n show ?thesis by (simp add: unat_minus_one)
qed

lemma switch_confirm:
  assumes "visit_spec (env_visit env)" and "sys_reach env s d t m"
    and "pc m = Idle" and "map_of (deviceMap m) k = Some (ZoneBeastM dm)" and "zb_ref dm = RealDevice k"
    and "1 \<le> n" and "n \<le> 255" and "n \<le> length (channelStatus dm)"
    and "runners (queue m) = [AtItem (switch_req dm n val) 20 tm]" and "timers (queue m) = [tm]" and "messages (queue m) = []"
  shows "\<exists>m'. exec (sys_step env) [Deliver (switch_confirmation s d ty (smartDev (zb_base dm)) n val st),
       PassMessage, QueueStep (RunMessage 0), FinishHandler] m = Some m' \<and>
     pc m' = Idle \<and> runners (queue m') = [AtLoop] \<and> timers (queue m') = [] \<and>
     map_of (deviceMap m') k =
       Some (ZoneBeastM (dm\<lparr>channelStatus := (channelStatus dm)[n - 1 := (val = ''1'')], skipBroadcast := True\<rparr>))"
proof -
  let ?sm = "switch_confirmation s d ty (smartDev (zb_base dm)) n val st"
  let ?msg = "SingleChannelControlResponse (word_of_nat n) True (switch_level val) st"
  have key: "deviceKey (dev_SubnetID (smartDev (zb_base dm))) (dev_DeviceID (smartDev (zb_base dm))) = k"
    using assms(5) by (simp add: dm_ref_def)
  have called: "Called TheModel ''OnAnything'' ?sm \<in> set (maybeHandleMessage (env_ctx env) (ep m) ?sm)"
    using deliver_to_model [OF assms(1-3), of ?sm] by (simp add: switch_confirmation_def)
  have meth: "env_visit env zb_methods ''On'' ''SingleChannelControlResponse'' = Some ''OnSingleChannelControlResponse''"
    using assms(1) by (simp add: visit_spec_def zb_methods_def)
  have n: "uint (word_of_nat n - 1 :: byte) = int (n - 1)"
    using unat_channel [OF assms(6,7)] by (metis of_nat_unat)
  have resp: "Request_IsResponse (switch_req dm n val) ?msg"
    by (simp add: Request_IsResponse_def switch_req_def newRequest_def)
  obtain dm' as where u: "updateSingleChannel (int (n - 1)) (switch_level val \<noteq> 0) dm = (dm', as)" by fastforce
  have call: "zb_call ''OnSingleChannelControlResponse'' ?msg dm = (dm'\<lparr>skipBroadcast := True\<rparr>, PassToQueue ?msg # as)"
    using u by (simp only: zb_call_def zb_OnSingleChannelControlResponse_def n message.sel) simp
  have dm': "dm' = dm\<lparr>channelStatus := (channelStatus dm)[n - 1 := (val = ''1'')]\<rparr>"
    using fst_updateSingleChannel [of "n - 1" "switch_level val \<noteq> 0" dm] u by (simp add: switch_level_def split: if_splits)
  let ?m1 = "emit (map Bus (maybeHandleMessage (env_ctx env) (ep m) ?sm)) m"
  have "OnAnything env ?sm ?m1 = ?m1\<lparr>pc := Passing ''OnSingleChannelControlResponse'' ?msg k\<rparr>"
    using assms(4) key meth call
    by (simp add: OnAnything_def ensureDevice_def Let_def passes_message_def switch_confirmation_def)
  then have deliver: "sys_step env (Deliver ?sm) m = Some (?m1\<lparr>pc := Passing ''OnSingleChannelControlResponse'' ?msg k\<rparr>)"
    using called assms(3) by (simp add: deliver_def Let_def)
  have as: "queue (perform_all env as x) = queue x" "pc (perform_all env as x) = pc x" for x
    using u by (auto simp: updateSingleChannel_nat split: if_splits)
  show ?thesis
    using assms(4,9-11) resp call dm' deliver
    by (simp add: pass_message_def HandleReceivedMessage_def MESSAGE_QUEUE_INBOUND_QUEUE_SIZE_def queue_step_def
        run_message_def mq_updates queue_config_def Let_def finish_handler_def as update_conv')
qed

text \<open>
  (C3) Switching a channel, from the client's request to the published value. When the queue is
  idle, a request for an announced channel is put into the queue; when the queue takes it, exactly
  the command is sent to the device; when the device confirms it, the queue is idle again with its
  timer stopped, the model has the channel in the requested state, and that is its published value.
\<close>

theorem driver_switches_channel:
  assumes "env_spec env" and "visit_spec (env_visit env)" and "env_timer env" and "sys_reach env s d t m"
    and "pc m = Idle" and "map_of (deviceMap m) k = Some (ZoneBeastM dm)"
    and "1 \<le> n" and "n \<le> 255" and "n \<le> length (channelStatus dm)" and "env_may_set env m k (channel_name n)"
    and "runners (queue m) = [AtLoop]" and "items (queue m) = []" and "messages (queue m) = []"
  shows "\<exists>m1 m' v.
     exec (sys_step env) [SetControl k (channel_name n) val, QueueStep (RunTake 0)] m = Some m1 \<and>
     trace m1 = trace m @ map Bus (notify (env_ctx env) [MessageDumper ''OUTGOING'']
         (switch_command s d t (smartDev (zb_base dm)) n val) @
       [SentToIO (switch_command s d t (smartDev (zb_base dm)) n val)]) \<and>
     exec (sys_step env) [Deliver (switch_confirmation s d ty (smartDev (zb_base dm)) n val st),
       PassMessage, QueueStep (RunMessage 0), FinishHandler] m1 = Some m' \<and>
     pc m' = Idle \<and> runners (queue m') = [AtLoop] \<and> timers (queue m') = [] \<and>
     published (RealDevice k) m' = Some v \<and> v (channel_name n) = Some (if val = ''1'' then ''1'' else ''0'')"
proof -
  have inv: "sys_inv m" using driver.reach_inv [OF assms(4)] assms(1) by blast
  have ref: "zb_ref dm = RealDevice k"
    using sys_inv_view [OF inv assms(6)] dm_rel_ref [of _ "ZoneBeastM dm"] by auto
  have ep: "endpoint_ok (s, d, t) (ep m)"
    using endpoint.reach_inv [OF assms(4)] assms(5) by (simp add: ep_inv_def)
  have "timers (queue m) = []"
    using mq.reach_inv [OF driver_queue.reach_part [OF assms(4)]] assms(11) by (simp add: mq_inv_def)
  from switch_send [OF assms(3) ep assms(5,6) ref assms(8,10-13) this, of val] obtain m1 tm where
    send: "exec (sys_step env) [SetControl k (channel_name n) val, QueueStep (RunTake 0)] m = Some m1"
      "trace m1 = trace m @ map Bus (notify (env_ctx env) [MessageDumper ''OUTGOING'']
         (switch_command s d t (smartDev (zb_base dm)) n val) @
       [SentToIO (switch_command s d t (smartDev (zb_base dm)) n val)])" and
    m1: "pc m1 = Idle" "map_of (deviceMap m1) k = Some (ZoneBeastM dm)"
      "runners (queue m1) = [AtItem (switch_req dm n val) 20 tm]" "timers (queue m1) = [tm]" "messages (queue m1) = []"
    by blast
  have reach1: "sys_reach env s d t m1" by (rule reach_trans [OF exec_reach [OF send(1)] assms(4)])
  from switch_confirm [OF assms(2) reach1 m1(1,2) ref assms(7-9) m1(3-5), of ty st] obtain m' where
    m': "exec (sys_step env) [Deliver (switch_confirmation s d ty (smartDev (zb_base dm)) n val st),
       PassMessage, QueueStep (RunMessage 0), FinishHandler] m1 = Some m'"
      "pc m' = Idle" "runners (queue m') = [AtLoop]" "timers (queue m') = []" and
    dm': "map_of (deviceMap m') k =
       Some (ZoneBeastM (dm\<lparr>channelStatus := (channelStatus dm)[n - 1 := (val = ''1'')], skipBroadcast := True\<rparr>))"
    by blast
  have "sys_inv m'"
    using driver.reach_inv [OF reach_trans [OF exec_reach [OF m'(1)] reach1]] assms(1) by blast
  from sys_inv_view [OF this dm'] obtain v where "published (RealDevice k) m' = Some v"
    "v (channel_name n) = Some (switch_value (val = ''1''))"
    using assms(7,9) by (auto simp: zb_rel_def)
  then show ?thesis using send m' by (auto simp: switch_value_def)
qed

theorem driver_switches_channel_witness:
  "\<exists>m m1 m' v. exec (sys_step sample_env) with_zonebeast (NewSmartbusModel 1 0x99 0x1234) = Some m \<and>
     exec (sys_step sample_env) [SetControl (deviceKey 1 28) (channel_name 1) ''1'', QueueStep (RunTake 0)] m = Some m1 \<and>
     exec (sys_step sample_env) [Deliver (switch_confirmation 1 0x99 0x139c
         \<lparr>dev_SubnetID = 1, dev_DeviceID = 28, dev_DeviceType = 0\<rparr> 1 ''1'' [True, True]),
       PassMessage, QueueStep (RunMessage 0), FinishHandler] m1 = Some m' \<and>
     published (RealDevice (deviceKey 1 28)) m' = Some v \<and> v (channel_name 1) = Some ''1''"
proof -
  obtain m dm where m: "exec (sys_step sample_env) with_zonebeast (NewSmartbusModel 1 0x99 0x1234) = Some m"
    "pc m = Idle" "map_of (deviceMap m) (deviceKey 1 28) = Some (ZoneBeastM dm)" "channelStatus dm = [False, True]" and
    dm: "zb_base dm = \<lparr>nameBase = ''zonebeast'', titleBase = ''Zone Beast'',
       smartDev = \<lparr>dev_SubnetID = 1, dev_DeviceID = 28, dev_DeviceType = 0\<rparr>\<rparr>"
    and "queue m = NewMessageQueue\<lparr>active := True, quit := ChanOpen, runners := [AtLoop]\<rparr>"
    using with_zonebeast_run by blast
  then have q: "runners (queue m) = [AtLoop]" "items (queue m) = []" "messages (queue m) = []"
    by (simp_all add: NewMessageQueue_def)
  note reach = exec_reach [OF m(1)]
  have env: "visit_spec (env_visit sample_env)" "env_timer sample_env"
    by (simp_all add: sample_env_def sample_visit_spec)
  have inv: "sys_inv m" using driver.reach_inv [OF reach] sample_env_spec by blast
  from sys_inv_view [OF this m(3)] obtain v where "published (RealDevice (deviceKey 1 28)) m = Some v"
    "v (channel_name 1) \<noteq> None" using m(4) by (auto simp: zb_rel_def)
  then have may: "env_may_set sample_env m (deviceKey 1 28) (channel_name 1)"
    by (simp add: sample_env_def published_def)
  have n: "1 \<le> (1 :: nat)" "(1 :: nat) \<le> 255" "1 \<le> length (channelStatus dm)" by (simp_all add: m(4))
  from driver_switches_channel [OF sample_env_spec env reach m(2,3) n may q, where val = "''1''" and ty = "0x139c"
      and st = "[True, True]"] m(1) dm
  show ?thesis by auto
qed

end
