(* ===== verification/StreamIO.thy ===== *)
theory StreamIO
  imports FrameCorrect Transitions
begin

text \<open>
  \<^verbatim>\<open>SmartbusStreamIO\<close> of \<^verbatim>\<open>smartbus/frame.go\<close>: the goroutine of \<^verbatim>\<open>ReadSmartbus\<close> and the
  goroutine of \<^verbatim>\<open>WriteSmartbus\<close> on one stream, with the mutex they share. A step is what a
  goroutine does between two points at which it can block: a read of the stream, the locking of
  the mutex, a receive. The frame handler is one step: it hands the raw frame on first and then
  the message, and touches nothing the writer uses. \<open>written\<close> are the pieces given to
  the stream's \<^verbatim>\<open>Write\<close>, whose result the code does not look at.

  \<^verbatim>\<open>Frame\<close> has the reader as a function of everything the stream returns. Here it is cut into
  steps, so that the writer can come in between; \<open>consumed\<close> is what it has read so far, and
  \<open>stream_reads_faithful\<close> below relates the two.
\<close>

section \<open>State\<close>

text \<open>Where the reader is.\<close>

datatype rd_pc =
    RSync0                    \<comment> \<open>reading the first synchronisation byte\<close>
  | RLock                     \<comment> \<open>locking the mutex after it\<close>
  | RSync1                    \<comment> \<open>reading the second\<close>
  | RLen                      \<comment> \<open>reading the length byte\<close>
  | RBody byte "byte list"    \<comment> \<open>reading the rest of a frame: its length, what has been read\<close>
  | RHandle "byte list"       \<comment> \<open>in the frame handler\<close>
  | REnded raw_end            \<comment> \<open>the goroutine has ended, its channel is closed\<close>

datatype wr_pc = WReceive | WLock out_item | WWrite out_item | WEnded

datatype holder = Free | ByReader | ByWriter

record SmartbusStreamIO =
  rd :: rd_pc
  wr :: wr_pc
  mutex :: holder
  writeCh_closed :: bool
  stream_closed :: bool
  stopping :: bool
  consumed :: "rd_event list"
  sent :: "out_item list"
  written :: "byte list list"
  delivered :: "SmartbusMessage list"
  raw_delivered :: "byte list list"
  crash :: "go_panic option"

text \<open>The streams' properties: which errors are time-outs, and whether there is a raw channel.\<close>

record stream_cfg =
  stream_tmo :: "go_error \<Rightarrow> bool"
  has_rawReadCh :: bool

text \<open>A new \<^verbatim>\<open>SmartbusStreamIO\<close>, with the goroutines that \<^verbatim>\<open>Start\<close> starts.\<close>

definition NewStreamIO :: SmartbusStreamIO where
  "NewStreamIO = \<lparr>rd = RSync0, wr = WReceive, mutex = Free, writeCh_closed = False,
     stream_closed = False, stopping = False,
     consumed = [], sent = [], written = [], delivered = [], raw_delivered = [], crash = None\<rparr>"


section \<open>The reader\<close>

definition frame_complete :: "byte \<Rightarrow> byte list \<Rightarrow> bool" where
  "frame_complete l body = (length body = unat l - 1)"

text \<open>The end of \<^verbatim>\<open>ReadSmartbusFrame\<close>: the CRC check on a frame that was read in full.\<close>

definition check_frame :: "byte list \<Rightarrow> SmartbusStreamIO \<Rightarrow> SmartbusStreamIO" where
  "check_frame frame io =
     (let n = length frame in
      case crc16 (take (n - 2) frame) of
        Ok crc \<Rightarrow>
          if crc \<noteq> Uint16 (frame ! (n - 2)) (frame ! (n - 1)) then io\<lparr>mutex := Free, rd := RSync0\<rparr>
          else io\<lparr>mutex := Free, rd := RHandle frame\<rparr>
      | Err e \<Rightarrow> io
      | Panic p \<Rightarrow> io\<lparr>crash := Some p\<rparr>)"

definition read_event :: "stream_cfg \<Rightarrow> rd_event \<Rightarrow> SmartbusStreamIO \<Rightarrow> SmartbusStreamIO option" where
  "read_event cfg ev io =
     (let io' = io\<lparr>consumed := consumed io @ [ev]\<rparr> in
      case (rd io, ev) of
        (RSync0, RByte b) \<Rightarrow> Some (if b = 0xaa then io'\<lparr>rd := RLock\<rparr> else io')
      | (RSync0, RFault e) \<Rightarrow>
          Some (if stream_tmo cfg e then io' else io'\<lparr>rd := REnded (EndSyncError e)\<rparr>)
      | (RSync1, RByte b) \<Rightarrow>
          Some (if b = 0xaa then io'\<lparr>rd := RLen\<rparr> else io'\<lparr>mutex := Free, rd := RSync0\<rparr>)
      | (RSync1, RFault e) \<Rightarrow>
          Some (if stream_tmo cfg e then io'\<lparr>rd := RSync0\<rparr>
                else io'\<lparr>mutex := Free, rd := REnded (EndSyncError e)\<rparr>)
      | (RLen, RByte l) \<Rightarrow>
          Some (if l < MIN_FRAME_SIZE then io'\<lparr>mutex := Free, rd := RSync0\<rparr> else io'\<lparr>rd := RBody l []\<rparr>)
      | (RBody l body, RByte b) \<Rightarrow>
          Some (if frame_complete l (body @ [b]) then check_frame (l # body @ [b]) io'
                else io'\<lparr>rd := RBody l (body @ [b])\<rparr>)
      | (RLen, RFault e) \<Rightarrow>
          Some (io'\<lparr>mutex := Free, rd := (if stream_tmo cfg e then RSync0 else REnded EndFrameError)\<rparr>)
      | (RBody l body, RFault e) \<Rightarrow>
          Some (io'\<lparr>mutex := Free,
             rd := (if stream_tmo cfg (if e = EOF \<and> body \<noteq> [] then ErrUnexpectedEOF else e)
                    then RSync0 else REnded EndFrameError)\<rparr>)
      | _ \<Rightarrow> None)"

definition reader_lock :: "SmartbusStreamIO \<Rightarrow> SmartbusStreamIO option" where
  "reader_lock io = (if rd io = RLock \<and> mutex io = Free then Some (io\<lparr>mutex := ByReader, rd := RSync1\<rparr>) else None)"

definition reader_handle :: "stream_cfg \<Rightarrow> SmartbusStreamIO \<Rightarrow> SmartbusStreamIO option" where
  "reader_handle cfg io =
     (case rd io of
        RHandle frame \<Rightarrow>
          let io' = io\<lparr>rd := RSync0, raw_delivered := raw_delivered io @ (if has_rawReadCh cfg then [frame] else [])\<rparr> in
          Some (case ParseFrame frame of
             Ok msg \<Rightarrow> io'\<lparr>delivered := delivered io @ [msg]\<rparr>
           | Err e \<Rightarrow> io'
           | Panic p \<Rightarrow> io'\<lparr>rd := REnded (EndPanic p), crash := Some p\<rparr>)
      | _ \<Rightarrow> None)"


section \<open>The writer and the clients\<close>

text \<open>\<^verbatim>\<open>Send\<close> and \<^verbatim>\<open>SendRaw\<close>: the channel is unbuffered, so the writer must be receiving.\<close>

definition io_Send :: "out_item \<Rightarrow> SmartbusStreamIO \<Rightarrow> SmartbusStreamIO option" where
  "io_Send item io =
     (if writeCh_closed io then Some (io\<lparr>crash := Some (PanicMsg ''send on closed channel'')\<rparr>)
      else if wr io = WReceive then Some (io\<lparr>sent := sent io @ [item], wr := WLock item\<rparr>) else None)"

definition writer_lock :: "SmartbusStreamIO \<Rightarrow> SmartbusStreamIO option" where
  "writer_lock io =
     (case wr io of
        WLock item \<Rightarrow> if mutex io = Free then Some (io\<lparr>mutex := ByWriter, wr := WWrite item\<rparr>) else None
      | _ \<Rightarrow> None)"

definition writer_write :: "SmartbusStreamIO \<Rightarrow> SmartbusStreamIO option" where
  "writer_write io =
     (case wr io of
        WWrite item \<Rightarrow>
          (case write_item item of
             Ok bs \<Rightarrow> Some (io\<lparr>written := written io @ [bs], mutex := Free, wr := WReceive\<rparr>)
           | Err e \<Rightarrow> Some (io\<lparr>mutex := Free, wr := WReceive\<rparr>)
           | Panic p \<Rightarrow> Some (io\<lparr>crash := Some p\<rparr>))
      | _ \<Rightarrow> None)"

definition writer_end :: "SmartbusStreamIO \<Rightarrow> SmartbusStreamIO option" where
  "writer_end io = (if wr io = WReceive \<and> writeCh_closed io then Some (io\<lparr>wr := WEnded\<rparr>) else None)"

text \<open>
  \<^verbatim>\<open>Stop\<close> closes the channel and the stream, and then receives until the reader closes its channel.
  While the stream is open, what a read returns is up to the other side; a read of the closed
  stream fails.
\<close>

definition io_Stop :: "SmartbusStreamIO \<Rightarrow> SmartbusStreamIO option" where
  "io_Stop io =
     (if writeCh_closed io then Some (io\<lparr>crash := Some (PanicMsg ''close of closed channel'')\<rparr>)
      else Some (io\<lparr>writeCh_closed := True, stream_closed := True, stopping := True\<rparr>))"

definition read_open :: "stream_cfg \<Rightarrow> rd_event \<Rightarrow> SmartbusStreamIO \<Rightarrow> SmartbusStreamIO option" where
  "read_open cfg ev io = (if stream_closed io then None else read_event cfg ev io)"

definition read_closed_stream :: "stream_cfg \<Rightarrow> SmartbusStreamIO \<Rightarrow> SmartbusStreamIO option" where
  "read_closed_stream cfg io = (if stream_closed io then read_event cfg (RFault ErrClosedPipe) io else None)"

definition io_Stop_return :: "SmartbusStreamIO \<Rightarrow> SmartbusStreamIO option" where
  "io_Stop_return io =
     (case rd io of REnded _ \<Rightarrow> if stopping io then Some (io\<lparr>stopping := False\<rparr>) else None | _ \<Rightarrow> None)"

datatype io_label =
    ReadEvent rd_event | ReadClosed | ReaderLock | ReaderHandle
  | CallSend out_item | WriterLock | WriterWrite | WriterEnd | CallStop | StopReturn

text \<open>A panic ends the program: no step follows it.\<close>

fun io_step' :: "stream_cfg \<Rightarrow> io_label \<Rightarrow> SmartbusStreamIO \<Rightarrow> SmartbusStreamIO option" where
  "io_step' cfg (ReadEvent ev) io = read_open cfg ev io"
| "io_step' cfg ReadClosed io = read_closed_stream cfg io"
| "io_step' cfg ReaderLock io = reader_lock io"
| "io_step' cfg ReaderHandle io = reader_handle cfg io"
| "io_step' cfg (CallSend item) io = io_Send item io"
| "io_step' cfg WriterLock io = writer_lock io"
| "io_step' cfg WriterWrite io = writer_write io"
| "io_step' cfg WriterEnd io = writer_end io"
| "io_step' cfg CallStop io = io_Stop io"
| "io_step' cfg StopReturn io = io_Stop_return io"

definition io_step :: "stream_cfg \<Rightarrow> io_label \<Rightarrow> SmartbusStreamIO \<Rightarrow> SmartbusStreamIO option" where
  "io_step cfg l io = (if crash io \<noteq> None then None else io_step' cfg l io)"

abbreviation io_reach :: "stream_cfg \<Rightarrow> SmartbusStreamIO \<Rightarrow> bool" where
  "io_reach cfg \<equiv> reach (io_step cfg) NewStreamIO"

lemmas io_ops = read_event_def check_frame_def reader_lock_def reader_handle_def io_Send_def writer_lock_def
  writer_write_def writer_end_def io_Stop_def io_Stop_return_def read_open_def read_closed_stream_def


section \<open>The mutex\<close>

text \<open>
  The reader has locked the mutex and has not yet read the frame or given it up. It locks the mutex
  only after it has read the first synchronisation byte: at \<open>RLock\<close> it does not hold it yet.
\<close>

fun frame_locked :: "rd_pc \<Rightarrow> bool" where
  "frame_locked RSync1 = True"
| "frame_locked RLen = True"
| "frame_locked (RBody l body) = True"
| "frame_locked _ = False"

fun writing :: "wr_pc \<Rightarrow> bool" where
  "writing (WWrite item) = True"
| "writing _ = False"

definition mutex_inv :: "SmartbusStreamIO \<Rightarrow> bool" where
  "mutex_inv io =
     ((frame_locked (rd io) \<longrightarrow> mutex io = ByReader) \<and> (writing (wr io) \<longleftrightarrow> mutex io = ByWriter))"

lemma mutex_inv_step: "mutex_inv io \<Longrightarrow> io_step cfg l io = Some io' \<Longrightarrow> mutex_inv io'"
  by (cases l)
     (auto simp: mutex_inv_def io_step_def io_ops Let_def
       split: if_splits rd_pc.splits wr_pc.splits rd_event.splits go_result.splits)

interpretation io_mutex: ts_invariant "io_step cfg" NewStreamIO mutex_inv
  by unfold_locales (simp add: mutex_inv_def NewStreamIO_def, rule mutex_inv_step)


lemma stopping_closed_step:
  "(stopping io \<longrightarrow> stream_closed io) \<Longrightarrow> io_step cfg l io = Some io' \<Longrightarrow> (stopping io' \<longrightarrow> stream_closed io')"
  by (cases l)
     (auto simp: io_step_def io_ops Let_def
       split: if_splits rd_pc.splits wr_pc.splits rd_event.splits go_result.splits)

interpretation io_closed: ts_invariant "io_step cfg" NewStreamIO "\<lambda>io. stopping io \<longrightarrow> stream_closed io"
  by unfold_locales (simp add: NewStreamIO_def, rule stopping_closed_step)


section \<open>What the reader does with the rest of the stream\<close>

definition raw_ended :: "raw_end \<Rightarrow> bool \<Rightarrow> raw_run" where
  "raw_ended e locked = \<lparr>run_frames = [], run_end = e, run_locked = locked\<rparr>"

lemma raw_sync0:
  "b \<noteq> 0xaa \<Longrightarrow> ReadSmartbusRaw tmo locked (RByte b # es) = ReadSmartbusRaw tmo locked es"
  "tmo e \<Longrightarrow> ReadSmartbusRaw tmo locked (RFault e # es) = ReadSmartbusRaw tmo locked es"
  "\<not> tmo e \<Longrightarrow> ReadSmartbusRaw tmo locked (RFault e # es) = raw_ended (EndSyncError e) locked"
  by (subst (1 2) ReadSmartbusRaw.simps, simp)+ (subst ReadSmartbusRaw.simps, simp add: raw_ended_def)

lemma raw_sync1:
  "b \<noteq> 0xaa \<Longrightarrow> ReadSmartbusRaw tmo False (RByte 0xaa # RByte b # es) = ReadSmartbusRaw tmo False es"
  "tmo e \<Longrightarrow> ReadSmartbusRaw tmo False (RByte 0xaa # RFault e # es) = ReadSmartbusRaw tmo True es"
  "\<not> tmo e \<Longrightarrow> ReadSmartbusRaw tmo False (RByte 0xaa # RFault e # es) = raw_ended (EndSyncError e) False"
  by (subst (1 2) ReadSmartbusRaw.simps, simp)+ (subst ReadSmartbusRaw.simps, simp add: raw_ended_def)

lemma raw_deadlock: "ReadSmartbusRaw tmo True (RByte 0xaa # es) = raw_ended EndDeadlock True"
  by (subst ReadSmartbusRaw.simps) (simp add: raw_ended_def)

lemma raw_synced:
  "ReadSmartbusFrame tmo es = Ok (FrameRead None cont es') \<Longrightarrow>
     ReadSmartbusRaw tmo False (RByte 0xaa # RByte 0xaa # es) =
       (if cont then ReadSmartbusRaw tmo False es' else raw_ended EndFrameError False)"
  by (subst ReadSmartbusRaw.simps) (simp add: raw_ended_def)

lemma frame_len:
  "l < MIN_FRAME_SIZE \<Longrightarrow> ReadSmartbusFrame tmo (RByte l # es) = Ok (FrameRead None True es)"
  "ReadSmartbusFrame tmo (RFault e # es) = Ok (FrameRead None (tmo e) es)"
  by (simp_all add: ReadSmartbusFrame_def)

lemma stream_ReadFull_fault:
  "length bs < n \<Longrightarrow> stream_ReadFull n got (map RByte bs @ RFault e # es) =
     Failed (if e = EOF \<and> (got \<or> bs \<noteq> []) then ErrUnexpectedEOF else e) es"
proof (induction bs arbitrary: n got)
  case Nil
  then show ?case by (cases n) auto
next
  case (Cons b bs)
  then show ?case by (cases n) auto
qed

lemma frame_body_fault:
  assumes "\<not> l < MIN_FRAME_SIZE" and "length body < unat l - 1"
  shows "ReadSmartbusFrame tmo (RByte l # map RByte body @ RFault e # es) =
     Ok (FrameRead None (tmo (if e = EOF \<and> body \<noteq> [] then ErrUnexpectedEOF else e)) es)"
  using assms by (auto simp: ReadSmartbusFrame_def stream_ReadFull_fault)

text \<open>What the reader will still do, from where it is, on the events to come.\<close>

definition ended_run :: "raw_end \<Rightarrow> bool \<Rightarrow> read_run" where
  "ended_run e locked = \<lparr>read_msgs = [], read_raw = [],
     read_closed = (case e of EndSyncError _ \<Rightarrow> True | EndFrameError \<Rightarrow> True | _ \<Rightarrow> False),
     read_end = e, read_locked = locked\<rparr>"

definition prepend :: "SmartbusMessage list \<Rightarrow> byte list list \<Rightarrow> read_run \<Rightarrow> read_run" where
  "prepend ms rs r = r\<lparr>read_msgs := ms @ read_msgs r, read_raw := rs @ read_raw r\<rparr>"

fun rd_rest :: "stream_cfg \<Rightarrow> rd_pc \<Rightarrow> bool \<Rightarrow> rd_event list \<Rightarrow> read_run" where
  "rd_rest cfg RSync0 locked es = ReadSmartbus (stream_tmo cfg) (has_rawReadCh cfg) locked es"
| "rd_rest cfg RLock locked es = ReadSmartbus (stream_tmo cfg) (has_rawReadCh cfg) locked (RByte 0xaa # es)"
| "rd_rest cfg RSync1 locked es = ReadSmartbus (stream_tmo cfg) (has_rawReadCh cfg) False (RByte 0xaa # es)"
| "rd_rest cfg RLen locked es =
     ReadSmartbus (stream_tmo cfg) (has_rawReadCh cfg) False (RByte 0xaa # RByte 0xaa # es)"
| "rd_rest cfg (RBody l body) locked es =
     ReadSmartbus (stream_tmo cfg) (has_rawReadCh cfg) False (RByte 0xaa # RByte 0xaa # RByte l # map RByte body @ es)"
| "rd_rest cfg (RHandle f) locked es =
     (let raws = (if has_rawReadCh cfg then [f] else []);
          rest = ReadSmartbus (stream_tmo cfg) (has_rawReadCh cfg) False es
      in case ParseFrame f of
           Ok m \<Rightarrow> prepend [m] raws rest
         | Err e \<Rightarrow> prepend [] raws rest
         | Panic p \<Rightarrow> prepend [] raws (ended_run (EndPanic p) False))"
| "rd_rest cfg (REnded e) locked es = ended_run e locked"

lemma ReadSmartbus_cong:
  "ReadSmartbusRaw tmo l1 es1 = ReadSmartbusRaw tmo l2 es2 \<Longrightarrow> ReadSmartbus tmo raw l1 es1 = ReadSmartbus tmo raw l2 es2"
  by (simp add: ReadSmartbus_def)

lemma ReadSmartbus_ended:
  "ReadSmartbusRaw tmo l es = raw_ended e locked \<Longrightarrow> ReadSmartbus tmo raw l es = ended_run e locked"
  by (simp add: ReadSmartbus_def raw_ended_def ended_run_def)

lemma synced_fault:
  assumes "ReadSmartbusFrame tmo es = Ok (FrameRead None cont es')"
  shows "cont \<Longrightarrow> ReadSmartbus tmo raw False (RByte 0xaa # RByte 0xaa # es) = ReadSmartbus tmo raw False es'"
    and "\<not> cont \<Longrightarrow> ReadSmartbus tmo raw False (RByte 0xaa # RByte 0xaa # es) = ended_run EndFrameError False"
  by (rule ReadSmartbus_cong, simp add: raw_synced [OF assms])
     (rule ReadSmartbus_ended, simp add: raw_synced [OF assms])

lemma ReadSmartbus_frame:
  assumes "ReadSmartbusRaw tmo l es =
     (let rest = ReadSmartbusRaw tmo False es' in rest\<lparr>run_frames := f # run_frames rest\<rparr>)"
  shows "ReadSmartbus tmo raw l es = rd_rest \<lparr>stream_tmo = tmo, has_rawReadCh = raw\<rparr> (RHandle f) locked es'"
  using assms
  by (auto simp: ReadSmartbus_def Let_def prepend_def ended_run_def split: go_result.splits prod.splits option.splits)

text \<open>The invariant: what was delivered and what is still to come make up the run of the reader.\<close>

fun rd_ok :: "rd_pc \<Rightarrow> holder \<Rightarrow> bool" where
  "rd_ok (RBody l body) h = (\<not> l < MIN_FRAME_SIZE \<and> length body < unat l - 1)"
| "rd_ok (RHandle f) h = (h \<noteq> ByReader)"
| "rd_ok (REnded (EndPanic p)) h = (h \<noteq> ByReader)"
| "rd_ok _ h = True"

lemma rd_ok_writer: "h \<noteq> ByReader \<Longrightarrow> h' \<noteq> ByReader \<Longrightarrow> rd_ok pc h = rd_ok pc h'"
  by (cases "(pc, h)" rule: rd_ok.cases) simp_all

definition read_inv :: "stream_cfg \<Rightarrow> SmartbusStreamIO \<Rightarrow> bool" where
  "read_inv cfg io =
     (mutex_inv io \<and> rd_ok (rd io) (mutex io) \<and>
      (\<forall>es. ReadSmartbus (stream_tmo cfg) (has_rawReadCh cfg) False (consumed io @ es) =
         prepend (delivered io) (raw_delivered io) (rd_rest cfg (rd io) (mutex io = ByReader) es)))"

lemma prepend_Nil [simp]: "prepend [] [] r = r"
  by (simp add: prepend_def)

lemma prepend_prepend: "prepend ms rs (prepend ms' rs' r) = prepend (ms @ ms') (rs @ rs') r"
  by (simp add: prepend_def)

lemma unat_MIN_FRAME: "\<not> l < MIN_FRAME_SIZE \<Longrightarrow> 11 \<le> unat l"
  by (simp add: MIN_FRAME_SIZE_def not_less word_le_nat_alt)

lemma wire_frame_complete:
  assumes "\<not> l < MIN_FRAME_SIZE" and "frame_complete l body"
  shows "wire_frame (l # body)"
proof -
  have "11 \<le> unat l" "unat l \<le> 255" using unat_MIN_FRAME [OF assms(1)] unat_byte_less [of l] by linarith+
  with assms(2) show ?thesis by (simp add: wire_frame_def frame_complete_def)
qed

lemma check_frame_rest:
  assumes "wire_frame f"
  shows "\<exists>pc. check_frame f io = io\<lparr>mutex := Free, rd := pc\<rparr> \<and> (pc = RSync0 \<or> pc = RHandle f) \<and>
     ReadSmartbus (stream_tmo cfg) (has_rawReadCh cfg) False (RByte 0xaa # RByte 0xaa # map RByte f @ es) =
       rd_rest cfg pc False es"
proof -
  have two: "2 \<le> length f" using assms by (simp add: wire_frame_def)
  have "(crc_ref (take (length f - 2) f) = Uint16 (f ! (length f - 2)) (f ! (length f - 1))) = (crc_ref f = 0)"
    using crc.trailer_iff [OF two] by auto
  then have check: "check_frame f io = io\<lparr>mutex := Free, rd := (if crc_ref f = 0 then RHandle f else RSync0)\<rparr>"
    by (simp add: check_frame_def Let_def)
  note raw = ReadSmartbusRaw_wire [of "[]" f "stream_tmo cfg" es, OF _ assms, simplified]
  show ?thesis
  proof (cases "crc_ref f = 0")
    case True
    then have "ReadSmartbus (stream_tmo cfg) (has_rawReadCh cfg) False (RByte 0xaa # RByte 0xaa # map RByte f @ es) =
        rd_rest cfg (RHandle f) False es"
      using ReadSmartbus_frame [of "stream_tmo cfg" False "RByte 0xaa # RByte 0xaa # map RByte f @ es" es f
          "has_rawReadCh cfg" False] raw by simp
    with True check show ?thesis by (intro exI [of _ "RHandle f"]) (simp del: rd_rest.simps)
  next
    case False
    then have "ReadSmartbusRaw (stream_tmo cfg) False (RByte 0xaa # RByte 0xaa # map RByte f @ es) =
        ReadSmartbusRaw (stream_tmo cfg) False es" using raw by (simp add: Let_def)
    from ReadSmartbus_cong [OF this] False check show ?thesis by (intro exI [of _ RSync0]) simp
  qed
qed

lemma reading_pcs:
  "read_event cfg ev io = Some io' \<Longrightarrow> rd io = RSync0 \<or> frame_locked (rd io)"
  by (cases "rd io") (simp_all add: read_event_def)

text \<open>A read moves one event from the rest of the stream to what was consumed.\<close>

lemma read_event_rest:
  assumes "read_event cfg ev io = Some io'" and "mutex_inv io" and "rd_ok (rd io) (mutex io)"
  shows "rd_rest cfg (rd io) (mutex io = ByReader) (ev # es) = rd_rest cfg (rd io') (mutex io' = ByReader) es \<and>
     rd_ok (rd io') (mutex io') \<and> consumed io' = consumed io @ [ev] \<and> delivered io' = delivered io \<and>
     raw_delivered io' = raw_delivered io"
proof (cases "rd io")
  case RSync0
  then show ?thesis
    using assms(1) raw_sync0(1,2) [THEN ReadSmartbus_cong] raw_sync0(3) [THEN ReadSmartbus_ended]
    by (cases ev) (auto simp: read_event_def Let_def)
next
  case RSync1
  then show ?thesis
    using assms raw_sync1(1,2) [THEN ReadSmartbus_cong] raw_sync1(3) [THEN ReadSmartbus_ended]
    by (cases ev) (auto simp: read_event_def Let_def mutex_inv_def)
next
  case RLen
  show ?thesis
  proof (cases ev)
    case (RByte l)
    then show ?thesis
      using assms RLen synced_fault(1) [OF frame_len(1) [of l "stream_tmo cfg" es]] unat_MIN_FRAME [of l]
      by (auto simp: read_event_def Let_def mutex_inv_def)
  next
    case (RFault e)
    then show ?thesis
      using assms RLen synced_fault [OF frame_len(2) [of "stream_tmo cfg" e es]]
      by (auto simp: read_event_def Let_def mutex_inv_def)
  qed
next
  case (RBody l body)
  then have l: "\<not> l < MIN_FRAME_SIZE" "length body < unat l - 1" using assms(3) by auto
  show ?thesis
  proof (cases ev)
    case (RByte b)
    show ?thesis
    proof (cases "frame_complete l (body @ [b])")
      case True
      from check_frame_rest [OF wire_frame_complete [OF l(1) True], of "io\<lparr>consumed := consumed io @ [ev]\<rparr>" cfg es]
      show ?thesis using assms RBody RByte True by (auto simp: read_event_def Let_def)
    next
      case False
      then show ?thesis using assms RBody RByte l by (auto simp: read_event_def Let_def frame_complete_def mutex_inv_def)
    qed
  next
    case (RFault e)
    then show ?thesis
      using assms(1,2) RBody synced_fault [OF frame_body_fault [OF l, of "stream_tmo cfg" e es]]
      by (auto simp: read_event_def Let_def mutex_inv_def)
  qed
qed (use assms(1) in \<open>simp_all add: read_event_def\<close>)

lemma reader_handle_rest:
  assumes "reader_handle cfg io = Some io'" and "rd_ok (rd io) (mutex io)"
  shows "prepend (delivered io) (raw_delivered io) (rd_rest cfg (rd io) (mutex io = ByReader) es) =
      prepend (delivered io') (raw_delivered io') (rd_rest cfg (rd io') (mutex io' = ByReader) es) \<and>
     rd_ok (rd io') (mutex io') \<and> consumed io' = consumed io"
  using assms
  by (auto simp: reader_handle_def Let_def prepend_prepend split: rd_pc.splits go_result.splits)

lemma read_inv_read:
  assumes "read_inv cfg io" and "read_event cfg ev io = Some io'" and "mutex_inv io'"
  shows "read_inv cfg io'"
proof -
  have "ReadSmartbus (stream_tmo cfg) (has_rawReadCh cfg) False (consumed io @ ev # es) =
      prepend (delivered io) (raw_delivered io) (rd_rest cfg (rd io) (mutex io = ByReader) (ev # es))" for es
    using assms(1) by (simp add: read_inv_def)
  with read_event_rest [OF assms(2)] assms(1,3) show ?thesis by (simp add: read_inv_def)
qed

text \<open>Both kinds of read.\<close>

lemma io_step_read:
  "io_step cfg l io = Some io' \<Longrightarrow> l = ReadClosed \<or> (\<exists>ev. l = ReadEvent ev) \<Longrightarrow> \<exists>ev. read_event cfg ev io = Some io'"
  by (auto simp: io_step_def read_open_def read_closed_stream_def split: if_splits)

lemma read_inv_step:
  assumes "read_inv cfg io" and "io_step cfg l io = Some io'"
  shows "read_inv cfg io'"
proof -
  have mutex: "mutex_inv io'" using mutex_inv_step assms by (auto simp: read_inv_def)
  show ?thesis
  proof (cases l)
    case (ReadEvent ev)
    then show ?thesis using read_inv_read [OF assms(1)] io_step_read [OF assms(2)] mutex by blast
  next
    case ReadClosed
    then show ?thesis using read_inv_read [OF assms(1)] io_step_read [OF assms(2)] mutex by blast
  next
    case ReaderHandle
    then show ?thesis
      using assms mutex reader_handle_rest [of cfg io io'] by (auto simp: read_inv_def io_step_def split: if_splits)
  qed (use assms mutex rd_ok_writer [of Free ByWriter] in
      \<open>auto simp: read_inv_def io_step_def reader_lock_def io_Send_def writer_lock_def writer_write_def writer_end_def
         io_Stop_def io_Stop_return_def mutex_inv_def
         split: if_splits rd_pc.splits wr_pc.splits go_result.splits\<close>)
qed

interpretation io_read: ts_invariant "io_step cfg" NewStreamIO "read_inv cfg"
  by unfold_locales (simp add: read_inv_def mutex_inv_def NewStreamIO_def, rule read_inv_step)


section \<open>The writer's log\<close>

definition pending :: "wr_pc \<Rightarrow> out_item list" where
  "pending pc = (case pc of WLock item \<Rightarrow> [item] | WWrite item \<Rightarrow> [item] | _ \<Rightarrow> [])"

definition write_inv :: "SmartbusStreamIO \<Rightarrow> bool" where
  "write_inv io = (map write_item (sent io) = map Ok (written io) @ map write_item (pending (wr io)))"

lemma write_item_not_Err: "write_item item \<noteq> Err e"
  by (cases item) (auto simp: WriteFrame_def WriteFrameRaw_def Let_def split: go_result.splits)

lemma check_frame_fields [simp]:
  "sent (check_frame f io) = sent io" "written (check_frame f io) = written io" "wr (check_frame f io) = wr io"
  "stopping (check_frame f io) = stopping io" "delivered (check_frame f io) = delivered io"
  by (simp_all add: check_frame_def Let_def)

lemma write_inv_step: "write_inv io \<Longrightarrow> io_step cfg l io = Some io' \<Longrightarrow> write_inv io'"
  using write_item_not_Err
  by (cases l)
     (auto simp: write_inv_def pending_def io_step_def read_event_def reader_lock_def reader_handle_def io_Send_def
       writer_lock_def writer_write_def writer_end_def io_Stop_def io_Stop_return_def read_open_def read_closed_stream_def
       Let_def split: if_splits rd_pc.splits wr_pc.splits rd_event.splits go_result.splits)

interpretation io_write: ts_invariant "io_step cfg" NewStreamIO write_inv
  by unfold_locales (simp add: write_inv_def pending_def NewStreamIO_def, rule write_inv_step)


section \<open>A reader that keeps the mutex\<close>

text \<open>After a time-out between the synchronisation bytes.\<close>

fun between_frames :: "rd_pc \<Rightarrow> bool" where
  "between_frames RSync0 = True"
| "between_frames RLock = True"
| "between_frames (REnded e) = True"
| "between_frames _ = False"

definition stuck :: "byte list list \<Rightarrow> SmartbusMessage list \<Rightarrow> SmartbusStreamIO \<Rightarrow> bool" where
  "stuck ws ms io = (mutex io = ByReader \<and> between_frames (rd io) \<and> \<not> writing (wr io) \<and> written io = ws \<and> delivered io = ms)"

lemma stuck_step: "stuck ws ms io \<Longrightarrow> io_step cfg l io = Some io' \<Longrightarrow> stuck ws ms io'"
  by (cases l; cases "rd io")
     (auto simp: stuck_def io_step_def read_event_def reader_lock_def reader_handle_def io_Send_def writer_lock_def
       writer_write_def writer_end_def io_Stop_def io_Stop_return_def read_open_def read_closed_stream_def Let_def
       split: if_splits wr_pc.splits rd_event.splits)

lemma stuck_exec: "stuck ws ms io \<Longrightarrow> exec (io_step cfg) ls io = Some io' \<Longrightarrow> stuck ws ms io'"
  by (rule exec_preserves [where P = "stuck ws ms"]) (auto intro: stuck_step)


section \<open>Where the reader waits\<close>

lemma stream_ReadFull_starved: "length bs < n \<Longrightarrow> stream_ReadFull n got (map RByte bs) = Starved"
proof (induction bs arbitrary: n got)
  case Nil
  then show ?case by (cases n) auto
next
  case (Cons b bs)
  then show ?case by (cases n) auto
qed

lemma rd_rest_waiting:
  assumes "rd_ok pc h" and "\<And>f. pc \<noteq> RHandle f"
  shows "read_msgs (rd_rest cfg pc locked []) = [] \<and> read_raw (rd_rest cfg pc locked []) = []"
proof (cases pc)
  case (RBody l body)
  then have "ReadSmartbusFrame (stream_tmo cfg) (RByte l # map RByte body) = Ok FrameWaiting"
    using assms(1) by (simp add: ReadSmartbusFrame_def stream_ReadFull_starved)
  with RBody show ?thesis
    by (simp add: ReadSmartbus_def ReadSmartbusRaw.simps [of _ _ "RByte 170 # _"])
next
  case RLen
  then show ?thesis
    by (simp add: ReadSmartbus_def ReadSmartbusRaw.simps [of _ _ "RByte 170 # _"] ReadSmartbusFrame_def)
qed (use assms in \<open>simp_all add: ReadSmartbus_def ReadSmartbusRaw.simps [of _ _ "RByte 170 # _"] ended_run_def\<close>)

end
