(* ===== verification/StreamCorrect.thy ===== *)
theory StreamCorrect
  imports StreamIO
begin

text \<open>
  What \<^verbatim>\<open>SmartbusStreamIO\<close> of \<^verbatim>\<open>smartbus/frame.go\<close> guarantees in every interleaving of its two
  goroutines and its clients.
\<close>

definition no_timeouts :: stream_cfg where
  "no_timeouts = \<lparr>stream_tmo = (\<lambda>_. False), has_rawReadCh = False\<rparr>"

definition serial_stream :: stream_cfg where
  "serial_stream = \<lparr>stream_tmo = (\<lambda>e. e = ErrTimeout), has_rawReadCh = False\<rparr>"

lemmas io_run_defs = io_step_def NewStreamIO_def io_ops Let_def no_timeouts_def serial_stream_def

text \<open>
  (C17) Nothing is written while the reader holds the mutex for a frame, that is, from when it has
  locked it, after the first synchronisation byte, until the frame is read or given up: the writer
  can then neither lock the mutex nor write. So a write happens only while the reader waits for a
  first synchronisation byte, waits for the mutex after one, hands a frame on or has ended. This
  does not cover the gap between reading the first synchronisation byte and locking: there a
  write can still get in, as the example shows.
\<close>

theorem stream_frame_excludes_writes:
  assumes "io_reach cfg io"
  shows "(frame_locked (rd io) \<longrightarrow>
       mutex io = ByReader \<and> io_step cfg WriterLock io = None \<and> io_step cfg WriterWrite io = None) \<and>
     (io_step cfg WriterWrite io \<noteq> None \<longrightarrow>
       mutex io = ByWriter \<and> (rd io = RSync0 \<or> rd io = RLock \<or> (\<exists>f. rd io = RHandle f) \<or> (\<exists>e. rd io = REnded e)))"
proof -
  have inv: "mutex_inv io" by (rule io_mutex.reach_inv [OF assms])
  have "io_step cfg WriterWrite io \<noteq> None \<longrightarrow> writing (wr io)"
    by (auto simp: io_step_def writer_write_def split: if_splits wr_pc.splits)
  moreover have "io_step cfg WriterLock io \<noteq> None \<longrightarrow> mutex io = Free"
    by (auto simp: io_step_def writer_lock_def split: if_splits wr_pc.splits)
  ultimately show ?thesis
    using inv by (cases "rd io") (auto simp: mutex_inv_def)
qed

theorem stream_frame_excludes_writes_witness:
  "(\<exists>io. exec (io_step no_timeouts) [CallSend (OutRaw [1]), ReadEvent (RByte 0xaa), ReaderLock] NewStreamIO = Some io \<and>
      io_step no_timeouts WriterLock io = None) \<and>
   (\<exists>io io'. exec (io_step no_timeouts) [CallSend (OutRaw [1]), ReadEvent (RByte 0xaa), WriterLock] NewStreamIO = Some io \<and>
      io_step no_timeouts WriterWrite io = Some io' \<and> written io' = [[0xaa, 0xaa, 1]] \<and> mutex io = ByWriter)"
proof (intro conjI)
  obtain io where io: "exec (io_step no_timeouts) [CallSend (OutRaw [1]), ReadEvent (RByte 0xaa), ReaderLock] NewStreamIO = Some io"
    "rd io = RSync1" by (simp add: io_run_defs)
  with stream_frame_excludes_writes [OF exec_reach [OF io(1)]] show
    "\<exists>io. exec (io_step no_timeouts) [CallSend (OutRaw [1]), ReadEvent (RByte 0xaa), ReaderLock] NewStreamIO = Some io \<and>
      io_step no_timeouts WriterLock io = None" by auto
next
  obtain io where io: "exec (io_step no_timeouts) [CallSend (OutRaw [1]), ReadEvent (RByte 0xaa), WriterLock] NewStreamIO = Some io"
    and wr: "wr io = WWrite (OutRaw [1])" "written io = []" "crash io = None"
    by (simp add: io_run_defs)
  obtain io' where io': "io_step no_timeouts WriterWrite io = Some io'" "written io' = [[0xaa, 0xaa, 1]]"
    using wr by (simp add: io_step_def writer_write_def WritePreBuiltFrame_def)
  with stream_frame_excludes_writes [OF exec_reach [OF io]] io show
    "\<exists>io io'. exec (io_step no_timeouts) [CallSend (OutRaw [1]), ReadEvent (RByte 0xaa), WriterLock] NewStreamIO = Some io \<and>
      io_step no_timeouts WriterWrite io = Some io' \<and> written io' = [[0xaa, 0xaa, 1]] \<and> mutex io = ByWriter" by auto
qed

text \<open>
  (C7) The reader running beside the writer computes what the reader alone computes: whatever the
  interleaving, the messages and raw frames handed on so far are those of \<^verbatim>\<open>ReadSmartbus\<close> on the
  part of the stream read so far, except for the frame that is just being handed on.
\<close>

theorem stream_reads_faithful:
  assumes "io_reach cfg io"
  shows "read_msgs (ReadSmartbus (stream_tmo cfg) (has_rawReadCh cfg) False (consumed io)) =
       delivered io @ (case rd io of RHandle f \<Rightarrow> (case ParseFrame f of Ok m \<Rightarrow> [m] | _ \<Rightarrow> []) | _ \<Rightarrow> []) \<and>
     read_raw (ReadSmartbus (stream_tmo cfg) (has_rawReadCh cfg) False (consumed io)) =
       raw_delivered io @ (case rd io of RHandle f \<Rightarrow> if has_rawReadCh cfg then [f] else [] | _ \<Rightarrow> [])"
proof -
  have inv: "rd_ok (rd io) (mutex io)" and
    run: "ReadSmartbus (stream_tmo cfg) (has_rawReadCh cfg) False (consumed io) =
      prepend (delivered io) (raw_delivered io) (rd_rest cfg (rd io) (mutex io = ByReader) [])"
    using io_read.reach_inv [OF assms] by (auto simp: read_inv_def dest: spec [of _ "[]"])
  show ?thesis
  proof (cases "rd io")
    case (RHandle f)
    then show ?thesis
      unfolding run
      by (auto simp: prepend_def ended_run_def ReadSmartbus_def Let_def split: go_result.splits)
  qed (use rd_rest_waiting [OF inv, of cfg "mutex io = ByReader"] in
      \<open>simp_all add: run prepend_def del: rd_rest.simps\<close>)
qed

theorem stream_reads_faithful_witness:
  "\<exists>io. exec (io_step no_timeouts) [ReadEvent (RByte 7), ReadEvent (RByte 0xaa), ReaderLock, ReadEvent (RByte 1)] NewStreamIO = Some io \<and>
     read_msgs (ReadSmartbus (\<lambda>_. False) False False [RByte 7, RByte 0xaa, RByte 1]) = delivered io"
proof -
  obtain io where io: "exec (io_step no_timeouts) [ReadEvent (RByte 7), ReadEvent (RByte 0xaa), ReaderLock, ReadEvent (RByte 1)] NewStreamIO = Some io"
    and "rd io = RSync0" "consumed io = [RByte 7, RByte 0xaa, RByte 1]"
    by (simp add: io_run_defs)
  with stream_reads_faithful [OF exec_reach [OF io]] show ?thesis by (auto simp: no_timeouts_def)
qed

text \<open>
  (C19) Everything given to \<^verbatim>\<open>Send\<close> and \<^verbatim>\<open>SendRaw\<close> is written in the order in which it was given,
  each item as one piece, except for the item the writer is just dealing with.
\<close>

theorem stream_writes_in_order:
  assumes "io_reach cfg io"
  shows "map write_item (sent io) = map Ok (written io) @ map write_item (pending (wr io)) \<and>
     length (pending (wr io)) \<le> 1"
  using io_write.reach_inv [OF assms] by (simp add: write_inv_def pending_def split: wr_pc.split)

theorem stream_writes_in_order_witness:
  "\<exists>io. exec (io_step no_timeouts) [CallSend (OutRaw [1]), WriterLock, WriterWrite, CallSend (OutRaw [2])] NewStreamIO = Some io \<and>
     map write_item (sent io) = map Ok [[0xaa, 0xaa, 1]] @ map write_item [OutRaw [2]]"
proof -
  obtain io where io: "exec (io_step no_timeouts) [CallSend (OutRaw [1]), WriterLock, WriterWrite, CallSend (OutRaw [2])] NewStreamIO = Some io"
    and "written io = [[0xaa, 0xaa, 1]]" "pending (wr io) = [OutRaw [2]]"
    by (simp add: io_run_defs pending_def WritePreBuiltFrame_def)
  with stream_writes_in_order [OF exec_reach [OF io]] show ?thesis by metis
qed

text \<open>
  (C18) A time-out between the two synchronisation bytes silences the driver for good: the reader
  keeps the mutex, so whatever happens later, nothing is ever written again and no message is ever
  delivered again.
\<close>

theorem sync_timeout_silences_stream:
  assumes "io_reach cfg io" and "rd io = RSync1" and "stream_tmo cfg e"
    and "exec (io_step cfg) (ReadEvent (RFault e) # ls) io = Some io'"
  shows "written io' = written io \<and> delivered io' = delivered io"
proof -
  obtain io1 where io1: "io_step cfg (ReadEvent (RFault e)) io = Some io1" "exec (io_step cfg) ls io1 = Some io'"
    using assms(4) by (rule exec_ConsE)
  have "stuck (written io) (delivered io) io1"
    using io1(1) assms(2,3) io_mutex.reach_inv [OF assms(1)]
    by (auto simp: stuck_def mutex_inv_def io_step_def read_open_def read_event_def Let_def split: if_splits)
  from stuck_exec [OF this io1(2)] show ?thesis by (simp add: stuck_def)
qed

theorem sync_timeout_silences_stream_witness:
  "\<exists>io'. exec (io_step serial_stream) [ReadEvent (RByte 0xaa), ReaderLock, ReadEvent (RFault ErrTimeout),
       CallSend (OutRaw [1]), ReadEvent (RByte 0xaa)] NewStreamIO = Some io' \<and> written io' = []"
proof -
  obtain io where io: "exec (io_step serial_stream) [ReadEvent (RByte 0xaa), ReaderLock] NewStreamIO = Some io"
    "rd io = RSync1" "written io = []" by (simp add: io_run_defs)
  obtain io' where io': "exec (io_step serial_stream) [ReadEvent (RByte 0xaa), ReaderLock, ReadEvent (RFault ErrTimeout),
       CallSend (OutRaw [1]), ReadEvent (RByte 0xaa)] NewStreamIO = Some io'"
    by (simp add: io_run_defs)
  then have rest: "exec (io_step serial_stream) (ReadEvent (RFault ErrTimeout) # [CallSend (OutRaw [1]), ReadEvent (RByte 0xaa)]) io = Some io'"
    using io(1) exec_append [of "io_step serial_stream" "[ReadEvent (RByte 0xaa), ReaderLock]"
        "[ReadEvent (RFault ErrTimeout), CallSend (OutRaw [1]), ReadEvent (RByte 0xaa)]" NewStreamIO] by simp
  have "stream_tmo serial_stream ErrTimeout" by (simp add: serial_stream_def)
  from sync_timeout_silences_stream [OF exec_reach [OF io(1)] io(2) this rest] io io' show ?thesis by auto
qed

text \<open>Without time-outs the reader holds the mutex only inside a frame.\<close>

definition mutex_released :: "stream_cfg \<Rightarrow> SmartbusStreamIO \<Rightarrow> bool" where
  "mutex_released cfg io = ((\<forall>e. \<not> stream_tmo cfg e) \<longrightarrow> mutex io = ByReader \<longrightarrow> frame_locked (rd io))"

lemma mutex_released_read:
  assumes "mutex_released cfg io" and "read_event cfg ev io = Some io'"
  shows "mutex_released cfg io'"
  using assms reading_pcs [of cfg ev io io']
  by (cases "rd io"; cases ev) (auto simp: mutex_released_def read_event_def check_frame_def Let_def split: if_splits)

lemma mutex_released_step:
  assumes "mutex_released cfg io" and "io_step cfg l io = Some io'"
  shows "mutex_released cfg io'"
proof (cases l)
  case (ReadEvent ev)
  then show ?thesis using mutex_released_read [OF assms(1)] io_step_read [OF assms(2)] by blast
next
  case ReadClosed
  then show ?thesis using mutex_released_read [OF assms(1)] io_step_read [OF assms(2)] by blast
qed (use assms in \<open>auto simp: mutex_released_def io_step_def reader_lock_def reader_handle_def io_Send_def writer_lock_def
       writer_write_def writer_end_def io_Stop_def io_Stop_return_def Let_def
       split: if_splits rd_pc.splits wr_pc.splits go_result.splits\<close>)

interpretation io_released: ts_invariant "io_step cfg" NewStreamIO "mutex_released cfg"
  by unfold_locales (simp add: mutex_released_def NewStreamIO_def, rule mutex_released_step)

lemma read_fault_ends:
  assumes "\<And>e. \<not> stream_tmo cfg e" and "rd io = RSync0 \<or> frame_locked (rd io)" and "crash io = None" and "stopping io"
    and "stream_closed io"
  shows "\<exists>io'. exec (io_step cfg) [ReadClosed, StopReturn] io = Some io' \<and> \<not> stopping io'"
  using assms by (cases "rd io") (auto simp: io_step_def read_closed_stream_def read_event_def io_Stop_return_def Let_def)

text \<open>
  (C20) On a stream without time-outs \<^verbatim>\<open>Stop\<close> can always return. From wherever the two goroutines are,
  at most four steps of theirs lead there, whatever the other side of the bus does or does not
  send: as \<^verbatim>\<open>Stop\<close> has closed the stream, the read that the reader is at or comes to fails, and the reader
  ends. The only exception is a panic in encoding or decoding a message.
\<close>

theorem stream_stop_returns:
  assumes "io_reach cfg io" and "\<And>e. \<not> stream_tmo cfg e" and "stopping io" and "crash io = None"
    and "\<And>item. wr io = WWrite item \<Longrightarrow> \<exists>bs. write_item item = Ok bs"
    and "\<And>f p. rd io = RHandle f \<Longrightarrow> ParseFrame f \<noteq> Panic p"
  shows "\<exists>ls io'. set ls \<subseteq> {ReadClosed, ReaderLock, ReaderHandle, WriterWrite, StopReturn} \<and> length ls \<le> 4 \<and>
     exec (io_step cfg) ls io = Some io' \<and> \<not> stopping io'"
proof -
  let ?own = "{ReadClosed, ReaderLock, ReaderHandle, WriterWrite, StopReturn}"
  have closed: "stream_closed io" using io_closed.reach_inv [OF assms(1)] assms(3) by blast
  note inv = io_mutex.reach_inv [OF assms(1)] io_released.reach_inv [OF assms(1)]
  note stop = read_fault_ends [OF assms(2)]
  have via: "\<exists>ls io'. set ls \<subseteq> ?own \<and> length ls \<le> 4 \<and> exec (io_step cfg) ls io = Some io' \<and> \<not> stopping io'"
    if "exec (io_step cfg) ks io = Some io1" "length ks \<le> 2" "rd io1 = RSync0 \<or> frame_locked (rd io1)" "crash io1 = None" "stopping io1"
      "stream_closed io1" "set ks \<subseteq> ?own"
    for ks io1
    using stop [OF that(3-6)] that(1,2,7)
    by (auto intro!: exI [of _ "ks @ [ReadClosed, StopReturn]"] simp: exec_append)
  show ?thesis
  proof (cases "rd io")
    case RLock
    show ?thesis
    proof (cases "mutex io")
      case Free
      then show ?thesis
        using RLock assms(3,4) closed via [of "[ReaderLock]" "io\<lparr>mutex := ByReader, rd := RSync1\<rparr>"]
        by (simp add: io_step_def reader_lock_def)
    next
      case ByWriter
      then obtain item where "wr io = WWrite item" using inv(1) by (cases "wr io") (auto simp: mutex_inv_def)
      moreover obtain bs where "write_item item = Ok bs" using assms(5) [OF \<open>wr io = WWrite item\<close>] by blast
      ultimately show ?thesis
        using RLock ByWriter assms(3,4) closed via [of "[WriterWrite, ReaderLock]"
            "io\<lparr>written := written io @ [bs], mutex := ByReader, wr := WReceive, rd := RSync1\<rparr>"]
        by (simp add: io_step_def reader_lock_def writer_write_def)
    next
      case ByReader
      then show ?thesis using inv(2) RLock assms(2) by (simp add: mutex_released_def)
    qed
  next
    case (RHandle f)
    obtain io1 where "reader_handle cfg io = Some io1" "rd io1 = RSync0" "crash io1 = None" "stopping io1" "stream_closed io1"
      using RHandle assms(3,4,6) closed by (cases "ParseFrame f") (auto simp: reader_handle_def Let_def)
    then show ?thesis using via [of "[ReaderHandle]" io1] assms(4) by (simp add: io_step_def)
  next
    case (REnded e)
    then show ?thesis
      using assms(3,4) by (intro exI [of _ "[StopReturn]"]) (simp add: io_step_def io_Stop_return_def)
  qed (use via [of "[]" io] assms(3,4) closed in simp_all)
qed

theorem stream_stop_returns_witness:
  "\<exists>io ls io'. exec (io_step no_timeouts) [ReadEvent (RByte 0xaa), CallSend (OutRaw [1]), WriterLock, CallStop] NewStreamIO = Some io \<and>
     set ls \<subseteq> {ReadClosed, ReaderLock, ReaderHandle, WriterWrite, StopReturn} \<and>
     exec (io_step no_timeouts) ls io = Some io' \<and> \<not> stopping io'"
proof -
  obtain io where io: "exec (io_step no_timeouts) [ReadEvent (RByte 0xaa), CallSend (OutRaw [1]), WriterLock, CallStop] NewStreamIO = Some io"
    "stopping io" "crash io = None" "wr io = WWrite (OutRaw [1])" "rd io = RLock"
    by (simp add: io_run_defs)
  have "\<exists>ls io'. set ls \<subseteq> {ReadClosed, ReaderLock, ReaderHandle, WriterWrite, StopReturn} \<and> length ls \<le> 4 \<and>
      exec (io_step no_timeouts) ls io = Some io' \<and> \<not> stopping io'"
    by (rule stream_stop_returns [OF exec_reach [OF io(1)]]) (use io in \<open>auto simp: no_timeouts_def\<close>)
  with io show ?thesis by blast
qed

end
