(* ===== verification/Udp.thy ===== *)
theory Udp
  imports FrameCorrect Transitions
begin

text \<open>
  Frames in datagrams, \<^verbatim>\<open>smartbus/udp.go\<close>: a datagram is four bytes of an IP address, the
  signature \<^verbatim>\<open>SMARTCLOUD\<close>, two synchronisation bytes and a frame. The sockets are those of
  package \<^verbatim>\<open>net\<close>: what arrives and what sending returns is up to the environment.
\<close>

section \<open>Datagrams\<close>

definition SmartbusPort :: nat where "SmartbusPort = 6000"

definition udpSignature :: "byte list" where
  "udpSignature = [0x53, 0x4d, 0x41, 0x52, 0x54, 0x43, 0x4c, 0x4f, 0x55, 0x44, 0xaa, 0xaa]"

text \<open>\<^verbatim>\<open>net.IPv4\<close> gives the 16-byte form of an address.\<close>

definition IPv4 :: "byte \<Rightarrow> byte \<Rightarrow> byte \<Rightarrow> byte \<Rightarrow> byte list" where
  "IPv4 a b c d = replicate 10 0 @ [0xff, 0xff, a, b, c, d]"

record UDPAddr =
  addr_IP :: "byte list"
  addr_Port :: nat
  addr_Zone :: string

record DatagramIO =
  outgoingIP :: "byte list"
  smartbusGwAddress :: UDPAddr
  dgram_raw :: bool   \<comment> \<open>\<^verbatim>\<open>rawReadCh\<close> is not nil\<close>

definition allBroadcast :: "byte list \<Rightarrow> bool" where
  "allBroadcast b = list_all (\<lambda>c. c = 255) b"

text \<open>\<open>resolve\<close> and \<open>listen\<close> stand for \<^verbatim>\<open>net.ResolveUDPAddr\<close> and \<^verbatim>\<open>net.ListenUDP\<close>.\<close>

definition NewDatagramIO :: "(string \<Rightarrow> string \<Rightarrow> 'a go_result) \<Rightarrow> (string \<Rightarrow> 'a \<Rightarrow> unit go_result) \<Rightarrow> bool \<Rightarrow>
    DatagramIO go_result" where
  "NewDatagramIO resolve listen raw =
     gbind (resolve ''udp4'' ''0.0.0.0:6000'') (\<lambda>addr.
       gbind (listen ''udp'' addr) (\<lambda>_.
         Ok \<lparr>outgoingIP = IPv4 255 255 255 255,
             smartbusGwAddress = \<lparr>addr_IP = IPv4 255 255 255 255, addr_Port = 6000, addr_Zone = ''''\<rparr>,
             dgram_raw = raw\<rparr>))"

text \<open>What a datagram leads to: nothing, a frame on the raw channel, a message.\<close>

datatype udp_effect = Ignored | RawFrame "byte list" | ReadMessage SmartbusMessage

definition processUdpPacket :: "DatagramIO \<Rightarrow> byte list \<Rightarrow> udp_effect go_result" where
  "processUdpPacket dgramIO packet =
     (if length packet < length udpSignature + 4 then Ok Ignored
      else if udpSignature \<noteq> take (length udpSignature) (drop 4 packet) then Ok Ignored
      else if dgram_raw dgramIO then Ok (RawFrame (drop (length udpSignature + 4) packet))
      else (case ParseFrame (drop (length udpSignature + 4) packet) of
              Err e \<Rightarrow> Ok Ignored
            | Panic p \<Rightarrow> Panic p
            | Ok msg \<Rightarrow> Ok (ReadMessage msg)))"

text \<open>The datagram \<^verbatim>\<open>doSend\<close> sends; an error of \<^verbatim>\<open>WriteToUDP\<close> is only logged.\<close>

definition doSend :: "DatagramIO \<Rightarrow> out_item \<Rightarrow> (byte list \<times> UDPAddr) go_result" where
  "doSend dgramIO msg =
     gbind (case msg of
              OutMessage m \<Rightarrow> WriteFrame m
            | OutRaw frame \<Rightarrow> Ok (WritePreBuiltFrame frame)
            | OutUnsupported \<Rightarrow> Panic (PanicMsg ''udp: unsupported message object type''))
       (\<lambda>frame. Ok (take 4 (outgoingIP dgramIO) @ take (length udpSignature - 2) udpSignature @ frame,
          smartbusGwAddress dgramIO))"

text \<open>
  The two goroutines of \<^verbatim>\<open>Start\<close>. The reader's buffer has 8192 bytes; what is beyond in a
  datagram is lost. It stops at the first error, closing its channel, or at a panic.
\<close>

record udp_run =
  udp_msgs :: "SmartbusMessage list"
  udp_raw :: "byte list list"
  udp_closed :: bool
  udp_panic :: "go_panic option"

definition udp_empty :: udp_run where
  "udp_empty = \<lparr>udp_msgs = [], udp_raw = [], udp_closed = False, udp_panic = None\<rparr>"

fun udp_read :: "DatagramIO \<Rightarrow> byte list go_result list \<Rightarrow> udp_run" where
  "udp_read dgramIO [] = udp_empty"
| "udp_read dgramIO (Err e # ds) = udp_empty\<lparr>udp_closed := True\<rparr>"
| "udp_read dgramIO (Panic p # ds) = udp_empty\<lparr>udp_panic := Some p\<rparr>"
| "udp_read dgramIO (Ok d # ds) =
     (case processUdpPacket dgramIO (take 8192 d) of
        Panic p \<Rightarrow> udp_empty\<lparr>udp_panic := Some p\<rparr>
      | Ok (RawFrame f) \<Rightarrow> (let r = udp_read dgramIO ds in r\<lparr>udp_raw := f # udp_raw r\<rparr>)
      | Ok (ReadMessage m) \<Rightarrow> (let r = udp_read dgramIO ds in r\<lparr>udp_msgs := m # udp_msgs r\<rparr>)
      | _ \<Rightarrow> udp_read dgramIO ds)"

fun udp_write :: "DatagramIO \<Rightarrow> out_item list \<Rightarrow> (byte list \<times> UDPAddr) list \<times> go_panic option" where
  "udp_write dgramIO [] = ([], None)"
| "udp_write dgramIO (m # ms) =
     (case doSend dgramIO m of
        Ok d \<Rightarrow> (case udp_write dgramIO ms of (ds, p) \<Rightarrow> (d # ds, p))
      | Err e \<Rightarrow> ([], None)
      | Panic p \<Rightarrow> ([], Some p))"


section \<open>The channel to the sender\<close>

text \<open>
  \<^verbatim>\<open>Send\<close>, \<^verbatim>\<open>SendRaw\<close> and \<^verbatim>\<open>Stop\<close> beside the sending goroutine. The channel is unbuffered, so a
  client waits until the goroutine receives; using or closing a closed channel panics.
\<close>

record dgram_state =
  dg_pending :: "out_item option"   \<comment> \<open>what the goroutine is sending, none if it receives\<close>
  dg_closed :: bool
  dg_given :: "out_item list"
  dg_sent :: "(byte list \<times> UDPAddr) list"
  dg_crash :: "go_panic option"

definition new_dgram_state :: dgram_state where
  "new_dgram_state = \<lparr>dg_pending = None, dg_closed = False, dg_given = [], dg_sent = [], dg_crash = None\<rparr>"

definition dgram_Send :: "out_item \<Rightarrow> dgram_state \<Rightarrow> dgram_state option" where
  "dgram_Send item st =
     (if dg_closed st then Some (st\<lparr>dg_crash := Some (PanicMsg ''send on closed channel'')\<rparr>)
      else if dg_pending st = None then Some (st\<lparr>dg_pending := Some item, dg_given := dg_given st @ [item]\<rparr>)
      else None)"

definition dgram_SendRaw :: "byte list \<Rightarrow> dgram_state \<Rightarrow> dgram_state option" where
  "dgram_SendRaw frame st = dgram_Send (OutRaw frame) st"

definition dgram_writer :: "DatagramIO \<Rightarrow> dgram_state \<Rightarrow> dgram_state option" where
  "dgram_writer dgramIO st =
     (case dg_pending st of
        None \<Rightarrow> None
      | Some item \<Rightarrow>
          (case doSend dgramIO item of
             Ok d \<Rightarrow> Some (st\<lparr>dg_pending := None, dg_sent := dg_sent st @ [d]\<rparr>)
           | Err e \<Rightarrow> Some (st\<lparr>dg_pending := None\<rparr>)
           | Panic p \<Rightarrow> Some (st\<lparr>dg_crash := Some p\<rparr>)))"

definition dgram_Stop :: "dgram_state \<Rightarrow> dgram_state option" where
  "dgram_Stop st =
     (if dg_closed st then Some (st\<lparr>dg_crash := Some (PanicMsg ''close of closed channel'')\<rparr>)
      else Some (st\<lparr>dg_closed := True\<rparr>))"

datatype dgram_label = DgSend SmartbusMessage | DgSendRaw "byte list" | DgWriter | DgStop

fun dgram_step :: "DatagramIO \<Rightarrow> dgram_label \<Rightarrow> dgram_state \<Rightarrow> dgram_state option" where
  "dgram_step dgramIO l st =
     (if dg_crash st \<noteq> None then None
      else (case l of
              DgSend m \<Rightarrow> dgram_Send (OutMessage m) st
            | DgSendRaw f \<Rightarrow> dgram_SendRaw f st
            | DgWriter \<Rightarrow> dgram_writer dgramIO st
            | DgStop \<Rightarrow> dgram_Stop st))"

text \<open>What was given is sent in order, up to what the goroutine is dealing with.\<close>

definition dgram_inv :: "DatagramIO \<Rightarrow> dgram_state \<Rightarrow> bool" where
  "dgram_inv dgramIO st =
     (map (doSend dgramIO) (dg_given st) =
        map Ok (dg_sent st) @ (case dg_pending st of None \<Rightarrow> [] | Some item \<Rightarrow> [doSend dgramIO item]))"

lemma WriteFrame_not_Err: "WriteFrame m \<noteq> Err e"
  by (auto simp: WriteFrame_def WriteFrameRaw_def Let_def split: go_result.splits)

lemma doSend_not_Err: "doSend dgramIO item \<noteq> Err e"
  using WriteFrame_not_Err by (cases item; cases "WriteFrame (case item of OutMessage m \<Rightarrow> m)") (auto simp: doSend_def)

lemma dgram_inv_step: "dgram_inv dgramIO st \<Longrightarrow> dgram_step dgramIO l st = Some st' \<Longrightarrow> dgram_inv dgramIO st'"
  using doSend_not_Err
  by (auto simp: dgram_inv_def dgram_Send_def dgram_SendRaw_def dgram_writer_def dgram_Stop_def
      split: if_splits dgram_label.splits option.splits go_result.splits)

interpretation dgram: ts_invariant "dgram_step dgramIO" new_dgram_state "dgram_inv dgramIO"
  by unfold_locales (simp add: dgram_inv_def new_dgram_state_def, rule dgram_inv_step)


section \<open>What is sent and received\<close>

definition new_dgram :: "bool \<Rightarrow> DatagramIO" where
  "new_dgram raw = \<lparr>outgoingIP = IPv4 255 255 255 255,
     smartbusGwAddress = \<lparr>addr_IP = IPv4 255 255 255 255, addr_Port = 6000, addr_Zone = ''''\<rparr>, dgram_raw = raw\<rparr>"

lemma NewDatagramIO_Ok: "NewDatagramIO resolve listen raw = Ok dio \<Longrightarrow> dio = new_dgram raw"
  by (auto simp: NewDatagramIO_def new_dgram_def gbind_Ok_iff)

lemma length_udpSignature [simp]: "length udpSignature = 12"
  by (simp add: udpSignature_def)

lemma take_IPv4: "take 4 (IPv4 a b c d) = [0, 0, 0, 0]"
  by (simp add: IPv4_def eval_nat_numeral)

lemma datagram_shape:
  "write_item item = Ok ([0xaa, 0xaa] @ f) \<Longrightarrow>
     doSend (new_dgram raw) item = Ok ([0, 0, 0, 0] @ udpSignature @ f, smartbusGwAddress (new_dgram raw))"
  by (cases item) (simp_all add: doSend_def new_dgram_def take_IPv4 udpSignature_def)

lemma process_datagram:
  assumes "length ip = 4"
  shows "processUdpPacket dio (ip @ udpSignature @ f) =
     (if dgram_raw dio then Ok (RawFrame f)
      else (case ParseFrame f of Err e \<Rightarrow> Ok Ignored | Panic p \<Rightarrow> Panic p | Ok msg \<Rightarrow> Ok (ReadMessage msg)))"
  using assms by (simp add: processUdpPacket_def)

lemma udp_read_frames:
  assumes "\<And>f. f \<in> set fs \<Longrightarrow> length f \<le> 8176"
    and "list_all2 (\<lambda>f sm. ParseFrame f = Ok (received sm)) fs sms"
  shows "udp_read (new_dgram raw) (map (\<lambda>f. Ok ([0, 0, 0, 0] @ udpSignature @ f)) fs) =
     udp_empty\<lparr>udp_msgs := (if raw then [] else map received sms), udp_raw := (if raw then fs else [])\<rparr>"
  using assms(2,1)
proof (induction fs sms rule: list_all2_induct)
  case Nil
  then show ?case by (simp add: udp_empty_def)
next
  case (Cons f fs sm sms)
  have "length f \<le> 8176" using Cons.prems by simp
  then have "take 8192 ([0, 0, 0, 0] @ udpSignature @ f) = [0, 0, 0, 0] @ udpSignature @ f" by simp
  moreover have "dgram_raw (new_dgram raw) = raw" by (simp add: new_dgram_def)
  ultimately show ?case
    using Cons.IH Cons.prems Cons.hyps process_datagram [of "[0, 0, 0, 0]" "new_dgram raw" f]
    by (cases raw) (simp_all del: append.simps add: Let_def)
qed


section \<open>Properties\<close>

lemma udp_write_messages:
  assumes "\<And>sm. sm \<in> set sms \<Longrightarrow> fits_frame (Message sm)"
  shows "\<exists>fs. udp_write (new_dgram raw) (map OutMessage sms) =
       (map (\<lambda>f. ([0, 0, 0, 0] @ udpSignature @ f, smartbusGwAddress (new_dgram raw))) fs, None) \<and>
     list_all2 (\<lambda>f sm. wire_frame f \<and> ParseFrame f = Ok (received sm)) fs sms"
  using assms
proof (induction sms)
  case Nil
  then show ?case by simp
next
  case (Cons sm sms)
  then obtain fs where fs: "udp_write (new_dgram raw) (map OutMessage sms) =
       (map (\<lambda>f. ([0, 0, 0, 0] @ udpSignature @ f, smartbusGwAddress (new_dgram raw))) fs, None)"
     "list_all2 (\<lambda>f sm. wire_frame f \<and> ParseFrame f = Ok (received sm)) fs sms" by auto
  obtain f where f: "WriteFrame sm = Ok ([0xaa, 0xaa] @ f)" "wire_frame f" "ParseFrame f = Ok (received sm)"
    using WriteFrame_wire [of sm] Cons.prems by auto
  have "doSend (new_dgram raw) (OutMessage sm) = Ok ([0, 0, 0, 0] @ udpSignature @ f, smartbusGwAddress (new_dgram raw))"
    by (rule datagram_shape) (simp add: f)
  with fs f show ?case by (intro exI [of _ "f # fs"]) (simp del: append.simps)
qed

text \<open>A datagram carries what a stream would carry, less the synchronisation bytes.\<close>

lemma udp_write_stream:
  "WriteSmartbus (map OutMessage sms) = (map ((@) [0xaa, 0xaa]) fs, None) \<Longrightarrow>
     udp_write (new_dgram raw) (map OutMessage sms) =
       (map (\<lambda>f. ([0, 0, 0, 0] @ udpSignature @ f, smartbusGwAddress (new_dgram raw))) fs, None)"
proof (induction sms arbitrary: fs)
  case Nil
  then show ?case by simp
next
  case (Cons sm sms)
  then obtain f fs' where fs: "fs = f # fs'" and f: "WriteFrame sm = Ok ([0xaa, 0xaa] @ f)"
    and rest: "WriteSmartbus (map OutMessage sms) = (map ((@) [0xaa, 0xaa]) fs', None)"
    using WriteFrame_not_Err by (cases fs) (auto split: go_result.splits prod.splits)
  have "doSend (new_dgram raw) (OutMessage sm) = Ok ([0, 0, 0, 0] @ udpSignature @ f, smartbusGwAddress (new_dgram raw))"
    by (rule datagram_shape) (simp add: f)
  with Cons.IH [OF rest] fs show ?case by (simp del: append.simps)
qed

text \<open>
  (C31) Messages that fit a frame, sent as datagrams by one driver and received by another, arrive
  all, in order and unchanged; every datagram goes to the broadcast address, port 6000.
\<close>

theorem udp_round_trip:
  assumes "NewDatagramIO resolve listen raw = Ok dio" and "NewDatagramIO resolve' listen' False = Ok dio'"
    and "\<And>sm. sm \<in> set sms \<Longrightarrow> fits_frame (Message sm)"
  shows "\<exists>ds. udp_write dio (map OutMessage sms) = (ds, None) \<and>
     (\<forall>d \<in> set ds. snd d = \<lparr>addr_IP = IPv4 255 255 255 255, addr_Port = 6000, addr_Zone = ''''\<rparr>) \<and>
     udp_read dio' (map (\<lambda>d. Ok (fst d)) ds) =
       \<lparr>udp_msgs = map received sms, udp_raw = [], udp_closed = False, udp_panic = None\<rparr>"
proof -
  note dio = NewDatagramIO_Ok [OF assms(1)] NewDatagramIO_Ok [OF assms(2)]
  from udp_write_messages [of sms raw, OF assms(3)] obtain fs where
    wr: "udp_write (new_dgram raw) (map OutMessage sms) =
       (map (\<lambda>f. ([0, 0, 0, 0] @ udpSignature @ f, smartbusGwAddress (new_dgram raw))) fs, None)" and
    fs: "list_all2 (\<lambda>f sm. wire_frame f \<and> ParseFrame f = Ok (received sm)) fs sms" by blast
  have "length f \<le> 8176" if "f \<in> set fs" for f
    using fs that by (auto simp: list_all2_conv_all_nth in_set_conv_nth wire_frame_def)
  moreover have "list_all2 (\<lambda>f sm. ParseFrame f = Ok (received sm)) fs sms"
    using fs by (rule list_all2_mono) simp
  ultimately have "udp_read (new_dgram False) (map (\<lambda>f. Ok ([0, 0, 0, 0] @ udpSignature @ f)) fs) =
      udp_empty\<lparr>udp_msgs := map received sms, udp_raw := []\<rparr>"
    using udp_read_frames [of fs sms False] by simp
  then show ?thesis
    unfolding dio wr by (auto simp: new_dgram_def udp_empty_def comp_def)
qed

theorem udp_round_trip_witness:
  "\<exists>dio ds. NewDatagramIO (\<lambda>_ _. Ok ()) (\<lambda>_ _. Ok ()) False = Ok dio \<and>
     udp_write dio (map OutMessage [sample_message]) = (ds, None) \<and>
     udp_msgs (udp_read dio (map (\<lambda>d. Ok (fst d)) ds)) = [received sample_message]"
proof -
  obtain dio where dio: "NewDatagramIO (\<lambda>_ _. Ok ()) (\<lambda>_ _. Ok ()) False = Ok dio"
    by (simp add: NewDatagramIO_def)
  from udp_round_trip [OF dio dio, of "[sample_message]"] fits_sample dio show ?thesis by auto
qed

text \<open>
  (C36) In both modes a datagram is ignored if it is shorter than 16 bytes or has no signature. One with
  the signature is passed on as a raw frame in gateway mode, however short, and nothing panics; when
  the driver itself is connected by UDP, one of 16, 17 or 18 bytes makes it panic.
\<close>

theorem udp_short_datagram:
  "(length packet < 16 \<or> take 12 (drop 4 packet) \<noteq> udpSignature \<longrightarrow> processUdpPacket dio packet = Ok Ignored) \<and>
   (16 \<le> length packet \<and> take 12 (drop 4 packet) = udpSignature \<and> dgram_raw dio \<longrightarrow>
      processUdpPacket dio packet = Ok (RawFrame (drop 16 packet))) \<and>
   (16 \<le> length packet \<and> take 12 (drop 4 packet) = udpSignature \<and> \<not> dgram_raw dio \<and> length packet \<le> 18 \<longrightarrow>
      processUdpPacket dio packet = Panic SliceBounds)"
  by (auto simp: processUdpPacket_def ParseFrame_def)

theorem udp_short_datagram_witness:
  "processUdpPacket (new_dgram False) ([192, 168, 1, 10] @ udpSignature) = Panic SliceBounds \<and>
   processUdpPacket (new_dgram True) ([192, 168, 1, 10] @ udpSignature) = Ok (RawFrame [])"
proof -
  have "\<not> dgram_raw (new_dgram False)" "dgram_raw (new_dgram True)" by (simp_all add: new_dgram_def)
  with udp_short_datagram [of "[192, 168, 1, 10] @ udpSignature" "new_dgram False"]
    udp_short_datagram [of "[192, 168, 1, 10] @ udpSignature" "new_dgram True"] show ?thesis by simp
qed

text \<open>
  The CRC and the length byte of a frame in a datagram are not checked: any three bytes in
  their place lead to the same result.
\<close>

theorem udp_checks_no_crc:
  assumes "length ip = 4" and "\<not> dgram_raw dio"
  shows "processUdpPacket dio (ip @ udpSignature @ l # body @ [c1, c2]) =
     processUdpPacket dio (ip @ udpSignature @ l' # body @ [c1', c2'])"
  unfolding process_datagram [OF assms(1)] using assms(2) by (simp add: ParseFrame_def)

theorem udp_checks_no_crc_witness:
  "processUdpPacket (new_dgram False) ([0, 0, 0, 0] @ udpSignature @ 11 # header_bytes sample_header @ [1, 2]) =
     processUdpPacket (new_dgram False) ([0, 0, 0, 0] @ udpSignature @ 0 # header_bytes sample_header @ [3, 4])"
  by (rule udp_checks_no_crc) (simp_all add: new_dgram_def)

end
