(* ===== verification/Facade.thy ===== *)
theory Facade
  imports StreamCorrect Udp SmartbusModel
begin

text \<open>
  How the driver is put together, \<^verbatim>\<open>smartbus/facade.go\<close>: the choice of the connection by the
  address, and the gateway that passes frames between a stream and UDP. Serial ports, sockets and
  address resolution are those of third-party packages and of package \<^verbatim>\<open>net\<close>: the functions of
  \<open>net_env\<close>.
\<close>

section \<open>Connections\<close>

definition DRIVER_SUBNET :: byte where "DRIVER_SUBNET = 0x01"
definition DRIVER_DEVICE_ID :: byte where "DRIVER_DEVICE_ID = 0x99"
definition DRIVER_DEVICE_TYPE :: u16 where "DRIVER_DEVICE_TYPE = 0x1234"

text \<open>The streams: of them, only \<^verbatim>\<open>serialWrapper\<close> is a \<^verbatim>\<open>TimeoutChecker\<close>.\<close>

datatype ('p, 'c) stream = serialWrapper 'p | TCPConn 'c

definition wrapper_IsTimeout :: "go_error \<Rightarrow> bool" where
  "wrapper_IsTimeout err = (err = ErrTimeout)"

definition isTimeout :: "('p, 'c) stream \<Rightarrow> go_error \<Rightarrow> bool" where
  "isTimeout stream err = (case stream of serialWrapper p \<Rightarrow> wrapper_IsTimeout err | TCPConn c \<Rightarrow> False)"

record serial_Config =
  Address :: string
  BaudRate :: nat
  DataBits :: nat
  StopBits :: nat
  Parity :: string
  TimeoutMs :: nat

record ('p, 'c, 'a) net_env =
  serial_Open :: "serial_Config \<Rightarrow> 'p go_result"
  net_Dial :: "string \<Rightarrow> string \<Rightarrow> 'c go_result"
  ResolveUDPAddr :: "string \<Rightarrow> string \<Rightarrow> 'a go_result"
  ListenUDP :: "string \<Rightarrow> 'a \<Rightarrow> unit go_result"

text \<open>A stream, with the UDP side of its gateway if there is one, or UDP.\<close>

datatype ('p, 'c) SmartbusIO = StreamIO "('p, 'c) stream" "DatagramIO option" | UdpIO DatagramIO

definition createStreamIO :: "('p, 'c, 'a) net_env \<Rightarrow> ('p, 'c) stream \<Rightarrow> bool \<Rightarrow> ('p, 'c) SmartbusIO go_result" where
  "createStreamIO net stream provideUdpGateway =
     (if \<not> provideUdpGateway then Ok (StreamIO stream None)
      else gbind (NewDatagramIO (ResolveUDPAddr net) (ListenUDP net) True) (\<lambda>dgramIO.
        Ok (StreamIO stream (Some dgramIO))))"

definition connect :: "('p, 'c, 'a) net_env \<Rightarrow> string \<Rightarrow> bool \<Rightarrow> ('p, 'c) SmartbusIO go_result" where
  "connect net serialAddress provideUdpGateway =
     (if HasPrefix serialAddress ''/'' then
        gbind (serial_Open net \<lparr>Address = serialAddress, BaudRate = 9600, DataBits = 8, StopBits = 1,
            Parity = ''E'', TimeoutMs = 250\<rparr>) (\<lambda>port.
          createStreamIO net (serialWrapper port) provideUdpGateway)
      else if serialAddress = ''udp'' then
        if provideUdpGateway then Err (ErrOther ''cannot provide UDP gw in udp device access mode'')
        else gbind (NewDatagramIO (ResolveUDPAddr net) (ListenUDP net) False) (\<lambda>dgramIO. Ok (UdpIO dgramIO))
      else if HasPrefix serialAddress ''tcp://'' then
        gbind (net_Dial net ''tcp'' (drop 6 serialAddress)) (\<lambda>conn.
          createStreamIO net (TCPConn conn) provideUdpGateway)
      else gbind (net_Dial net ''tcp'' serialAddress) (\<lambda>conn. Ok (StreamIO (TCPConn conn) None)))"

text \<open>How \<^verbatim>\<open>StreamIO\<close> runs on a stream: its time-outs, and a raw channel in gateway mode.\<close>

definition stream_config :: "('p, 'c) stream \<Rightarrow> DatagramIO option \<Rightarrow> stream_cfg" where
  "stream_config stream gateway = \<lparr>stream_tmo = isTimeout stream, has_rawReadCh = (gateway \<noteq> None)\<rparr>"

text \<open>The model of the driver and the connector its \<^verbatim>\<open>Start\<close> calls.\<close>

definition NewSmartbusTCPDriver ::
    "('p, 'c, 'a) net_env \<Rightarrow> string \<Rightarrow> bool \<Rightarrow> SmartbusModel \<times> ('p, 'c) SmartbusIO go_result" where
  "NewSmartbusTCPDriver net serialAddress provideUdpGateway =
     (NewSmartbusModel DRIVER_SUBNET DRIVER_DEVICE_ID DRIVER_DEVICE_TYPE,
      connect net serialAddress provideUdpGateway)"


section \<open>The gateway\<close>

text \<open>
  From UDP to the stream: the goroutine that reads datagrams reads all of them into one buffer and
  passes on slices of it; a forwarding goroutine passes them to the stream's writer, which copies
  the bytes when it writes. So a slice is kept as what it is: the number \<open>n\<close> for the bytes 16 to
  \<open>n\<close> of the buffer. From the stream to UDP: the stream's reader allocates every frame anew and
  passes it on; another forwarding goroutine passes it to the sender of datagrams, which is that of
  \<^verbatim>\<open>Udp\<close>. All channels are unbuffered: a hand-over is one step of both sides.
\<close>

record Gateway =
  gw_dgram :: DatagramIO
  gw_buf :: "byte list"
  gw_reader :: "nat option"   \<comment> \<open>sending the slice on \<^verbatim>\<open>rawUdpReadCh\<close>\<close>
  gw_fwd :: "nat option"      \<comment> \<open>in \<^verbatim>\<open>streamIO.SendRaw\<close>\<close>
  gw_writer :: "nat option"   \<comment> \<open>received by \<^verbatim>\<open>WriteSmartbus\<close>\<close>
  gw_written :: "byte list list"
  gw_frame :: "byte list option"      \<comment> \<open>the stream's reader, sending a frame on \<^verbatim>\<open>rawSerialReadCh\<close>\<close>
  gw_fwd_udp :: "byte list option"    \<comment> \<open>in \<^verbatim>\<open>dgramIO.SendRaw\<close>\<close>
  gw_udp :: dgram_state               \<comment> \<open>the sender of datagrams\<close>

definition NewGateway :: "DatagramIO \<Rightarrow> Gateway" where
  "NewGateway dgramIO = \<lparr>gw_dgram = dgramIO, gw_buf = replicate 8192 0, gw_reader = None, gw_fwd = None,
     gw_writer = None, gw_written = [], gw_frame = None, gw_fwd_udp = None, gw_udp = new_dgram_state\<rparr>"

definition gw_datagram :: "byte list \<Rightarrow> Gateway \<Rightarrow> Gateway option" where
  "gw_datagram d gw =
     (if gw_reader gw \<noteq> None then None
      else
        let packet = take 8192 d; n = length packet; gw' = gw\<lparr>gw_buf := packet @ drop n (gw_buf gw)\<rparr> in
        case processUdpPacket (gw_dgram gw) (take n (gw_buf gw')) of
          Ok (RawFrame f) \<Rightarrow> Some (gw'\<lparr>gw_reader := Some n\<rparr>)
        | Ok _ \<Rightarrow> Some gw'
        | _ \<Rightarrow> None)"

definition gw_forward :: "Gateway \<Rightarrow> Gateway option" where
  "gw_forward gw =
     (case (gw_reader gw, gw_fwd gw) of
        (Some n, None) \<Rightarrow> Some (gw\<lparr>gw_reader := None, gw_fwd := Some n\<rparr>) | _ \<Rightarrow> None)"

definition gw_send :: "Gateway \<Rightarrow> Gateway option" where
  "gw_send gw =
     (case (gw_fwd gw, gw_writer gw) of
        (Some n, None) \<Rightarrow> Some (gw\<lparr>gw_fwd := None, gw_writer := Some n\<rparr>) | _ \<Rightarrow> None)"

definition gw_write :: "Gateway \<Rightarrow> Gateway option" where
  "gw_write gw =
     (case gw_writer gw of
        Some n \<Rightarrow> Some (gw\<lparr>gw_writer := None,
           gw_written := gw_written gw @ [WritePreBuiltFrame (drop (length udpSignature + 4) (take n (gw_buf gw)))]\<rparr>)
      | None \<Rightarrow> None)"

definition gw_read_frame :: "byte list \<Rightarrow> Gateway \<Rightarrow> Gateway option" where
  "gw_read_frame frame gw = (if gw_frame gw = None then Some (gw\<lparr>gw_frame := Some frame\<rparr>) else None)"

definition gw_forward_udp :: "Gateway \<Rightarrow> Gateway option" where
  "gw_forward_udp gw =
     (case (gw_frame gw, gw_fwd_udp gw) of
        (Some frame, None) \<Rightarrow> Some (gw\<lparr>gw_frame := None, gw_fwd_udp := Some frame\<rparr>) | _ \<Rightarrow> None)"

definition gw_send_udp :: "Gateway \<Rightarrow> Gateway option" where
  "gw_send_udp gw =
     (case gw_fwd_udp gw of
        Some frame \<Rightarrow> map_option (\<lambda>st. gw\<lparr>gw_fwd_udp := None, gw_udp := st\<rparr>) (dgram_SendRaw frame (gw_udp gw))
      | None \<Rightarrow> None)"

definition gw_write_udp :: "Gateway \<Rightarrow> Gateway option" where
  "gw_write_udp gw = map_option (\<lambda>st. gw\<lparr>gw_udp := st\<rparr>) (dgram_writer (gw_dgram gw) (gw_udp gw))"

datatype gw_label =
    GwDatagram "byte list" | GwForward | GwSend | GwWrite
  | GwFrame "byte list" | GwForwardUdp | GwSendUdp | GwWriteUdp

fun gw_step :: "gw_label \<Rightarrow> Gateway \<Rightarrow> Gateway option" where
  "gw_step (GwDatagram d) gw = gw_datagram d gw"
| "gw_step GwForward gw = gw_forward gw"
| "gw_step GwSend gw = gw_send gw"
| "gw_step GwWrite gw = gw_write gw"
| "gw_step (GwFrame frame) gw = gw_read_frame frame gw"
| "gw_step GwForwardUdp gw = gw_forward_udp gw"
| "gw_step GwSendUdp gw = gw_send_udp gw"
| "gw_step GwWriteUdp gw = gw_write_udp gw"


section \<open>Properties\<close>

text \<open>A datagram that carries a frame and fits the buffer.\<close>

definition frame_datagram :: "byte list \<Rightarrow> bool" where
  "frame_datagram d = (16 \<le> length d \<and> length d \<le> 8192 \<and> take 12 (drop 4 d) = udpSignature)"

lemma gw_datagram_frame:
  assumes "frame_datagram d" and "dgram_raw (gw_dgram gw)" and "gw_reader gw = None"
  shows "gw_datagram d gw = Some (gw\<lparr>gw_buf := d @ drop (length d) (gw_buf gw), gw_reader := Some (length d)\<rparr>)"
  using assms by (simp add: gw_datagram_def frame_datagram_def Let_def processUdpPacket_def)

lemma gateway_one:
  assumes "frame_datagram d" and "dgram_raw (gw_dgram gw)"
    and "gw_reader gw = None" "gw_fwd gw = None" "gw_writer gw = None"
  shows "exec gw_step [GwDatagram d, GwForward, GwSend, GwWrite] gw =
     Some (gw\<lparr>gw_buf := d @ drop (length d) (gw_buf gw), gw_written := gw_written gw @ [[0xaa, 0xaa] @ drop 16 d]\<rparr>)"
  using assms
  by (simp add: gw_datagram_frame gw_forward_def gw_send_def gw_write_def WritePreBuiltFrame_def)

text \<open>Datagrams and frames, each on its way out before the next arrives.\<close>

definition to_stream :: "byte list \<Rightarrow> gw_label list" where
  "to_stream d = [GwDatagram d, GwForward, GwSend, GwWrite]"

definition to_udp :: "byte list \<Rightarrow> gw_label list" where
  "to_udp frame = [GwFrame frame, GwForwardUdp, GwSendUdp, GwWriteUdp]"

lemma gateway_to_stream:
  assumes "list_all frame_datagram ds"
    and "dgram_raw (gw_dgram gw)" "gw_reader gw = None" "gw_fwd gw = None" "gw_writer gw = None"
  shows "\<exists>gw'. exec gw_step (concat (map to_stream ds)) gw = Some gw' \<and>
      gw_written gw' = gw_written gw @ map (\<lambda>d. [0xaa, 0xaa] @ drop 16 d) ds"
  using assms
proof (induction ds arbitrary: gw)
  case (Cons d ds)
  let ?gw = "gw\<lparr>gw_buf := d @ drop (length d) (gw_buf gw), gw_written := gw_written gw @ [[0xaa, 0xaa] @ drop 16 d]\<rparr>"
  have "exec gw_step (to_stream d) gw = Some ?gw"
    unfolding to_stream_def using Cons.prems by (intro gateway_one) simp_all
  moreover have "concat (map to_stream (d # ds)) = to_stream d @ concat (map to_stream ds)" by simp
  ultimately show ?case
    using Cons.IH [of ?gw] Cons.prems by (simp only: exec_append) simp
qed simp

lemma gateway_to_udp:
  assumes "gw_dgram gw = new_dgram raw" "gw_frame gw = None" "gw_fwd_udp gw = None"
    and "dg_pending (gw_udp gw) = None" "\<not> dg_closed (gw_udp gw)"
  shows "\<exists>gw'. exec gw_step (concat (map to_udp fs)) gw = Some gw' \<and>
      dg_sent (gw_udp gw') = dg_sent (gw_udp gw) @
        map (\<lambda>f. ([0, 0, 0, 0] @ udpSignature @ f, smartbusGwAddress (new_dgram raw))) fs"
  using assms
proof (induction fs arbitrary: gw)
  case (Cons f fs)
  have send: "doSend (new_dgram raw) (OutRaw f) = Ok ([0, 0, 0, 0] @ udpSignature @ f, smartbusGwAddress (new_dgram raw))"
    by (rule datagram_shape) (simp add: WritePreBuiltFrame_def)
  obtain gw1 where gw1: "exec gw_step (to_udp f) gw = Some gw1" "gw_dgram gw1 = new_dgram raw" "gw_frame gw1 = None"
    "gw_fwd_udp gw1 = None" "dg_pending (gw_udp gw1) = None" "\<not> dg_closed (gw_udp gw1)"
    "dg_sent (gw_udp gw1) = dg_sent (gw_udp gw) @ [([0, 0, 0, 0] @ udpSignature @ f, smartbusGwAddress (new_dgram raw))]"
    using Cons.prems send
    by (simp add: to_udp_def gw_read_frame_def gw_forward_udp_def gw_send_udp_def gw_write_udp_def dgram_SendRaw_def
        dgram_Send_def dgram_writer_def del: append.simps)
  have "concat (map to_udp (f # fs)) = to_udp f @ concat (map to_udp fs)" by simp
  with Cons.IH [OF gw1(2-6)] gw1(1,7) show ?case by (simp only: exec_append) auto
qed simp

text \<open>
  (C33) If a datagram arrives while the previous one has been handed to the forwarding goroutine
  and is not written yet, the previous frame is overwritten in the shared buffer: of two datagrams
  of equal length, the second one's frame is written twice and the first one's never.
\<close>

theorem gateway_overwrites_frame:
  assumes "NewDatagramIO resolve listen True = Ok dio" and "frame_datagram d1" and "frame_datagram d2"
    and "length d1 = length d2"
  shows "\<exists>gw. exec gw_step [GwDatagram d1, GwForward, GwDatagram d2, GwSend, GwWrite, GwForward, GwSend, GwWrite]
       (NewGateway dio) = Some gw \<and>
     gw_written gw = [[0xaa, 0xaa] @ drop 16 d2, [0xaa, 0xaa] @ drop 16 d2]"
proof -
  have dio: "dio = new_dgram True" by (rule NewDatagramIO_Ok [OF assms(1)])
  then have raw: "dgram_raw dio" by (simp add: new_dgram_def)
  show ?thesis
    using assms(2-4) raw
    by (simp add: NewGateway_def gw_datagram_frame gw_forward_def gw_send_def gw_write_def WritePreBuiltFrame_def)
qed

theorem gateway_overwrites_frame_witness:
  "\<exists>dio gw. NewDatagramIO (\<lambda>_ _. Ok ()) (\<lambda>_ _. Ok ()) True = Ok dio \<and>
     exec gw_step [GwDatagram ([0, 0, 0, 0] @ udpSignature @ [1]), GwForward, GwDatagram ([0, 0, 0, 0] @ udpSignature @ [2]),
       GwSend, GwWrite, GwForward, GwSend, GwWrite] (NewGateway dio) = Some gw \<and>
     gw_written gw = [[0xaa, 0xaa, 2], [0xaa, 0xaa, 2]]"
proof -
  obtain dio where dio: "NewDatagramIO (\<lambda>_ _. Ok ()) (\<lambda>_ _. Ok ()) True = Ok dio"
    by (simp add: NewDatagramIO_def)
  have "frame_datagram ([0, 0, 0, 0] @ udpSignature @ [1])" "frame_datagram ([0, 0, 0, 0] @ udpSignature @ [2])"
    by (simp_all add: frame_datagram_def)
  from gateway_overwrites_frame [OF dio this] dio show ?thesis by auto
qed

text \<open>
  (C32) The gateway is transparent as long as it is in step, that is, each datagram or frame is on its
  way out before the next one from the same side arrives. The datagrams in which a client sends
  messages then lead to exactly the bytes on the stream that the client would have written there
  itself. And the raw frames that the stream's reader finds in those bytes lead to datagrams from
  which a client reads exactly the messages. (What happens out of step is shown above.)
\<close>

theorem gateway_transparent:
  assumes "NewDatagramIO resolve listen True = Ok dio" and "NewDatagramIO resolve' listen' False = Ok client"
    and "\<And>sm. sm \<in> set sms \<Longrightarrow> fits_frame (Message sm)"
  shows "\<exists>ds gw gw'.
     udp_write client (map OutMessage sms) = (ds, None) \<and>
     exec gw_step (concat (map (\<lambda>d. [GwDatagram (fst d), GwForward, GwSend, GwWrite]) ds)) (NewGateway dio) = Some gw \<and>
     WriteSmartbus (map OutMessage sms) = (gw_written gw, None) \<and>
     exec gw_step (concat (map (\<lambda>f. [GwFrame f, GwForwardUdp, GwSendUdp, GwWriteUdp])
         (read_raw (ReadSmartbus tmo True False (map RByte (concat (gw_written gw))))))) (NewGateway dio) = Some gw' \<and>
     udp_read client (map (\<lambda>d. Ok (fst d)) (dg_sent (gw_udp gw'))) =
       \<lparr>udp_msgs = map received sms, udp_raw = [], udp_closed = False, udp_panic = None\<rparr>"
proof -
  note dio = NewDatagramIO_Ok [OF assms(1)] NewDatagramIO_Ok [OF assms(2)]
  obtain fs where ws: "WriteSmartbus (map OutMessage sms) = (map ((@) [0xaa, 0xaa]) fs, None)"
    and fs: "list_all2 (\<lambda>f sm. wire_frame f \<and> crc_ref f = 0 \<and> ParseFrame f = Ok (received sm)) fs sms"
    using WriteSmartbus_messages [OF assms(3)] by blast
  let ?dgram = "\<lambda>f. [0, 0, 0, 0] @ udpSignature @ f"
  let ?ds = "map (\<lambda>f. (?dgram f, smartbusGwAddress client)) fs"
  have ds: "udp_write client (map OutMessage sms) = (?ds, None)"
    unfolding dio(2) by (rule udp_write_stream [OF ws])
  have short: "length f \<le> 8176" if "f \<in> set fs" for f
    using fs that by (auto simp: list_all2_conv_all_nth in_set_conv_nth wire_frame_def)
  then have "list_all frame_datagram (map ?dgram fs)"
    by (auto simp: list_all_iff frame_datagram_def)
  from gateway_to_stream [OF this, of "NewGateway dio"] obtain gw where
    gw: "exec gw_step (concat (map to_stream (map ?dgram fs))) (NewGateway dio) = Some gw"
      "gw_written gw = map ((@) [0xaa, 0xaa]) fs"
    by (auto simp: NewGateway_def dio(1) new_dgram_def comp_def)
  have frames: "read_raw (ReadSmartbus tmo True False (map RByte (concat (gw_written gw)))) = fs"
    using ReadSmartbus_packets [OF fs, of "replicate (length fs) []" tmo True]
    by (simp add: gw(2) packets_concat)
  obtain gw' where gw': "exec gw_step (concat (map to_udp fs)) (NewGateway dio) = Some gw'"
      "dg_sent (gw_udp gw') = map (\<lambda>f. (?dgram f, smartbusGwAddress dio)) fs"
    using gateway_to_udp [of "NewGateway dio" True fs] by (auto simp: NewGateway_def dio(1) new_dgram_state_def)
  have "udp_read client (map (\<lambda>f. Ok (?dgram f)) fs) = udp_empty\<lparr>udp_msgs := map received sms, udp_raw := []\<rparr>"
    unfolding dio(2) using udp_read_frames [of fs sms False, OF short list_all2_mono [OF fs]] by simp
  then show ?thesis
    using ds ws gw gw' frames
    by - (rule exI [of _ ?ds], rule exI [of _ gw], rule exI [of _ gw'],
      simp add: comp_def to_stream_def [abs_def] to_udp_def [abs_def] udp_empty_def del: append.simps)
qed

theorem gateway_transparent_witness:
  "\<exists>dio client ds gw. NewDatagramIO (\<lambda>_ _. Ok ()) (\<lambda>_ _. Ok ()) True = Ok dio \<and>
     NewDatagramIO (\<lambda>_ _. Ok ()) (\<lambda>_ _. Ok ()) False = Ok client \<and>
     udp_write client (map OutMessage [sample_message]) = (ds, None) \<and>
     exec gw_step (concat (map (\<lambda>d. [GwDatagram (fst d), GwForward, GwSend, GwWrite]) ds)) (NewGateway dio) = Some gw \<and>
     WriteSmartbus (map OutMessage [sample_message]) = (gw_written gw, None)"
proof -
  obtain dio client where
    dio: "NewDatagramIO (\<lambda>_ _. Ok ()) (\<lambda>_ _. Ok ()) True = Ok dio" and
    client: "NewDatagramIO (\<lambda>_ _. Ok ()) (\<lambda>_ _. Ok ()) False = Ok client"
    by (simp add: NewDatagramIO_def)
  have "\<And>sm. sm \<in> set [sample_message] \<Longrightarrow> fits_frame (Message sm)" using fits_sample by simp
  from gateway_transparent [OF dio client this] dio client show ?thesis by blast
qed

text \<open>
  (C34) The kind of connection is determined by the address: a path is a serial port, the only one
  whose reads time out; \<^verbatim>\<open>udp\<close> is UDP, without a gateway; anything else is TCP. A gateway is
  provided if it was asked for, except that for a TCP address without \<^verbatim>\<open>tcp://\<close> the request is
  dropped without an error.
\<close>

theorem connect_by_address:
  assumes "connect net addr gw = Ok io"
  shows "case io of
       UdpIO d \<Rightarrow> addr = ''udp'' \<and> \<not> gw \<and> \<not> dgram_raw d
     | StreamIO stream gateway \<Rightarrow> addr \<noteq> ''udp'' \<and>
         (isTimeout stream ErrTimeout \<longleftrightarrow> HasPrefix addr ''/'') \<and>
         (gateway \<noteq> None \<longleftrightarrow> gw \<and> (HasPrefix addr ''/'' \<or> HasPrefix addr ''tcp://''))"
  using assms
  by (auto simp: connect_def createStreamIO_def gbind_Ok_iff isTimeout_def wrapper_IsTimeout_def HasPrefix_def
      new_dgram_def dest!: NewDatagramIO_Ok split: if_splits)

definition sample_net :: "(unit, unit, unit) net_env" where
  "sample_net = \<lparr>serial_Open = (\<lambda>_. Ok ()), net_Dial = (\<lambda>_ _. Ok ()), ResolveUDPAddr = (\<lambda>_ _. Ok ()),
     ListenUDP = (\<lambda>_ _. Ok ())\<rparr>"

theorem connect_by_address_witness:
  "\<exists>stream gateway. connect sample_net ''localhost:6000'' True = Ok (StreamIO stream gateway) \<and> gateway = None"
proof -
  have io: "connect sample_net ''localhost:6000'' True = Ok (StreamIO (TCPConn ()) None)"
    by (simp add: connect_def sample_net_def HasPrefix_def)
  from connect_by_address [OF io] io show ?thesis by auto
qed

text \<open>
  (C35) On a TCP connection the reader never blocks on a mutex it holds itself, in any interleaving
  with the writer.
\<close>

theorem tcp_reader_never_deadlocks:
  assumes "connect net addr gw = Ok (StreamIO stream gateway)" and "\<not> HasPrefix addr ''/''"
    and "io_reach (stream_config stream gateway) io"
  shows "\<not> (rd io = RLock \<and> mutex io = ByReader)"
proof -
  obtain c where "stream = TCPConn c"
    using assms(1,2) by (auto simp: connect_def createStreamIO_def gbind_Ok_iff split: if_splits)
  then have "\<not> stream_tmo (stream_config stream gateway) e" for e
    by (simp add: stream_config_def isTimeout_def)
  with io_released.reach_inv [OF assms(3)] show ?thesis by (auto simp: mutex_released_def)
qed

theorem tcp_reader_never_deadlocks_witness:
  "\<exists>stream gateway io. connect sample_net ''tcp://bus:6000'' False = Ok (StreamIO stream gateway) \<and>
     exec (io_step (stream_config stream gateway)) [ReadEvent (RByte 0xaa), ReaderLock, ReadEvent (RFault ErrTimeout)]
       NewStreamIO = Some io \<and> \<not> (rd io = RLock \<and> mutex io = ByReader)"
proof -
  have c: "connect sample_net ''tcp://bus:6000'' False = Ok (StreamIO (TCPConn ()) None)"
    by (simp add: connect_def createStreamIO_def sample_net_def HasPrefix_def)
  obtain io where io: "exec (io_step (stream_config (TCPConn () :: (unit, unit) stream) None))
      [ReadEvent (RByte 0xaa), ReaderLock, ReadEvent (RFault ErrTimeout)] NewStreamIO = Some io"
    by (simp add: io_run_defs)
  from tcp_reader_never_deadlocks [OF c _ exec_reach [OF io]] c io show ?thesis
    by (auto simp: HasPrefix_def)
qed

end
