(* ===== verification/Spec2Isabelle.thy ===== *)
theory Spec2Isabelle
  imports FrameCorrect QueueCorrect ConnectionCorrect ZoneBeast DDPCorrect Sensors Dump DriverProperties
    StreamCorrect Udp Facade
begin

text \<open>
  A verification of the Smart-Bus driver \<^verbatim>\<open>wb-mqtt-smartbus\<close>.

  \<^bold>\<open>The program.\<close> The driver connects devices on a Smart-Bus (relays and dimmers, wall panels,
  sensors) with MQTT clients. Bytes from a serial port, a TCP connection or UDP become frames,
  frames become messages, messages are routed by an endpoint to the driver's model, which keeps one
  model per device; the device models publish controls and values through an observer, turn the
  client's wishes into requests, and a request queue sends these one at a time, repeating each
  until it is answered.

  \<^bold>\<open>The theories\<close>, with the source files under \<^verbatim>\<open>src/smartbus\<close> they model:

  \<^item> \<open>Prelude\<close>: Go values: \<open>byte\<close>, \<open>u16\<close> with wrap-around, errors, panics, \<open>go_result\<close>, buffers.
    \<open>GoStrings\<close>: the functions of \<^verbatim>\<open>strings\<close> and \<^verbatim>\<open>strconv\<close> the driver uses. \<open>Transitions\<close>:
    systems given by a partial step function; the locales \<open>ts_invariant\<close>, \<open>ts_measure\<close> and
    \<open>simulation\<close>, which the components below interpret.
  \<^item> \<open>Crc16\<close> (\<^verbatim>\<open>crc16.go\<close>): the table and the loop; equal to the bit-serial CRC, detects bursts.
  \<^item> \<open>MessageFormat\<close>, \<open>FieldSafety\<close> (\<^verbatim>\<open>messageformat.go\<close>): field codecs, converters, the reading and
    writing of structs over the reflection view (a list of tagged values), parser registration;
    round trips and where decoding panics.
  \<^item> \<open>Messages\<close> (\<^verbatim>\<open>messages.go\<close>): the message types as one datatype, opcodes, tags, the raw form of
    \<^verbatim>\<open>QueryModulesResponse\<close>, \<^verbatim>\<open>init\<close>; every message survives encoding and decoding.
  \<^item> \<open>Frame\<close>, \<open>FrameCorrect\<close> (\<^verbatim>\<open>frame.go\<close>): writing, synchronisation, reading and parsing of frames, with
    the mutex; streams of frames among noise are delivered, damaged frames dropped.
  \<^item> \<open>StreamIO\<close>, \<open>StreamCorrect\<close> (\<^verbatim>\<open>frame.go\<close>, \<^verbatim>\<open>SmartbusStreamIO\<close>): the reading and the writing goroutine
    step by step; no write while the reader holds the mutex for a frame, refinement of the reader
    as a function, stopping by closing the stream.
  \<^item> \<open>Udp\<close> (\<^verbatim>\<open>udp.go\<close>) and \<open>Facade\<close> (\<^verbatim>\<open>facade.go\<close>): datagrams, the choice of the connection, the
    goroutines of the gateway in both directions; transparent in step, not out of step.
  \<^item> \<open>MessageQueue\<close>, \<open>QueueCorrect\<close> (\<^verbatim>\<open>messagequeue.go\<close>): clients, goroutine and timers as a transition
    system; safety, order, bounded retries, quiescence, stopping.
  \<^item> \<open>Connection\<close>, \<open>ConnectionCorrect\<close> (\<^verbatim>\<open>connection.go\<close>): endpoints, devices, routing.
  \<^item> \<open>DeviceBase\<close>, \<open>ZoneBeast\<close>, \<open>DDP\<close>, \<open>DDPCorrect\<close>, \<open>Sensors\<close> (\<^verbatim>\<open>smartbus_model.go\<close>): the device models. A
    method returns the new state and the list of its effects, a panic among them where an index
    is out of range; the locale \<open>publisher\<close> states that what a device has published agrees with
    its state, and that nothing panics, and each device model interprets it. \<open>DDPCorrect\<close> has an
    abstract panel that the model of the panel refines.
  \<^item> \<open>SmartbusModel\<close> (\<^verbatim>\<open>smartbus_model.go\<close>): the driver as a transition system: delivery of messages,
    client requests, polling, the queue and time in any order. \<open>SystemCorrect\<close>: the queue inside
    the driver is a run of the queue on its own (\<open>simulation\<close>). \<open>SystemPublish\<close>, \<open>DriverCorrect\<close>:
    its invariants. \<open>DriverProperties\<close>: its guarantees.
  \<^item> \<open>Dump\<close> (\<^verbatim>\<open>dump.go\<close>): the text of log lines, and a reader that recovers addresses and messages.
  \<^item> This theory: from the bytes on the bus to what the client sees.

  \<^bold>\<open>Correspondence.\<close> Definitions have the names of the functions they model, with a prefix where
  several types have a method of the same name (\<open>zb_\<close>, \<open>ddp_\<close>, \<open>sens_\<close>, \<open>ep_\<close>, \<open>dev_\<close>, \<open>io_\<close>, \<open>gw_\<close>).
  Structs are records; a nil map entry is \<open>None\<close>; Go maps are association lists, iterated in an
  arbitrary order (\<^verbatim>\<open>Poll\<close>). \<^verbatim>\<open>uint8\<close> and \<^verbatim>\<open>uint16\<close> are words, \<^verbatim>\<open>int\<close> is \<open>int\<close> with the wrap-around
  written where a value can leave the range. Errors are \<open>Err\<close>, panics \<open>Panic\<close>,
  in a handler the effect \<open>RaisePanic\<close>, which ends the run of the driver. A step of a goroutine
  is what it does between two points where it can block; an operation that would block is \<open>None\<close>.
  Closures given to the queue are values of \<open>thunk\<close>; the one that reads the device model when it
  runs does so in the model too.

  \<^bold>\<open>Termination and bounds.\<close> No definition uses fuel. Loops over a stream recurse on the events left;
  \<open>ReadSmartbusRaw\<close> has a termination proof. Goroutines are steps, and \<open>queue_quiesces\<close> bounds
  how many the queue can take on its own. The liveness of the queue is shown provided that
  \<^verbatim>\<open>item.Run()\<close>, part of a step in the model, returns; in the driver it waits for the connection's
  writer.

  \<^bold>\<open>Parameters.\<close> Third-party code is a parameter. \<^verbatim>\<open>wbgo.Visit\<close> is \<open>env_visit\<close>, with \<open>visit_spec\<close>: it
  calls the method for the type, or the one for \<^verbatim>\<open>Anything\<close>. The MQTT side of \<^verbatim>\<open>wbgo.Driver\<close> is
  \<open>env_may_set\<close>, with \<open>env_spec\<close>: it passes on requests for announced controls only. Timers fire when
  the environment says so. Serial ports, sockets and name resolution are \<open>net_env\<close>.

  \<^bold>\<open>Not modelled.\<close> \<^verbatim>\<open>smartbus_driver.go\<close> parses flags and sleeps. Debug output is left out, except the
  text of message dumps. \<^verbatim>\<open>SmartbusConnection.Close\<close> only calls \<^verbatim>\<open>Stop\<close> of the connection, which
  \<open>StreamIO\<close> models; \<^verbatim>\<open>SetTimerFunc\<close> sets a field nobody reads; \<^verbatim>\<open>AcceptValue\<close>, \<^verbatim>\<open>Observe\<close> and \<^verbatim>\<open>IsVirtual\<close> of
  the device models are empty, setters or constants used by the driver library. The slice of relay
  states in a reply to a panel shares the relays' array; the model sends its value at the call.
\<close>

section \<open>From the wire to the client\<close>

definition broadcast_from :: "byte \<Rightarrow> byte \<Rightarrow> byte list \<Rightarrow> bool list \<Rightarrow> SmartbusMessage" where
  "broadcast_from a b zs st =
     \<lparr>Header = \<lparr>OrigSubnetID = a, OrigDeviceID = b, OrigDeviceType = 0x139c, HeaderOpcode = 0xefff,
        TargetSubnetID = 0xff, TargetDeviceID = 0xff\<rparr>,
      Message = ZoneBeastBroadcast zs st\<rparr>"

lemma received_broadcast: "received (broadcast_from a b zs st) = broadcast_from a b zs st"
  by (simp add: received_def broadcast_from_def)

lemma new_zonebeast_channels:
  "fst (zb_OnZoneBeastBroadcast (ZoneBeastBroadcast zs st) (NewZoneBeastDeviceModel dev)) =
     (NewZoneBeastDeviceModel dev)\<lparr>channelStatus := st\<rparr>"
  using channels_updateChannelStatus [of st "NewZoneBeastDeviceModel dev"]
  by (auto simp: zb_OnZoneBeastBroadcast_def NewZoneBeastDeviceModel_def split: prod.split)

lemma loop_effects:
  assumes "\<And>i s. P (snd (f i s))" and "P []" and "\<And>as bs. P as \<Longrightarrow> P bs \<Longrightarrow> P (as @ bs)"
  shows "P (snd (loop f is s))"
proof (induction "is" arbitrary: s)
  case (Cons i "is")
  show ?case using assms(3) [OF assms(1) [of i s] Cons [of "fst (f i s)"]] by (simp add: split_def)
qed (simp add: assms(2))

lemma not_passing: "\<not> passes_message (snd (zb_OnZoneBeastBroadcast msg dm))"
proof -
  let ?P = "\<lambda>as. \<forall>x. PassToQueue x \<notin> set as"
  have "?P (snd (loop (updateChannel st) is dm))" "?P (snd (loop (addChannel st) is dm))" for st "is" dm
    by (rule loop_effects; auto simp: updateChannel_def updateSingleChannel_nat at_index_def addChannel_def Let_def)+
  then have "?P (snd (zb_OnZoneBeastBroadcast msg dm))"
    by (auto simp: zb_OnZoneBeastBroadcast_def updateChannelStatus_def Let_def split_def)
  then show ?thesis
    by (auto simp: passes_message_def split: list.splits action.splits)
qed

lemma deliver_new_zonebeast:
  assumes "visit_spec (env_visit env)" and "sys_reach env s d t m" and "pc m = Idle"
    and "map_of (deviceMap m) (deviceKey a b) = None"
  shows "\<exists>m' dm. sys_step env (Deliver (broadcast_from a b zs st)) m = Some m' \<and>
     map_of (deviceMap m') (deviceKey a b) = Some (ZoneBeastM dm) \<and> channelStatus dm = st"
proof -
  let ?sm = "broadcast_from a b zs st" and ?k = "deviceKey a b" and ?msg = "ZoneBeastBroadcast zs st"
  let ?m = "emit (map Bus (maybeHandleMessage (env_ctx env) (ep m) ?sm)) m"
  obtain dev ep' where dev: "GetSmartbusDevice (ep m) a b = (dev, ep')" by fastforce
  obtain m1 where m1: "ensureDevice (Header ?sm) ?m = (Some ?k, m1)"
    "map_of (deviceMap m1) ?k = Some (ZoneBeastM (NewZoneBeastDeviceModel dev))"
    using assms(4) dev by (simp add: ensureDevice_def broadcast_from_def known_types Let_def map_add_def)
  have meth: "env_visit env zb_methods ''On'' ''ZoneBeastBroadcast'' = Some ''OnZoneBeastBroadcast''"
    using assms(1) by (simp add: visit_spec_def zb_methods_def)
  obtain dm as where call: "zb_OnZoneBeastBroadcast ?msg (NewZoneBeastDeviceModel dev) = (dm, as)" by fastforce
  with new_zonebeast_channels [of zs st dev] have dm: "channelStatus dm = st" by auto
  have "OnAnything env ?sm ?m = finish_handler env ''OnZoneBeastBroadcast'' ?msg ?k m1"
    using m1 meth call not_passing [of ?msg "NewZoneBeastDeviceModel dev"]
    by (simp add: OnAnything_def broadcast_from_def zb_call_def)
  moreover have "map_of (deviceMap (finish_handler env ''OnZoneBeastBroadcast'' ?msg ?k m1)) ?k = Some (ZoneBeastM dm)"
    using m1(2) call by (simp add: finish_handler_def zb_call_def update_conv')
  moreover have "Called TheModel ''OnAnything'' ?sm \<in> set (maybeHandleMessage (env_ctx env) (ep m) ?sm)"
    using deliver_to_model [OF assms(1-3), of ?sm] by (simp add: broadcast_from_def)
  ultimately show ?thesis using dm assms(3) by (simp add: deliver_def Let_def)
qed

text \<open>
  (C1) From the bytes on the bus to what the client sees. The bytes a Zone Beast unknown so far
  writes for a broadcast of its channels are read as one message; when the driver, idle, is given
  that message, it publishes for the device one control per channel with the channel's status, and
  no other channel.
\<close>

theorem wire_to_client:
  assumes "env_spec env" and "visit_spec (env_visit env)" and "sys_reach env s d t m" and "pc m = Idle"
    and "map_of (deviceMap m) (deviceKey a b) = None" and "fits_frame (ZoneBeastBroadcast zs st)"
  shows "\<exists>w sm m' v. WriteSmartbus [OutMessage (broadcast_from a b zs st)] = ([w], None) \<and>
     read_msgs (ReadSmartbus tmo raw False (map RByte w)) = [sm] \<and>
     sys_step env (Deliver sm) m = Some m' \<and> published (RealDevice (deviceKey a b)) m' = Some v \<and>
     (\<forall>n. v (channel_name n) = (if 1 \<le> n \<and> n \<le> length st then Some (if st ! (n - 1) then ''1'' else ''0'') else None))"
proof -
  let ?sm = "broadcast_from a b zs st"
  have "fits_frame (Message ?sm)" using assms(6) by (simp add: broadcast_from_def)
  from WriteFrame_wire [OF this] obtain f where
    f: "WriteFrame ?sm = Ok ([0xaa, 0xaa] @ f)" "wire_frame f" "crc_ref f = 0" "ParseFrame f = Ok ?sm"
    unfolding received_broadcast by blast
  have "ReadSmartbusRaw tmo False (map RByte ([0xaa, 0xaa] @ f)) =
      \<lparr>run_frames = [f], run_end = EndWaiting, run_locked = False\<rparr>"
    using ReadSmartbusRaw_wire [of "[]" f tmo "[]"] f(2,3) by simp
  then have read: "read_msgs (ReadSmartbus tmo raw False (map RByte ([0xaa, 0xaa] @ f))) = [?sm]"
    using f(4) by (simp add: ReadSmartbus_def)
  obtain m' dm where m': "sys_step env (Deliver ?sm) m = Some m'"
    "map_of (deviceMap m') (deviceKey a b) = Some (ZoneBeastM dm)" "channelStatus dm = st"
    using deliver_new_zonebeast [OF assms(2-5)] by blast
  have "sys_inv m'" using driver.reach_inv [OF reach_step [of "sys_step env", OF assms(3) m'(1)]] assms(1) by blast
  from sys_inv_view [OF this m'(2)] obtain v where "published (RealDevice (deviceKey a b)) m' = Some v"
    "\<And>n. v (channel_name n) = (if 1 \<le> n \<and> n \<le> length st then Some (if st ! (n - 1) then ''1'' else ''0'') else None)"
    using m'(3) by (auto simp: zb_rel_def switch_value_def)
  with f(1) read m'(1) show ?thesis
    by (intro exI [of _ "[0xaa, 0xaa] @ f"] exI [of _ ?sm] exI [of _ m'] exI [of _ v]) (simp del: append.simps)
qed

theorem wire_to_client_witness:
  "\<exists>m w sm m' v. exec (sys_step sample_env) startup (NewSmartbusModel 1 0x99 0x1234) = Some m \<and>
     WriteSmartbus [OutMessage (broadcast_from 1 28 [0] [False, True])] = ([w], None) \<and>
     read_msgs (ReadSmartbus (\<lambda>_. False) False False (map RByte w)) = [sm] \<and>
     sys_step sample_env (Deliver sm) m = Some m' \<and> published (RealDevice (deviceKey 1 28)) m' = Some v \<and>
     v (channel_name 2) = Some ''1''"
proof -
  obtain m where m: "exec (sys_step sample_env) startup (NewSmartbusModel 1 0x99 0x1234) = Some m"
    "pc m = Idle" "map_of (deviceMap m) (deviceKey 1 28) = None"
    using startup_run [of sample_env 1 "0x99" "0x1234"] by auto
  have vis: "visit_spec (env_visit sample_env)" by (simp add: sample_env_def sample_visit_spec)
  have fits: "fits_frame (ZoneBeastBroadcast [0] [False, True])"
    by (simp add: fits_frame_def write_payload_def WriteMessage_def write_field_def WriteTaggedField_def converterMap_def WriteStatusBytesField_def WriteChannelStatusField_def status_bytes_def)
  from wire_to_client [OF sample_env_spec vis exec_reach [OF m(1)] m(2,3) fits, of "\<lambda>_. False" False] m(1)
  show ?thesis by force
qed

end
